(* ===== verification/DH_Prelude.thy ===== *)
theory DH_Prelude
  imports Main "HOL-Library.Word" "HOL-Library.Monad_Syntax"
begin

text \<open>
  Shared vocabulary of the development: the integer types of the runtime, Rust's saturating and
  checked arithmetic, dispatch origins, the standard library's \<open>BTreeMap\<close> as a sorted
  association list, and the generic list and map facts the components use.

  Era indices, session indices, balances and points are natural numbers with the saturation
  bounds of their Rust types written out (\<open>sat_add32\<close> and so on); slots of ring buffers and
  bit patterns are machine words. A 20-byte account id (\<open>H160\<close>) and a 32-byte hash
  (\<open>H256\<close>) are words of that width: their byte-wise order is the numeric order.
\<close>

section \<open>Types\<close>

type_synonym byte = "8 word"
type_synonym u32 = "32 word"
type_synonym u64 = "64 word"
type_synonym u128 = "128 word"
type_synonym H160 = "160 word"
type_synonym H256 = "256 word"
type_synonym AccountId = H160
type_synonym EraIndex = nat
type_synonym SessionIndex = nat

text \<open>The bytes of an account id, most significant first.\<close>

definition h160_bytes :: "H160 \<Rightarrow> byte list" where
  "h160_bytes w = map (\<lambda>i. ucast (drop_bit (8 * (19 - i)) w)) [0..<20]"

text \<open>
  The origin of a dispatched call: the root origin, a signed account, or none of the two
  (an unsigned or custom origin, identified by a number).
\<close>

datatype origin = RootOrigin | SignedOrigin AccountId | OtherOrigin nat

definition ensure_root :: "origin \<Rightarrow> bool" where
  "ensure_root o' \<longleftrightarrow> o' = RootOrigin"

section \<open>Fixed-width arithmetic\<close>

named_theorems sat_simps \<open>definitions of the saturating and checked operations\<close>

definition u32_max :: nat where "u32_max = 4294967295"
definition u64_max :: nat where "u64_max = 18446744073709551615"
definition u128_max :: nat where "u128_max = 340282366920938463463374607431768211455"

definition sat_add :: "nat \<Rightarrow> nat \<Rightarrow> nat \<Rightarrow> nat" where
  [sat_simps]: "sat_add mx a b = min (a + b) mx"

definition sat_mul :: "nat \<Rightarrow> nat \<Rightarrow> nat \<Rightarrow> nat" where
  [sat_simps]: "sat_mul mx a b = min (a * b) mx"

text \<open>\<open>saturating_sub\<close> of an unsigned type is subtraction that stops at zero.\<close>

definition sat_sub :: "nat \<Rightarrow> nat \<Rightarrow> nat" where
  [sat_simps]: "sat_sub a b = a - b"

abbreviation "sat_add32 \<equiv> sat_add u32_max"
abbreviation "sat_mul32 \<equiv> sat_mul u32_max"
abbreviation "sat_add128 \<equiv> sat_add u128_max"
abbreviation "sat_mul128 \<equiv> sat_mul u128_max"

definition checked_sub :: "nat \<Rightarrow> nat \<Rightarrow> nat option" where
  [sat_simps]: "checked_sub a b = (if b \<le> a then Some (a - b) else None)"

definition checked_mul128 :: "nat \<Rightarrow> nat \<Rightarrow> nat option" where
  [sat_simps]: "checked_mul128 a b = (if a * b \<le> u128_max then Some (a * b) else None)"

definition checked_div :: "nat \<Rightarrow> nat \<Rightarrow> nat option" where
  [sat_simps]: "checked_div a b = (if b = 0 then None else Some (a div b))"

text \<open>\<open>Iterator::sum\<close> over \<open>u32\<close>: the production profile has no overflow checks, so it wraps.\<close>

definition sum_u32 :: "nat list \<Rightarrow> nat" where
  "sum_u32 xs = sum_list xs mod (u32_max + 1)"

text \<open>The cast of a \<open>usize\<close> length to \<open>u32\<close>.\<close>

definition as_u32 :: "nat \<Rightarrow> nat" where
  [sat_simps]: "as_u32 n = n mod (u32_max + 1)"

text \<open>A \<open>Perbill\<close> is its number of parts per billion.\<close>

type_synonym perbill = nat

definition ACCURACY :: perbill where "ACCURACY = 1000000000"

lemma sat_add_le_max [simp]: "sat_add mx a b \<le> mx"
  by (simp add: sat_add_def)

lemma sat_mul_le_max [simp]: "sat_mul mx a b \<le> mx"
  by (simp add: sat_mul_def)

lemma sat_add_exact: "a + b \<le> mx \<Longrightarrow> sat_add mx a b = a + b"
  by (simp add: sat_add_def)

lemma sat_mul_exact: "a * b \<le> mx \<Longrightarrow> sat_mul mx a b = a * b"
  by (simp add: sat_mul_def)

lemma sat_add_mono: "a \<le> a' \<Longrightarrow> b \<le> b' \<Longrightarrow> sat_add mx a b \<le> sat_add mx a' b'"
  by (simp add: sat_add_def)

lemma sat_mul_mono: "a \<le> a' \<Longrightarrow> b \<le> b' \<Longrightarrow> sat_mul mx a b \<le> sat_mul mx a' b'"
  using mult_le_mono [of a a' b b'] by (simp add: sat_mul_def min.coboundedI1)

section \<open>The standard library's ordered map\<close>

text \<open>
  A \<open>BTreeMap\<close> is its sequence of entries in increasing key order. \<open>bt_get\<close> looks a key up,
  \<open>bt_insert\<close> stores a value at its place; iteration is the list itself.
\<close>

definition bt_get :: "('k \<times> 'v) list \<Rightarrow> 'k \<Rightarrow> 'v option" where
  "bt_get = map_of"

fun bt_insert :: "'k::linorder \<Rightarrow> 'v \<Rightarrow> ('k \<times> 'v) list \<Rightarrow> ('k \<times> 'v) list" where
  "bt_insert k v [] = [(k, v)]"
| "bt_insert k v ((k', v') # m) =
     (if k < k' then (k, v) # (k', v') # m
      else if k = k' then (k, v) # m
      else (k', v') # bt_insert k v m)"

definition bt_wf :: "('k::linorder \<times> 'v) list \<Rightarrow> bool" where
  "bt_wf m \<longleftrightarrow> sorted_wrt (<) (map fst m)"

lemma bt_wf_Nil [simp]: "bt_wf []"
  by (simp add: bt_wf_def)

lemma bt_wf_Cons: "bt_wf ((k, v) # m) \<longleftrightarrow> (\<forall>k' \<in> fst ` set m. k < k') \<and> bt_wf m"
  by (auto simp: bt_wf_def)

lemma fst_set_bt_insert [simp]: "fst ` set (bt_insert k v m) = insert k (fst ` set m)"
  by (induction k v m rule: bt_insert.induct) auto

lemma bt_wf_insert [simp]: "bt_wf m \<Longrightarrow> bt_wf (bt_insert k v m)"
  by (induction k v m rule: bt_insert.induct) (auto simp: bt_wf_Cons)

lemma bt_get_insert: "bt_wf m \<Longrightarrow> bt_get (bt_insert k v m) = (bt_get m)(k \<mapsto> v)"
  by (induction k v m rule: bt_insert.induct) (auto simp: bt_get_def bt_wf_Cons fun_eq_iff)

lemma bt_wf_distinct: "bt_wf m \<Longrightarrow> distinct (map fst m)"
  by (simp add: bt_wf_def strict_sorted_iff)

text \<open>The sum of the values after one value is replaced by a larger one, or added.\<close>

lemma sum_bt_insert:
  "bt_wf m \<Longrightarrow> (\<Sum>(k', v') \<leftarrow> bt_insert k v m. (f v' :: nat)) + (case bt_get m k of None \<Rightarrow> 0 | Some w \<Rightarrow> f w)
     = (\<Sum>(k', v') \<leftarrow> m. f v') + f v"
proof (induction k v m rule: bt_insert.induct)
  case (1 k v)
  then show ?case by (simp add: bt_get_def)
next
  case (2 k v k' v' m)
  have out: "bt_get m k = None" if "k < k'"
    using that "2.prems" by (force simp: bt_get_def bt_wf_Cons map_of_eq_None_iff)
  show ?case
    using 2 out by (auto simp: bt_wf_Cons bt_get_def)
qed

section \<open>Lists\<close>

text \<open>\<open>slice::chunks\<close>: consecutive pieces of length \<open>n\<close>, the last one possibly shorter.\<close>

function chunks :: "nat \<Rightarrow> 'a list \<Rightarrow> 'a list list" where
  "chunks n [] = []"
| "chunks n (x # xs) = take (max n 1) (x # xs) # chunks n (drop (max n 1) (x # xs))"
  by pat_completeness auto
termination
  by (relation "measure (\<lambda>(n, xs). length xs)") auto

lemma concat_chunks [simp]: "concat (chunks n xs) = xs"
  by (induction n xs rule: chunks.induct) simp_all

lemma chunks_bounds: "c \<in> set (chunks n xs) \<Longrightarrow> c \<noteq> [] \<and> length c \<le> max n 1"
proof (induction n xs rule: chunks.induct)
  case (2 n x xs)
  then consider "c = take (max n 1) (x # xs)" | "c \<in> set (chunks n (drop (max n 1) (x # xs)))"
    by auto
  then show ?case
  proof cases
    case 1
    then show ?thesis by (auto simp: take_eq_Nil)
  next
    case 2
    then show ?thesis using "2.IH" by blast
  qed
qed simp

text \<open>\<open>Vec::remove\<close>.\<close>

definition remove_nth :: "nat \<Rightarrow> 'a list \<Rightarrow> 'a list" where
  "remove_nth i xs = take i xs @ drop (Suc i) xs"

lemma nths_split: "nths xs A = nths (take n xs) A @ nths (drop n xs) {j. j + n \<in> A}"
proof -
  have "nths xs A = nths (take n xs @ drop n xs) A" by simp
  also have "\<dots> = nths (take n xs) A @ nths (drop n xs) {j. j + length (take n xs) \<in> A}"
    by (rule nths_append)
  also have "nths (drop n xs) {j. j + length (take n xs) \<in> A} = nths (drop n xs) {j. j + n \<in> A}"
    by (cases "n \<le> length xs") simp_all
  finally show ?thesis .
qed

text \<open>Removing the indices of an increasing list from the highest on leaves the other positions.\<close>

lemma remove_nth_nths: "i < length xs \<Longrightarrow> remove_nth i xs = nths xs (- {i})"
proof -
  assume i: "i < length xs"
  have "nths (take i xs) (- {i}) = take i xs" by (rule nths_all) auto
  moreover have "nths (drop i xs) {j. j + i \<in> - {i}} = drop (Suc i) xs"
    using i by (simp add: Cons_nth_drop_Suc [symmetric] nths_Cons nths_all)
  ultimately show ?thesis using nths_split [of xs "- {i}" i] by (simp add: remove_nth_def)
qed

lemma foldr_remove_nth:
  "sorted_wrt (<) is \<Longrightarrow> \<forall>i \<in> set is. i < length xs \<Longrightarrow> foldr remove_nth is xs = nths xs (- set is)"
proof (induction "is")
  case Nil
  then show ?case by (simp add: nths_all)
next
  case (Cons i "is")
  let ?ys = "foldr remove_nth is xs"
  have ys: "?ys = nths xs (- set is)" using Cons by simp
  have i: "i < length xs" and lt: "\<forall>j \<in> set is. i < j" using Cons.prems by auto
  have pre: "nths (take (Suc i) xs) (- set is) = take (Suc i) xs"
    using lt by (intro nths_all) fastforce
  then have split: "?ys = take (Suc i) xs @ nths (drop (Suc i) xs) {j. j + Suc i \<in> - set is}"
    unfolding ys using nths_split [of xs "- set is" "Suc i"] by simp
  have "remove_nth i ?ys = take i xs @ nths (drop (Suc i) xs) {j. j + Suc i \<in> - set is}"
    using i unfolding split by (simp add: remove_nth_def min_def)
  also have "\<dots> = nths xs (- set (i # is))"
  proof -
    have "nths (take (Suc i) xs) (- set (i # is)) = take i xs"
      using i lt by (auto simp: take_Suc_conv_app_nth nths_append nths_Cons intro!: nths_all)
    moreover have "{j. j + Suc i \<in> - set (i # is)} = {j. j + Suc i \<in> - set is}" by auto
    ultimately show ?thesis using nths_split [of xs "- set (i # is)" "Suc i"] by simp
  qed
  finally show ?case by simp
qed

text \<open>Rotating a list as often as it is long gives the list back.\<close>

lemma rotate1_pow_hd: "k < length xs \<Longrightarrow> hd ((rotate1 ^^ k) xs) = xs ! k"
  using hd_rotate_conv_nth [of xs k] by (cases xs) (simp_all add: rotate_def)

lemma rotate1_pow_length: "(rotate1 ^^ length xs) xs = xs"
  using rotate_id [of "length xs" xs] by (simp add: rotate_def)

end
