(* ===== verification/Bridge_Types.thy ===== *)
theory Bridge_Types
  imports DH_Prelude
begin

text \<open>
  The message types of the Ethereum bridge: event logs and verification errors
  (\<open>primitives/snowbridge/verification\<close>), outbound messages, their commands, gas and delivery
  receipts (\<open>primitives/snowbridge/outbound-queue\<close>), inbound messages decoded from Gateway events
  (\<open>primitives/snowbridge/inbound-queue\<close>), and the operating modes.

  Solidity ABI encoding and decoding is a third-party library: the functions are parameters,
  collected in the record \<open>abi_codec\<close>. What the code hands to the encoder is modelled by
  datatypes of the Solidity structs.
\<close>

section \<open>Operating modes and errors\<close>

datatype basic_operating_mode = BasicNormal | BasicHalted

definition is_halted :: "basic_operating_mode \<Rightarrow> bool" where
  "is_halted m \<longleftrightarrow> m = BasicHalted"

datatype operating_mode = ModeNormal | RejectingOutboundMessages

definition operating_mode_u8 :: "operating_mode \<Rightarrow> byte" where
  "operating_mode_u8 m = (case m of ModeNormal \<Rightarrow> 0 | RejectingOutboundMessages \<Rightarrow> 1)"

datatype send_error = MessageTooLarge | SendHalted | InvalidChannel | InvalidOrigin

datatype verification_error =
  HeaderNotFound | LogNotFound | InvalidLog | InvalidProof | InvalidExecutionProof string

section \<open>Event logs\<close>

record event_log =
  log_address :: H160
  log_topics :: "H256 list"
  log_data :: "byte list"

definition max_topics :: nat where "max_topics = 4"

definition log_validate :: "event_log \<Rightarrow> bool" where
  "log_validate l \<longleftrightarrow> \<not> max_topics < length (log_topics l)"

record 'p event_proof =
  ep_event_log :: event_log
  ep_proof :: 'p

section \<open>Outbound messages\<close>

record initializer =
  init_params :: "byte list"
  maximum_required_gas :: u64

datatype command =
    Upgrade H160 H256 initializer
  | SetOperatingMode operating_mode
  | UnlockNativeToken H160 H160 nat
  | RegisterForeignToken H256 "byte list" "byte list" byte
  | MintForeignToken H256 H160 nat
  | CallContract H160 "byte list" u64 nat

definition max_commands :: nat where "max_commands = 8"

record outbound_msg =
  om_origin :: H256
  om_id :: H256
  om_fee :: nat
  om_commands :: "command list"

fun command_index :: "command \<Rightarrow> byte" where
  "command_index (Upgrade _ _ _) = 0"
| "command_index (SetOperatingMode _) = 1"
| "command_index (UnlockNativeToken _ _ _) = 2"
| "command_index (RegisterForeignToken _ _ _ _) = 3"
| "command_index (MintForeignToken _ _ _) = 4"
| "command_index (CallContract _ _ _ _) = 5"

text \<open>The Solidity structs of \<open>abi\<close> that the payload of a command is encoded from.\<close>

datatype command_params =
    UpgradeParams H160 H256 "byte list"
  | SetOperatingModeParams byte
  | UnlockNativeTokenParams H160 H160 nat
  | RegisterForeignTokenParams H256 "byte list" "byte list" byte
  | MintForeignTokenParams H256 H160 nat
  | CallContractParams H160 "byte list" H256

fun abi_params :: "command \<Rightarrow> command_params" where
  "abi_params (Upgrade impl_address impl_code_hash initializer) =
     UpgradeParams impl_address impl_code_hash (init_params initializer)"
| "abi_params (SetOperatingMode mode) = SetOperatingModeParams (operating_mode_u8 mode)"
| "abi_params (UnlockNativeToken token recipient amount) =
     UnlockNativeTokenParams token recipient amount"
| "abi_params (RegisterForeignToken token_id name symbol decimals) =
     RegisterForeignTokenParams token_id name symbol decimals"
| "abi_params (MintForeignToken token_id recipient amount) =
     MintForeignTokenParams token_id recipient amount"
| "abi_params (CallContract target data _ val) =
     CallContractParams target data (word_of_nat val)"

text \<open>
  The gas meter of the runtime. The sum for an upgrade is a \<open>u64\<close> addition, which wraps in the
  production profile.
\<close>

fun constant_gas_meter :: "command \<Rightarrow> u64" where
  "constant_gas_meter (SetOperatingMode _) = 40000"
| "constant_gas_meter (Upgrade _ _ initializer) = 50000 + maximum_required_gas initializer"
| "constant_gas_meter (UnlockNativeToken _ _ _) = 100000"
| "constant_gas_meter (RegisterForeignToken _ _ _ _) = 1200000"
| "constant_gas_meter (MintForeignToken _ _ _) = 100000"
| "constant_gas_meter (CallContract _ _ gas_limit _) = gas_limit"

record command_wrapper =
  cw_kind :: byte
  cw_gas :: u64
  cw_payload :: "byte list"

text \<open>
  \<open>OutboundMessage\<close> and the Solidity struct \<open>OutboundMessageWrapper\<close> have the same fields; the
  second only replaces the byte containers.
\<close>

record committed_message =
  cm_origin :: H256
  cm_nonce :: nat
  cm_topic :: H256
  cm_commands :: "command_wrapper list"

section \<open>Delivery receipts\<close>

record delivery_event =
  de_nonce :: nat
  de_topic :: H256
  de_success :: bool
  de_reward_address :: H256

record delivery_receipt =
  dr_gateway :: H160
  dr_nonce :: nat
  dr_topic :: H256
  dr_success :: bool
  dr_reward_address :: H256

definition delivery_receipt_try_from ::
  "(H256 list \<Rightarrow> byte list \<Rightarrow> delivery_event option) \<Rightarrow> event_log \<Rightarrow> delivery_receipt option" where
  "delivery_receipt_try_from decode_raw_log l =
     do { event \<leftarrow> decode_raw_log (log_topics l) (log_data l);
          Some \<lparr>dr_gateway = log_address l, dr_nonce = de_nonce event, dr_topic = de_topic event,
                dr_success = de_success event, dr_reward_address = de_reward_address event\<rparr> }"

section \<open>Inbound messages\<close>

datatype network = Polkadot

datatype inbound_payload = Raw "byte list" | CreateAsset H160 network

datatype ethereum_asset = NativeTokenERC20 H160 nat | ForeignTokenERC20 H256 nat

record inbound_message =
  im_gateway :: H160
  im_nonce :: u64
  im_origin :: H160
  im_assets :: "ethereum_asset list"
  im_xcm :: inbound_payload
  im_claimer :: "byte list option"
  im_value :: nat
  im_execution_fee :: nat
  im_relayer_fee :: nat

text \<open>The decoded Gateway event: kinds and still encoded data of assets and payload.\<close>

record gateway_payload =
  gp_origin :: H160
  gp_assets :: "(byte \<times> byte list) list"
  gp_xcm :: "byte \<times> byte list"
  gp_claimer :: "byte list"
  gp_value :: nat
  gp_execution_fee :: nat
  gp_relayer_fee :: nat

record abi_codec =
  decode_outbound_message_accepted :: "H256 list \<Rightarrow> byte list \<Rightarrow> (u64 \<times> gateway_payload) option"
  decode_native_token :: "byte list \<Rightarrow> (H160 \<times> nat) option"
  decode_foreign_token :: "byte list \<Rightarrow> (H256 \<times> nat) option"
  decode_create_asset :: "byte list \<Rightarrow> (H160 \<times> byte) option"

definition ethereum_asset_try_from :: "abi_codec \<Rightarrow> byte \<times> byte list \<Rightarrow> ethereum_asset option" where
  "ethereum_asset_try_from abi asset =
     (if fst asset = 0
      then map_option (\<lambda>(token_id, v). NativeTokenERC20 token_id v) (decode_native_token abi (snd asset))
      else if fst asset = 1
      then map_option (\<lambda>(token_id, v). ForeignTokenERC20 token_id v) (decode_foreign_token abi (snd asset))
      else None)"

fun extract_assets :: "abi_codec \<Rightarrow> (byte \<times> byte list) list \<Rightarrow> ethereum_asset list option" where
  "extract_assets abi [] = Some []"
| "extract_assets abi (asset # assets) =
     do { a \<leftarrow> ethereum_asset_try_from abi asset;
          rest \<leftarrow> extract_assets abi assets;
          Some (a # rest) }"

definition payload_try_from :: "abi_codec \<Rightarrow> gateway_payload \<Rightarrow> inbound_payload option" where
  "payload_try_from abi p =
     (case gp_xcm p of (kind, data) \<Rightarrow>
        if kind = 0 then Some (Raw data)
        else if kind = 1 then
          do { (token, net) \<leftarrow> decode_create_asset abi data;
               network \<leftarrow> (if net = 0 then Some Polkadot else None);
               Some (CreateAsset token network) }
        else None)"

definition message_try_from :: "abi_codec \<Rightarrow> event_log \<Rightarrow> inbound_message option" where
  "message_try_from abi l =
     do { (nonce, payload) \<leftarrow> decode_outbound_message_accepted abi (log_topics l) (log_data l);
          substrate_assets \<leftarrow> extract_assets abi (gp_assets payload);
          xcm \<leftarrow> payload_try_from abi payload;
          let claimer = (if 0 < length (gp_claimer payload) then Some (gp_claimer payload) else None) in
          Some \<lparr>im_gateway = log_address l, im_nonce = nonce, im_origin = gp_origin payload,
                im_assets = substrate_assets, im_xcm = xcm, im_claimer = claimer,
                im_value = gp_value payload, im_execution_fee = gp_execution_fee payload,
                im_relayer_fee = gp_relayer_fee payload\<rparr> }"

section \<open>Facts\<close>

lemma extract_assets_length: "extract_assets abi xs = Some ys \<Longrightarrow> length ys = length xs"
  by (induction xs arbitrary: ys) (auto split: Option.bind_splits)

lemma message_try_from_gateway: "message_try_from abi l = Some m \<Longrightarrow> im_gateway m = log_address l"
  by (auto simp: message_try_from_def Let_def split: Option.bind_splits prod.splits)

end
