(* ===== verification/Merkle_Tree.thy ===== *)
theory Merkle_Tree
  imports DH_Prelude
begin

text \<open>
  The binary Merkle tree of \<open>primitives/snowbridge/merkle-tree/src/lib.rs\<close>, which commits to the
  messages of a block: root computation row by row under a visitor, proof generation by a
  visitor that collects siblings, and proof verification.

  The hash function \<open>H\<close> is a parameter (the runtime passes Keccak-256). A \<open>Result\<close> is a sum
  with \<open>Inl\<close> for \<open>Err\<close>. The second loop of \<open>merkelize\<close> has no bound of its own, so it is a
  partial function whose value \<^term>\<open>None\<close> stands for not returning; that it returns is proved.

  The lemmas show that the row-wise loop computes the root of a recursive reference tree, that
  every generated proof verifies, and that under collision freedom of the inputs that are
  actually hashed only committed leaves verify.
\<close>

section \<open>Hash inputs\<close>

type_synonym hasher = "byte list \<Rightarrow> H256"

definition be_bytes :: "H256 \<Rightarrow> byte list" where
  "be_bytes w = map (\<lambda>i. ucast (drop_bit (8 * (31 - i)) w)) [0..<32]"

text \<open>The 64-byte buffer \<open>combined\<close>: the smaller of the two hashes first.\<close>

definition combined :: "H256 \<Rightarrow> H256 \<Rightarrow> byte list" where
  "combined a b = (if a < b then be_bytes a @ be_bytes b else be_bytes b @ be_bytes a)"

section \<open>Visitors\<close>

text \<open>The trait \<open>Visitor\<close> and its two implementations.\<close>

record 'v visitor =
  move_up :: "'v \<Rightarrow> 'v"
  visit :: "nat \<Rightarrow> H256 option \<Rightarrow> H256 option \<Rightarrow> 'v \<Rightarrow> 'v"

definition unit_visitor :: "unit visitor" where
  "unit_visitor = \<lparr>move_up = (\<lambda>v. v), visit = (\<lambda>_ _ _ v. v)\<rparr>"

record proof_collection =
  pc_proof :: "H256 list"
  pc_position :: nat

definition push_proof :: "H256 option \<Rightarrow> proof_collection \<Rightarrow> proof_collection" where
  "push_proof x pc = (case x of None \<Rightarrow> pc | Some h \<Rightarrow> pc\<lparr>pc_proof := pc_proof pc @ [h]\<rparr>)"

definition pc_visit ::
  "nat \<Rightarrow> H256 option \<Rightarrow> H256 option \<Rightarrow> proof_collection \<Rightarrow> proof_collection" where
  "pc_visit index left right pc =
     (let pc1 = (if pc_position pc = index then push_proof right pc else pc) in
      if pc_position pc1 = index + 1 then push_proof left pc1 else pc1)"

definition proof_visitor :: "proof_collection visitor" where
  "proof_visitor =
     \<lparr>move_up = (\<lambda>pc. pc\<lparr>pc_position := pc_position pc div 2\<rparr>), visit = pc_visit\<rparr>"

section \<open>Root computation\<close>

fun merkelize_row ::
  "hasher \<Rightarrow> 'v visitor \<Rightarrow> nat \<Rightarrow> H256 list \<Rightarrow> H256 list \<Rightarrow> 'v \<Rightarrow> (H256 list + H256) \<times> 'v" where
  "merkelize_row H vis index (a # b # iter) next v =
     merkelize_row H vis (index + 2) iter (next @ [H (combined a b)])
       (visit vis index (Some a) (Some b) v)"
| "merkelize_row H vis index [a] next v =
     (let v1 = visit vis index (Some a) None v in
      if next \<noteq> [] then merkelize_row H vis (index + 2) [] (next @ [a]) v1 else (Inr a, v1))"
| "merkelize_row H vis index [] next v = (Inl next, visit vis index None None v)"

partial_function (option) merkelize_loop ::
  "hasher \<Rightarrow> 'v visitor \<Rightarrow> H256 list \<Rightarrow> 'v \<Rightarrow> (H256 \<times> 'v) option" where
  "merkelize_loop H vis next v =
     (case merkelize_row H vis 0 next [] (move_up vis v) of
        (Inr root, v') \<Rightarrow> Some (root, v')
      | (Inl t, v') \<Rightarrow> merkelize_loop H vis t v')"

definition merkelize :: "hasher \<Rightarrow> 'v visitor \<Rightarrow> H256 list \<Rightarrow> 'v \<Rightarrow> (H256 \<times> 'v) option" where
  "merkelize H vis leaves v =
     (case merkelize_row H vis 0 leaves [] v of
        (Inr root, v') \<Rightarrow> Some (root, v')
      | (Inl next, v') \<Rightarrow> if next = [] then Some (0, v') else merkelize_loop H vis next v')"

definition merkle_root :: "hasher \<Rightarrow> H256 list \<Rightarrow> H256 option" where
  "merkle_root H leaves = map_option fst (merkelize H unit_visitor leaves ())"

section \<open>Proofs\<close>

record merkle_proof =
  mp_root :: H256
  mp_proof :: "H256 list"
  mp_number_of_leaves :: nat
  mp_leaf_index :: nat
  mp_leaf :: H256

text \<open>
  The outer \<^term>\<open>None\<close> is not returning, the inner one the panic of \<open>expect\<close> when
  the index is out of range.
\<close>

definition merkle_proof :: "hasher \<Rightarrow> H256 list \<Rightarrow> nat \<Rightarrow> merkle_proof option option" where
  "merkle_proof H leaves leaf_index =
     (case merkelize H proof_visitor leaves \<lparr>pc_proof = [], pc_position = leaf_index\<rparr> of
        None \<Rightarrow> None
      | Some (root, pc) \<Rightarrow> Some (
          if leaf_index < length leaves
          then Some \<lparr>mp_root = root, mp_proof = pc_proof pc, mp_number_of_leaves = length leaves,
                     mp_leaf_index = leaf_index, mp_leaf = leaves ! leaf_index\<rparr>
          else None))"

datatype merkle_leaf = Leaf_Value "byte list" | Leaf_Hash H256

fun leaf_hash :: "hasher \<Rightarrow> merkle_leaf \<Rightarrow> H256" where
  "leaf_hash H (Leaf_Value content) = H content"
| "leaf_hash H (Leaf_Hash h) = h"

definition verify_proof :: "hasher \<Rightarrow> H256 \<Rightarrow> H256 list \<Rightarrow> nat \<Rightarrow> nat \<Rightarrow> merkle_leaf \<Rightarrow> bool" where
  "verify_proof H root path number_of_leaves leaf_index leaf \<longleftrightarrow>
     (if leaf_index \<ge> number_of_leaves then False
      else root = foldl (\<lambda>a b. H (combined a b)) (leaf_hash H leaf) path)"

section \<open>The reference tree\<close>

text \<open>The row above a row; an odd last element is promoted unchanged.\<close>

fun parent_row :: "hasher \<Rightarrow> H256 list \<Rightarrow> H256 list" where
  "parent_row H (a # b # xs) = H (combined a b) # parent_row H xs"
| "parent_row H xs = xs"

lemma length_parent_row: "length (parent_row H xs) = (length xs + 1) div 2"
  by (induction H xs rule: parent_row.induct) auto

function tree_root :: "hasher \<Rightarrow> H256 list \<Rightarrow> H256" where
  "tree_root H xs =
     (if length xs \<ge> 2 then tree_root H (parent_row H xs) else case xs of [] \<Rightarrow> 0 | a # _ \<Rightarrow> a)"
  by auto
termination
  by (relation "measure (\<lambda>(H, xs). length xs)") (auto simp: length_parent_row)

declare tree_root.simps [simp del]

definition sibling :: "nat \<Rightarrow> H256 list \<Rightarrow> H256 list" where
  "sibling i xs =
     (if even i then (if i + 1 < length xs then [xs ! (i + 1)] else []) else [xs ! (i - 1)])"

function sibling_path :: "hasher \<Rightarrow> H256 list \<Rightarrow> nat \<Rightarrow> H256 list" where
  "sibling_path H xs i =
     (if length xs \<ge> 2 then sibling i xs @ sibling_path H (parent_row H xs) (i div 2) else [])"
  by auto
termination
  by (relation "measure (\<lambda>(H, xs, i). length xs)") (auto simp: length_parent_row)

declare sibling_path.simps [simp del]

lemma combined_commute: "combined a b = combined b a"
  by (auto simp: combined_def)

lemma length_combined [simp]: "length (combined a b) = 64"
  by (simp add: combined_def be_bytes_def)

section \<open>The row loop computes the parent row\<close>

lemma merkelize_row_result:
  "fst (merkelize_row H vis index xs next v) =
     (if next = [] \<and> length xs = 1 then Inr (xs ! 0) else Inl (next @ parent_row H xs))"
  by (induction H vis index xs "next" v rule: merkelize_row.induct) (auto simp: Let_def)

lemma parent_row_eq_Nil [simp]: "parent_row H xs = [] \<longleftrightarrow> xs = []"
  by (cases "(H, xs)" rule: parent_row.cases) auto

text \<open>The state the visitor is left with after one row.\<close>

definition row_visits :: "hasher \<Rightarrow> 'v visitor \<Rightarrow> H256 list \<Rightarrow> 'v \<Rightarrow> 'v" where
  "row_visits H vis xs v = snd (merkelize_row H vis 0 xs [] v)"

function loop_visits :: "hasher \<Rightarrow> 'v visitor \<Rightarrow> H256 list \<Rightarrow> 'v \<Rightarrow> 'v" where
  "loop_visits H vis xs v =
     (if length xs \<ge> 2
      then loop_visits H vis (parent_row H xs) (move_up vis (row_visits H vis xs v))
      else row_visits H vis xs v)"
  by auto
termination
  by (relation "measure (\<lambda>(H, vis, xs, v). length xs)") (auto simp: length_parent_row)

declare loop_visits.simps [simp del]

lemma merkelize_row_eq:
  "merkelize_row H vis 0 xs [] v =
     (if length xs = 1 then Inr (xs ! 0) else Inl (parent_row H xs), row_visits H vis xs v)"
  by (rule prod_eqI) (simp_all add: merkelize_row_result row_visits_def)

lemma tree_root_unfold:
  "xs = [] \<Longrightarrow> tree_root H xs = 0"
  "length xs = 1 \<Longrightarrow> tree_root H xs = xs ! 0"
  "2 \<le> length xs \<Longrightarrow> tree_root H xs = tree_root H (parent_row H xs)"
  by (auto simp: tree_root.simps [of H xs] split: list.split) (simp add: tree_root.simps)

lemma loop_visits_unfold:
  "length xs < 2 \<Longrightarrow> loop_visits H vis xs v = row_visits H vis xs v"
  "2 \<le> length xs \<Longrightarrow> loop_visits H vis xs v =
     loop_visits H vis (parent_row H xs) (move_up vis (row_visits H vis xs v))"
  by (simp_all add: loop_visits.simps [of H vis xs])

lemma merkelize_loop_eq:
  "xs \<noteq> [] \<Longrightarrow> merkelize_loop H vis xs v =
     Some (tree_root H xs, loop_visits H vis xs (move_up vis v))"
proof (induction "length xs" arbitrary: xs v rule: less_induct)
  case less
  show ?case
  proof (cases "length xs = 1")
    case True
    then show ?thesis
      by (subst merkelize_loop.simps)
        (simp add: merkelize_row_eq tree_root_unfold(2) loop_visits_unfold(1))
  next
    case False
    with less.prems have two: "2 \<le> length xs" by (cases xs; cases "tl xs") auto
    have shorter: "length (parent_row H xs) < length xs"
      using two by (simp add: length_parent_row)
    show ?thesis
      using False two less.hyps [OF shorter] less.prems
      by (subst merkelize_loop.simps)
        (simp add: merkelize_row_eq tree_root_unfold(3) loop_visits_unfold(2))
  qed
qed

lemma merkelize_eq:
  "merkelize H vis leaves v = Some (tree_root H leaves, loop_visits H vis leaves v)"
proof (cases "2 \<le> length leaves")
  case True
  then have "leaves \<noteq> []" by auto
  with True show ?thesis
    by (simp add: merkelize_def merkelize_row_eq merkelize_loop_eq tree_root_unfold(3)
        loop_visits_unfold(2))
next
  case False
  then consider "leaves = []" | "length leaves = 1" by (cases leaves; cases "tl leaves") auto
  then show ?thesis
    by cases (use False in \<open>simp_all add: merkelize_def merkelize_row_eq tree_root_unfold(1,2)
        loop_visits_unfold(1) del: merkelize_row.simps\<close>)
qed

section \<open>The collected proof is the sibling path\<close>

lemma pc_position_push [simp]: "pc_position (push_proof x pc) = pc_position pc"
  by (simp add: push_proof_def split: option.split)

lemma pc_position_visit [simp]: "pc_position (pc_visit i l r pc) = pc_position pc"
  by (simp add: pc_visit_def Let_def)

lemma pc_proof_visit:
  "pc_proof (pc_visit i l r pc) = pc_proof pc @
     (if pc_position pc = i then (case r of None \<Rightarrow> [] | Some h \<Rightarrow> [h])
      else if pc_position pc = i + 1 then (case l of None \<Rightarrow> [] | Some h \<Rightarrow> [h]) else [])"
  by (simp add: pc_visit_def push_proof_def split: option.split)

lemma sibling_Cons2:
  "2 \<le> i \<Longrightarrow> sibling i (a # b # xs) = sibling (i - 2) xs"
proof -
  assume "2 \<le> i"
  then obtain j where "i = Suc (Suc j)" by (metis add_2_eq_Suc le_Suc_ex)
  then show ?thesis by (cases j) (auto simp: sibling_def)
qed

lemma row_collects:
  "pc_position pc < index + length xs \<Longrightarrow>
   let r = snd (merkelize_row H proof_visitor index xs next pc) in
   pc_position r = pc_position pc \<and>
   pc_proof r = pc_proof pc @
     (if index \<le> pc_position pc then sibling (pc_position pc - index) xs else [])"
proof (induction xs arbitrary: index "next" pc rule: induct_list012)
  case (3 a b xs)
  let ?p = "pc_position pc"
  consider "?p < index" | "?p = index" | "?p = Suc index" | "index + 2 \<le> ?p" by linarith
  then show ?case
    using 3(1) [of "pc_visit index (Some a) (Some b) pc" "index + 2" "next @ [H (combined a b)]"]
      3(3)
    by cases (auto simp: proof_visitor_def pc_proof_visit Let_def sibling_Cons2 sibling_def [of 0]
        sibling_def [of "Suc 0"])
qed (auto simp: proof_visitor_def pc_proof_visit Let_def sibling_def)

lemma row_visits_collects:
  assumes "pc_position pc < length xs"
  shows "pc_position (row_visits H proof_visitor xs pc) = pc_position pc"
    and "pc_proof (row_visits H proof_visitor xs pc) = pc_proof pc @ sibling (pc_position pc) xs"
  using row_collects [of pc 0 xs H "[]"] assms by (simp_all add: row_visits_def Let_def)

lemma loop_collects:
  "pc_position pc < length xs \<Longrightarrow>
   pc_proof (loop_visits H proof_visitor xs pc) = pc_proof pc @ sibling_path H xs (pc_position pc)"
proof (induction "length xs" arbitrary: xs pc rule: less_induct)
  case less
  let ?pc = "row_visits H proof_visitor xs pc"
  note row = row_visits_collects [OF less.prems, of H]
  show ?case
  proof (cases "2 \<le> length xs")
    case True
    have "length (parent_row H xs) < length xs"
      and "pc_position pc div 2 < length (parent_row H xs)"
      using True less.prems by (auto simp: length_parent_row)
    then show ?thesis
      using True less.hyps [of "parent_row H xs" "move_up proof_visitor ?pc"] row
      by (simp add: loop_visits_unfold(2) sibling_path.simps [of H xs] proof_visitor_def)
  next
    case False
    with less.prems have "length xs = 1" and "pc_position pc = 0" by auto
    then show ?thesis
      using row by (simp add: loop_visits_unfold(1) sibling_path.simps [of H xs] sibling_def)
  qed
qed

lemma merkle_proof_eq:
  "merkle_proof H leaves i = Some (
     if i < length leaves
     then Some \<lparr>mp_root = tree_root H leaves, mp_proof = sibling_path H leaves i,
                mp_number_of_leaves = length leaves, mp_leaf_index = i, mp_leaf = leaves ! i\<rparr>
     else None)"
  using loop_collects [of "\<lparr>pc_proof = [], pc_position = i\<rparr>" leaves H]
  by (simp add: merkle_proof_def merkelize_eq)

section \<open>Proofs verify\<close>

abbreviation (input) climb :: "hasher \<Rightarrow> H256 \<Rightarrow> H256 list \<Rightarrow> H256" where
  "climb H \<equiv> foldl (\<lambda>a b. H (combined a b))"

lemma parent_row_nth:
  "i < length xs \<Longrightarrow> parent_row H xs ! (i div 2) = climb H (xs ! i) (sibling i xs)"
proof (induction xs arbitrary: i rule: induct_list012)
  case (3 a b xs)
  consider "i = 0" | "i = 1" | "2 \<le> i" by linarith
  then show ?case
  proof cases
    case 3
    then have "i div 2 = Suc ((i - 2) div 2)" by simp
    with 3 "3.IH"(1) [of "i - 2"] "3.prems" show ?thesis
      by (simp add: sibling_Cons2 nth_Cons' numeral_2_eq_2)
  qed (simp_all add: sibling_def combined_commute)
qed (simp_all add: sibling_def)

lemma climb_sibling_path:
  "i < length xs \<Longrightarrow> climb H (xs ! i) (sibling_path H xs i) = tree_root H xs"
proof (induction "length xs" arbitrary: xs i rule: less_induct)
  case less
  show ?case
  proof (cases "2 \<le> length xs")
    case True
    have "length (parent_row H xs) < length xs" and "i div 2 < length (parent_row H xs)"
      using True less.prems by (auto simp: length_parent_row)
    then show ?thesis
      using True less.hyps [of "parent_row H xs" "i div 2"] parent_row_nth [OF less.prems, of H]
      by (simp add: tree_root_unfold(3) sibling_path.simps [of H xs])
  next
    case False
    with less.prems have "length xs = 1" and "i = 0" by auto
    then show ?thesis by (simp add: tree_root_unfold(2) sibling_path.simps)
  qed
qed

section \<open>Only committed leaves verify\<close>

text \<open>The buffers hashed while building a row, the whole tree, and along a proof.\<close>

fun row_buffers :: "H256 list \<Rightarrow> byte list set" where
  "row_buffers (a # b # xs) = insert (combined a b) (row_buffers xs)"
| "row_buffers _ = {}"

function tree_buffers :: "hasher \<Rightarrow> H256 list \<Rightarrow> byte list set" where
  "tree_buffers H xs =
     (if length xs \<ge> 2 then row_buffers xs \<union> tree_buffers H (parent_row H xs) else {})"
  by auto
termination
  by (relation "measure (\<lambda>(H, xs). length xs)") (auto simp: length_parent_row)

declare tree_buffers.simps [simp del]

fun path_buffers :: "hasher \<Rightarrow> H256 \<Rightarrow> H256 list \<Rightarrow> byte list set" where
  "path_buffers H a [] = {}"
| "path_buffers H a (b # bs) = insert (combined a b) (path_buffers H (H (combined a b)) bs)"

function tree_nodes :: "hasher \<Rightarrow> H256 list \<Rightarrow> H256 set" where
  "tree_nodes H xs = set xs \<union> (if length xs \<ge> 2 then tree_nodes H (parent_row H xs) else {})"
  by auto
termination
  by (relation "measure (\<lambda>(H, xs). length xs)") (auto simp: length_parent_row)

declare tree_nodes.simps [simp del]

lemma be_bytes_bit:
  assumes "n < 256"
  shows "bit (be_bytes w ! (31 - n div 8)) (n mod 8) = bit w n"
proof -
  have "31 - (31 - n div 8) = n div 8" and "31 - n div 8 < 32" using assms by auto
  moreover have "8 * (n div 8) + n mod 8 = n" by simp
  ultimately show ?thesis
    by (simp add: be_bytes_def bit_simps)
qed

lemma be_bytes_inject [simp]: "be_bytes a = be_bytes b \<longleftrightarrow> a = b"
proof
  assume "be_bytes a = be_bytes b"
  then have "bit a n = bit b n" if "n < 256" for n
    using be_bytes_bit [OF that] by metis
  then show "a = b" by (intro bit_word_eqI) simp
qed simp

lemma length_be_bytes [simp]: "length (be_bytes a) = 32"
  by (simp add: be_bytes_def)

lemma combined_inject: "combined a b = combined c d \<Longrightarrow> {a, b} = {c, d}"
  by (auto simp: combined_def split: if_splits)

lemma row_buffers_length: "x \<in> row_buffers xs \<Longrightarrow> length x = 64"
  by (induction xs rule: row_buffers.induct) auto

lemma tree_buffers_length: "x \<in> tree_buffers H xs \<Longrightarrow> length x = 64"
proof (induction H xs rule: tree_buffers.induct)
  case (1 H xs)
  then show ?case
    by (subst (asm) (2) tree_buffers.simps) (auto simp: row_buffers_length split: if_splits)
qed

lemma path_buffers_length: "x \<in> path_buffers H a bs \<Longrightarrow> length x = 64"
  by (induction bs arbitrary: a) auto

lemma path_buffers_snoc:
  "path_buffers H a (bs @ [b]) = insert (combined (climb H a bs) b) (path_buffers H a bs)"
  by (induction bs arbitrary: a) auto

lemma parent_row_cases:
  "x \<in> set (parent_row H xs) \<Longrightarrow>
   x \<in> set xs \<or> (\<exists>a\<in>set xs. \<exists>b\<in>set xs. x = H (combined a b) \<and> combined a b \<in> row_buffers xs)"
  by (induction xs rule: induct_list012) auto

lemma tree_nodes_cases:
  "x \<in> tree_nodes H xs \<Longrightarrow> x \<in> set xs \<or>
   (\<exists>a\<in>tree_nodes H xs. \<exists>b\<in>tree_nodes H xs. x = H (combined a b) \<and> combined a b \<in> tree_buffers H xs)"
proof (induction "length xs" arbitrary: xs rule: less_induct)
  case less
  show ?case
  proof (cases "x \<in> set xs")
    case False
    with less.prems have two: "2 \<le> length xs" and x: "x \<in> tree_nodes H (parent_row H xs)"
      by (auto simp: tree_nodes.simps [of H xs] split: if_splits)
    have sub: "tree_nodes H (parent_row H xs) \<union> set xs \<subseteq> tree_nodes H xs"
      and sub': "tree_buffers H (parent_row H xs) \<union> row_buffers xs \<subseteq> tree_buffers H xs"
      using two by (auto simp: tree_nodes.simps [of H xs] tree_buffers.simps [of H xs])
    have "length (parent_row H xs) < length xs" using two by (simp add: length_parent_row)
    from less.hyps [OF this x] parent_row_cases [of x H xs] False sub sub' show ?thesis by blast
  qed simp
qed

lemma tree_root_in_nodes: "xs \<noteq> [] \<Longrightarrow> tree_root H xs \<in> tree_nodes H xs"
proof (induction "length xs" arbitrary: xs rule: less_induct)
  case less
  show ?case
  proof (cases "2 \<le> length xs")
    case True
    then have "length (parent_row H xs) < length xs" by (simp add: length_parent_row)
    then show ?thesis
      using True less by (simp add: tree_root_unfold(3) tree_nodes.simps [of H xs])
  next
    case False
    with less.prems have "length xs = 1" by (cases xs; cases "tl xs") auto
    then show ?thesis by (simp add: tree_root_unfold(2) tree_nodes.simps [of H xs])
  qed
qed

lemma climb_from_node:
  assumes "climb H l path \<in> tree_nodes H xs"
    and "inj_on H (tree_buffers H xs \<union> path_buffers H l path)"
    and "H ` path_buffers H l path \<inter> set xs = {}"
  shows "l \<in> tree_nodes H xs"
  using assms
proof (induction path rule: rev_induct)
  case (snoc b path)
  let ?x = "combined (climb H l path) b"
  have x: "H ?x \<in> tree_nodes H xs" "?x \<in> path_buffers H l (path @ [b])"
    using snoc.prems(1) by (simp_all add: path_buffers_snoc)
  with snoc.prems(3) obtain c d where cd: "c \<in> tree_nodes H xs" "d \<in> tree_nodes H xs"
      "H ?x = H (combined c d)" "combined c d \<in> tree_buffers H xs"
    using tree_nodes_cases [OF x(1)] by blast
  then have "?x = combined c d"
    using snoc.prems(2) x(2) by (auto dest: inj_onD)
  then have "climb H l path \<in> tree_nodes H xs"
    using combined_inject [of _ b c d] cd(1,2) by (metis insertE insertI1 singletonD)
  moreover have "inj_on H (tree_buffers H xs \<union> path_buffers H l path)"
    using snoc.prems(2) by (rule inj_on_subset) (auto simp: path_buffers_snoc)
  moreover have "H ` path_buffers H l path \<inter> set xs = {}"
    using snoc.prems(3) by (auto simp: path_buffers_snoc)
  ultimately show ?case by (rule snoc.IH)
qed simp

section \<open>Properties\<close>

text \<open>A hash function for concrete instances: the length plus the last byte.\<close>

definition toy_hash :: hasher where
  "toy_hash bs = word_of_nat (length bs) + ucast (last bs)"

text \<open>
  C15. The root computed row by row is the root of the reference tree: the loop of \<open>merkelize\<close>
  always returns, the empty list gives the zero hash, one leaf is its own root, and a longer
  list has the root of its parent row.
\<close>

theorem merkle_root_is_tree_root: "merkle_root H leaves = Some (tree_root H leaves)"
  by (simp add: merkle_root_def merkelize_eq)

text \<open>
  Proof round trip: for every list of leaves and every index in range \<open>merkle_proof\<close> returns
  a proof whose root is the root of the leaves, whose leaf is the leaf at the index, and which
  \<open>verify_proof\<close> accepts; an index out of range panics.
\<close>

theorem generated_proof_verifies:
  "\<exists>r. merkle_proof H leaves i = Some r \<and>
     (r = None \<longleftrightarrow> length leaves \<le> i) \<and>
     (case r of None \<Rightarrow> True
      | Some p \<Rightarrow> merkle_root H leaves = Some (mp_root p) \<and> mp_leaf p = leaves ! i \<and>
          verify_proof H (mp_root p) (mp_proof p) (mp_number_of_leaves p) (mp_leaf_index p)
            (Leaf_Hash (mp_leaf p)))"
  by (auto simp: merkle_proof_eq merkle_root_def merkelize_eq verify_proof_def climb_sibling_path)

text \<open>
  C16. Soundness of proofs: if the hash does not collide on the inputs that building the tree and
  checking the proof hash, and neither the committed contents nor the claimed content is
  64 bytes long, then a proof that \<open>verify_proof\<close> accepts against the root of the committed
  contents is for one of these contents.
\<close>

theorem verified_content_is_committed:
  assumes root: "merkle_root H (map H contents) = Some root" and "contents \<noteq> []"
    and accepted: "verify_proof H root path n i (Leaf_Value content)"
    and free: "inj_on H (insert content (set contents) \<union> tree_buffers H (map H contents) \<union>
      path_buffers H (H content) path)"
    and len: "length content \<noteq> 64" "64 \<notin> length ` set contents"
  shows "content \<in> set contents"
proof -
  let ?xs = "map H contents"
  have "tree_root H ?xs = climb H (H content) path"
    using root accepted by (auto simp: merkle_root_def merkelize_eq verify_proof_def split: if_splits)
  then have climbs: "climb H (H content) path \<in> tree_nodes H ?xs"
    using tree_root_in_nodes [of ?xs H] \<open>contents \<noteq> []\<close> by simp
  have differ: "H c \<noteq> H b" if "c \<in> insert content (set contents)"
    "b \<in> tree_buffers H ?xs \<union> path_buffers H (H content) path" for b c
  proof
    assume "H c = H b"
    with free that have "c = b" by (meson UnCI UnE inj_onD)
    with that len show False by (auto dest: tree_buffers_length path_buffers_length)
  qed
  have disj: "H ` path_buffers H (H content) path \<inter> set ?xs = {}"
    using differ by fastforce
  have inj: "inj_on H (tree_buffers H ?xs \<union> path_buffers H (H content) path)"
    using free by (rule inj_on_subset) auto
  have "H content \<in> set ?xs"
    using tree_nodes_cases [OF climb_from_node [OF climbs inj disj]] differ by blast
  then show ?thesis using free by (auto dest: inj_onD)
qed

lemma sample_tree:
  "toy_hash [1] = 2" "toy_hash [2] = 3" "toy_hash (combined 2 3) = 67" "combined 3 2 = combined 2 3"
  by (simp_all add: toy_hash_def combined_def be_bytes_def upt_rec)

theorem verified_content_is_committed_witness:
  "verify_proof toy_hash 67 [2] 2 1 (Leaf_Value [2]) \<and>
   inj_on toy_hash {[2], [1], combined 2 3} \<and> [2] \<in> set [[1], [2 :: byte]]"
proof -
  have buffers: "tree_buffers toy_hash [2, 3] = {combined 2 3}"
    by (subst tree_buffers.simps) (simp add: tree_buffers.simps sample_tree)
  have root: "merkle_root toy_hash [2, 3] = Some 67"
    by (simp add: merkle_root_def merkelize_eq tree_root_unfold(2,3) sample_tree)
  have accepted: "verify_proof toy_hash 67 [2] 2 1 (Leaf_Value [2])"
    by (simp add: verify_proof_def sample_tree)
  have free: "inj_on toy_hash {[2], [1], combined 2 3}"
    by (simp add: inj_on_def sample_tree)
  have "[2] \<in> set [[1], [2 :: byte]]"
    using verified_content_is_committed [of toy_hash "[[1], [2]]" 67 "[2]" 2 1 "[2]"]
      buffers root accepted free
    by (simp add: sample_tree insert_commute)
  with accepted free show ?thesis by simp
qed

end
