(* ===== verification/Outbound_Queue.thy ===== *)
theory Outbound_Queue
  imports Bridge_Types Merkle_Tree
begin

text \<open>
  The outbound queue \<open>pallets/outbound-queue-v2\<close> and the commitment store
  \<open>pallets/outbound-commitment-store\<close>: messages are validated and handed to the message queue,
  come back from it one by one to be given a nonce, a leaf and a pending order, are committed to
  by a Merkle root at the end of the block, and are settled by a delivery receipt from Ethereum.

  The message queue, the codecs, the verifier and the reward ledger are parameters over the
  state \<open>'w\<close> behind the pallet. The lemmas show the invariant of nonces, leaves and orders over
  all interleavings of the operations, that every committed message has a proof against the
  stored root, and that an order is settled at most once.
\<close>

section \<open>State\<close>

record pending_order =
  po_nonce :: nat
  po_block_number :: nat
  po_fee :: nat

datatype oq_event =
    MessageQueued outbound_msg
  | MessageAccepted H256 nat
  | MessagesCommitted H256 nat
  | MessageDeliveryProofReceived nat

datatype oq_error =
    OqBadOrigin
  | InvalidEnvelope
  | OqVerification verification_error
  | OqInvalidGateway
  | InvalidPendingNonce

datatype process_message_error = Yield | Corrupt | Unsupported | Overweight

record ('p, 'w) oq_config =
  oq_Hashing :: hasher
  abi_encode_params :: "command_params \<Rightarrow> byte list"
  abi_encode_message :: "committed_message \<Rightarrow> byte list"
  scale_encode :: "outbound_msg \<Rightarrow> byte list"
  scale_decode :: "byte list \<Rightarrow> outbound_msg option"
  GasMeter :: "command \<Rightarrow> u64"
  MaxMessagePayloadSize :: nat
  MaxMessagesPerBlock :: nat
  MaxMessageLen :: nat
  enqueue_message :: "byte list \<Rightarrow> H256 \<Rightarrow> 'w \<Rightarrow> 'w"
  OnNewCommitment :: "H256 \<Rightarrow> 'w \<Rightarrow> 'w"
  oq_Verifier :: "event_log \<Rightarrow> 'p \<Rightarrow> 'w \<Rightarrow> verification_error option"
  decode_receipt_log :: "H256 list \<Rightarrow> byte list \<Rightarrow> delivery_event option"
  oq_GatewayAddress :: H160
  oq_RewardPayment :: "AccountId \<Rightarrow> nat \<Rightarrow> 'w \<Rightarrow> 'w"

record 'w oq_state =
  Messages :: "committed_message list"
  MessageLeaves :: "H256 list"
  Nonce :: nat
  PendingOrders :: "nat \<rightharpoonup> pending_order"
  oq_block_number :: nat
  oq_digest :: "H256 list"
  oq_events :: "oq_event list"
  oq_world :: 'w

definition oq_deposit :: "oq_event \<Rightarrow> 'w oq_state \<Rightarrow> 'w oq_state" where
  "oq_deposit e s = s\<lparr>oq_events := oq_events s @ [e]\<rparr>"

definition oq_genesis :: "'w \<Rightarrow> 'w oq_state" where
  "oq_genesis w = \<lparr>Messages = [], MessageLeaves = [], Nonce = 0, PendingOrders = Map.empty,
     oq_block_number = 0, oq_digest = [], oq_events = [], oq_world = w\<rparr>"

section \<open>The commitment store\<close>

record commitment_store =
  LatestCommitment :: "H256 option"
  cs_events :: "H256 list"

definition store_commitment :: "H256 \<Rightarrow> commitment_store \<Rightarrow> commitment_store" where
  "store_commitment commitment s =
     s\<lparr>LatestCommitment := Some commitment, cs_events := cs_events s @ [commitment]\<rparr>"

definition get_latest_commitment :: "commitment_store \<Rightarrow> H256 option" where
  "get_latest_commitment s = LatestCommitment s"

text \<open>The runtime's \<open>CommitmentHandler\<close>, over a state that holds the store.\<close>

record 'x store_world =
  sw_store :: commitment_store
  sw_rest :: 'x

definition commitment_handler :: "H256 \<Rightarrow> 'x store_world \<Rightarrow> 'x store_world" where
  "commitment_handler commitment w = w\<lparr>sw_store := store_commitment commitment (sw_store w)\<rparr>"

section \<open>Sending\<close>

definition oq_validate :: "('p, 'w) oq_config \<Rightarrow> outbound_msg \<Rightarrow> send_error + outbound_msg" where
  "oq_validate cfg message =
     (let payload = scale_encode cfg message in
      if length payload < MaxMessagePayloadSize cfg then Inr message else Inl MessageTooLarge)"

definition oq_deliver ::
  "('p, 'w) oq_config \<Rightarrow> outbound_msg \<Rightarrow> 'w oq_state \<Rightarrow> (send_error + H256) \<times> 'w oq_state" where
  "oq_deliver cfg ticket s =
     (let message = scale_encode cfg ticket in
      if length message \<le> MaxMessageLen cfg
      then (Inr (om_id ticket),
            oq_deposit (MessageQueued ticket)
              (s\<lparr>oq_world := enqueue_message cfg message (om_origin ticket) (oq_world s)\<rparr>))
      else (Inl MessageTooLarge, s))"

section \<open>Processing\<close>

definition wrap_command :: "('p, 'w) oq_config \<Rightarrow> command \<Rightarrow> command_wrapper" where
  "wrap_command cfg c =
     \<lparr>cw_kind = command_index c, cw_gas = GasMeter cfg c,
      cw_payload = abi_encode_params cfg (abi_params c)\<rparr>"

definition message_leaf :: "('p, 'w) oq_config \<Rightarrow> committed_message \<Rightarrow> H256" where
  "message_leaf cfg m = oq_Hashing cfg (abi_encode_message cfg m)"

definition do_process_message ::
  "('p, 'w) oq_config \<Rightarrow> byte list \<Rightarrow> 'w oq_state \<Rightarrow> (process_message_error + bool) \<times> 'w oq_state" where
  "do_process_message cfg bytes s =
     (if \<not> length (MessageLeaves s) < MaxMessagesPerBlock cfg then (Inl Yield, s)
      else let nonce = Nonce s in
        case scale_decode cfg bytes of
          None \<Rightarrow> (Inl Corrupt, s)
        | Some m \<Rightarrow>
            let commands = map (wrap_command cfg) (om_commands m) in
            if max_commands < length commands then (Inl Corrupt, s)
            else
              let committed = \<lparr>cm_origin = om_origin m, cm_nonce = nonce, cm_topic = om_id m,
                               cm_commands = commands\<rparr>;
                  s = s\<lparr>Messages := Messages s @ [committed]\<rparr>;
                  s = s\<lparr>MessageLeaves := MessageLeaves s @ [message_leaf cfg committed]\<rparr>;
                  order = \<lparr>po_nonce = nonce, po_block_number = oq_block_number s, po_fee = om_fee m\<rparr>;
                  s = s\<lparr>PendingOrders := (PendingOrders s)(nonce \<mapsto> order)\<rparr>
              in
                if nonce + 1 \<le> u64_max
                then (Inr True, oq_deposit (MessageAccepted (om_id m) nonce) (s\<lparr>Nonce := nonce + 1\<rparr>))
                else (Inl Unsupported, s))"

text \<open>\<open>fits\<close>: whether the weight meter can still consume the weight of one message.\<close>

definition process_message ::
  "('p, 'w) oq_config \<Rightarrow> bool \<Rightarrow> byte list \<Rightarrow> 'w oq_state \<Rightarrow>
     (process_message_error + bool) \<times> 'w oq_state" where
  "process_message cfg fits message s =
     (if \<not> fits then (Inl Overweight, s) else do_process_message cfg message s)"

section \<open>Blocks\<close>

definition oq_on_initialize :: "nat \<Rightarrow> 'w oq_state \<Rightarrow> 'w oq_state" where
  "oq_on_initialize n s = s\<lparr>oq_block_number := n, Messages := [], MessageLeaves := []\<rparr>"

text \<open>\<^term>\<open>None\<close> would be a root computation that does not return.\<close>

definition commit :: "('p, 'w) oq_config \<Rightarrow> 'w oq_state \<Rightarrow> 'w oq_state option" where
  "commit cfg s =
     (let count = length (MessageLeaves s) in
      if count = 0 then Some s
      else
        do { root \<leftarrow> merkle_root (oq_Hashing cfg) (MessageLeaves s);
             let s = s\<lparr>oq_digest := oq_digest s @ [root]\<rparr>;
                 s = s\<lparr>oq_world := OnNewCommitment cfg root (oq_world s)\<rparr>
             in Some (oq_deposit (MessagesCommitted root count) s) })"

definition oq_on_finalize :: "('p, 'w) oq_config \<Rightarrow> 'w oq_state \<Rightarrow> 'w oq_state option" where
  "oq_on_finalize cfg s = commit cfg s"

text \<open>
  The runtime API: a proof for a leaf of the current block. The storage value exists exactly
  when a message was appended in the block.
\<close>

definition prove_message ::
  "('p, 'w) oq_config \<Rightarrow> nat \<Rightarrow> 'w oq_state \<Rightarrow> merkle_proof option option option" where
  "prove_message cfg leaf_index s =
     (if MessageLeaves s = [] then None
      else Some (merkle_proof (oq_Hashing cfg) (MessageLeaves s) leaf_index))"

section \<open>Delivery receipts\<close>

definition process_delivery_receipt ::
  "('p, 'w) oq_config \<Rightarrow> AccountId \<Rightarrow> delivery_receipt \<Rightarrow> 'w oq_state \<Rightarrow> oq_error + 'w oq_state" where
  "process_delivery_receipt cfg relayer receipt s =
     (if oq_GatewayAddress cfg \<noteq> dr_gateway receipt then Inl OqInvalidGateway
      else let nonce = dr_nonce receipt in
        case PendingOrders s nonce of
          None \<Rightarrow> Inl InvalidPendingNonce
        | Some order \<Rightarrow>
            let s = (if 0 < po_fee order
                     then s\<lparr>oq_world := oq_RewardPayment cfg relayer (po_fee order) (oq_world s)\<rparr>
                     else s);
                s = s\<lparr>PendingOrders := (PendingOrders s)(nonce := None)\<rparr>
            in Inr (oq_deposit (MessageDeliveryProofReceived nonce) s))"

definition submit_delivery_receipt ::
  "('p, 'w) oq_config \<Rightarrow> origin \<Rightarrow> 'p event_proof \<Rightarrow> 'w oq_state \<Rightarrow> oq_error + 'w oq_state" where
  "submit_delivery_receipt cfg org event s =
     (case org of
        SignedOrigin relayer \<Rightarrow>
          (case oq_Verifier cfg (ep_event_log event) (ep_proof event) (oq_world s) of
             Some e \<Rightarrow> Inl (OqVerification e)
           | None \<Rightarrow>
               (case delivery_receipt_try_from (decode_receipt_log cfg) (ep_event_log event) of
                  None \<Rightarrow> Inl InvalidEnvelope
                | Some receipt \<Rightarrow> process_delivery_receipt cfg relayer receipt s))
      | _ \<Rightarrow> Inl OqBadOrigin)"

section \<open>The transition system\<close>

text \<open>
  Every operation in any order, with any outcome, and arbitrary changes of the state behind the
  pallet in between.
\<close>

inductive oq_step :: "('p, 'w) oq_config \<Rightarrow> 'w oq_state \<Rightarrow> 'w oq_state \<Rightarrow> bool" for cfg where
  block_start: "oq_step cfg s (oq_on_initialize n s)"
| block_end: "oq_on_finalize cfg s = Some s' \<Longrightarrow> oq_step cfg s s'"
| sent: "oq_deliver cfg ticket s = (r, s') \<Longrightarrow> oq_step cfg s s'"
| processed: "process_message cfg fits bytes s = (r, s') \<Longrightarrow> oq_step cfg s s'"
| receipt: "submit_delivery_receipt cfg org event s = Inr s' \<Longrightarrow> oq_step cfg s s'"
| outside: "oq_step cfg s (s\<lparr>oq_world := w\<rparr>)"

abbreviation oq_steps :: "('p, 'w) oq_config \<Rightarrow> 'w oq_state \<Rightarrow> 'w oq_state \<Rightarrow> bool" where
  "oq_steps cfg \<equiv> (oq_step cfg)\<^sup>*\<^sup>*"

definition oq_inv :: "('p, 'w) oq_config \<Rightarrow> 'w oq_state \<Rightarrow> bool" where
  "oq_inv cfg s \<longleftrightarrow>
     MessageLeaves s = map (message_leaf cfg) (Messages s) \<and>
     length (Messages s) \<le> MaxMessagesPerBlock cfg \<and>
     length (Messages s) \<le> Nonce s \<and>
     map cm_nonce (Messages s) = [Nonce s - length (Messages s) ..< Nonce s] \<and>
     (\<forall>n ord. PendingOrders s n = Some ord \<longrightarrow> n < Nonce s \<and> po_nonce ord = n)"

section \<open>Lemmas\<close>

lemmas oq_defs = oq_deposit_def oq_on_initialize_def Let_def

text \<open>What one step does to the storage of messages, nonce and orders.\<close>

definition oq_core ::
  "'w oq_state \<Rightarrow> committed_message list \<times> H256 list \<times> nat \<times> (nat \<rightharpoonup> pending_order)" where
  "oq_core s = (Messages s, MessageLeaves s, Nonce s, PendingOrders s)"

lemma oq_inv_core: "oq_core s = oq_core s' \<Longrightarrow> oq_inv cfg s = oq_inv cfg s'"
  by (simp add: oq_core_def oq_inv_def)

lemma commit_total:
  "\<exists>s'. commit cfg s = Some s' \<and> oq_core s' = oq_core s"
  by (simp add: commit_def merkle_root_def merkelize_eq oq_defs oq_core_def)

lemma deliver_core: "oq_deliver cfg ticket s = (r, s') \<Longrightarrow> oq_core s' = oq_core s"
  by (auto simp: oq_deliver_def oq_defs oq_core_def split: if_splits)

lemma process_cases:
  assumes "process_message cfg fits bytes s = (r, s')"
  obtains (unchanged) "s' = s" "r \<in> {Inl Overweight, Inl Yield, Inl Corrupt}"
  | (accepted) m ord c where "r = Inr True" "Nonce s < u64_max"
      "length (MessageLeaves s) < MaxMessagesPerBlock cfg" "scale_decode cfg bytes = Some m"
      "c = \<lparr>cm_origin = om_origin m, cm_nonce = Nonce s, cm_topic = om_id m,
            cm_commands = map (wrap_command cfg) (om_commands m)\<rparr>"
      "ord = \<lparr>po_nonce = Nonce s, po_block_number = oq_block_number s, po_fee = om_fee m\<rparr>"
      "oq_core s' = (Messages s @ [c], MessageLeaves s @ [message_leaf cfg c], Nonce s + 1,
         (PendingOrders s)(Nonce s \<mapsto> ord))"
      "oq_events s' = oq_events s @ [MessageAccepted (om_id m) (Nonce s)]" "oq_world s' = oq_world s"
  | (exhausted) ord where "r = Inl Unsupported" "u64_max \<le> Nonce s" "Nonce s' = Nonce s"
      "PendingOrders s' = (PendingOrders s)(Nonce s \<mapsto> ord)"
proof (cases "fits \<and> length (MessageLeaves s) < MaxMessagesPerBlock cfg")
  case False
  then show thesis using assms unchanged
    by (auto simp: process_message_def do_process_message_def split: if_splits)
next
  case True
  show thesis
  proof (cases "scale_decode cfg bytes")
    case None
    with True assms show thesis
      by (intro unchanged) (auto simp: process_message_def do_process_message_def Let_def)
  next
    case (Some m)
    consider "max_commands < length (om_commands m)"
      | "length (om_commands m) \<le> max_commands" "Nonce s < u64_max"
      | "length (om_commands m) \<le> max_commands" "u64_max \<le> Nonce s" by linarith
    then show thesis
    proof cases
      case 1
      with True Some assms show thesis
        by (intro unchanged) (auto simp: process_message_def do_process_message_def Let_def)
    next
      case 2
      with True Some assms show thesis
        by (intro accepted [OF _ _ _ Some refl refl])
          (auto simp: process_message_def do_process_message_def oq_defs oq_core_def)
    next
      case 3
      with True Some assms show thesis
        by (intro exhausted)
          (auto simp: process_message_def do_process_message_def Let_def)
    qed
  qed
qed

lemma receipt_cases:
  assumes "submit_delivery_receipt cfg org event s = Inr s'"
  obtains relayer rc ord where "org = SignedOrigin relayer"
    "delivery_receipt_try_from (decode_receipt_log cfg) (ep_event_log event) = Some rc"
    "PendingOrders s (dr_nonce rc) = Some ord" "dr_gateway rc = oq_GatewayAddress cfg"
    "oq_core s' = (Messages s, MessageLeaves s, Nonce s, (PendingOrders s)(dr_nonce rc := None))"
    "oq_world s' = (if 0 < po_fee ord then oq_RewardPayment cfg relayer (po_fee ord) (oq_world s)
       else oq_world s)"
  using assms
  by (auto simp: submit_delivery_receipt_def process_delivery_receipt_def oq_defs oq_core_def
      split: origin.splits option.splits if_splits)

lemma oq_step_nonce_mono: "oq_step cfg s s' \<Longrightarrow> Nonce s \<le> Nonce s'"
proof (induction rule: oq_step.induct)
  case (block_end s s')
  then show ?case
    using commit_total [of cfg s] by (auto simp: oq_on_finalize_def oq_core_def)
next
  case (sent ticket s r s')
  then show ?case using deliver_core [of cfg ticket s] by (auto simp: oq_core_def)
next
  case (processed fits bytes s r s')
  then show ?case by (rule process_cases) (auto simp: oq_core_def)
next
  case (receipt org event s s')
  then show ?case by (rule receipt_cases) (auto simp: oq_core_def)
qed (auto simp: oq_defs)

lemma oq_step_inv:
  assumes "oq_step cfg s s'" "oq_inv cfg s" "Nonce s' < u64_max"
  shows "oq_inv cfg s'"
  using assms
proof (induction rule: oq_step.induct)
  case (block_end s s')
  then show ?case
    using commit_total [of cfg s] oq_inv_core by (auto simp: oq_on_finalize_def)
next
  case (sent ticket s r s')
  then show ?case using deliver_core [of cfg ticket s] oq_inv_core by blast
next
  case (processed fits bytes s r s')
  from processed(1) show ?case
  proof (cases rule: process_cases)
    case (accepted m ord c)
    have "[Nonce s - length (Messages s) ..< Nonce s] @ [Nonce s] =
        [Nonce s - length (Messages s) ..< Suc (Nonce s)]"
      using processed(2) by (simp add: oq_inv_def)
    with accepted processed(2) show ?thesis
      by (auto simp: oq_inv_def oq_core_def less_Suc_eq)
  qed (use processed in auto)
next
  case (receipt org event s s')
  from receipt(1) show ?case
    by (cases rule: receipt_cases) (use receipt(2) in \<open>auto simp: oq_inv_def oq_core_def\<close>)
qed (auto simp: oq_defs oq_inv_def)

lemma oq_genesis_inv: "oq_inv cfg (oq_genesis w)"
  by (simp add: oq_inv_def oq_genesis_def)

lemma oq_steps_inv:
  assumes "oq_steps cfg s s'" "oq_inv cfg s" "Nonce s' < u64_max"
  shows "oq_inv cfg s'"
  using assms
proof (induction rule: rtranclp_induct)
  case (step y z)
  then show ?case using oq_step_nonce_mono [of cfg y z] oq_step_inv [of cfg y z] by simp
qed simp

text \<open>An order that was settled: its nonce was used and the order is gone.\<close>

definition settled :: "nat \<Rightarrow> 'w oq_state \<Rightarrow> bool" where
  "settled n s \<longleftrightarrow> n < Nonce s \<and> PendingOrders s n = None"

lemma settled_step: "oq_step cfg s s' \<Longrightarrow> settled n s \<Longrightarrow> settled n s'"
proof (induction rule: oq_step.induct)
  case (block_end s s')
  then show ?case
    using commit_total [of cfg s] by (auto simp: oq_on_finalize_def oq_core_def settled_def)
next
  case (sent ticket s r s')
  then show ?case using deliver_core [of cfg ticket s] by (auto simp: oq_core_def settled_def)
next
  case (processed fits bytes s r s')
  from processed(1) show ?case
    by (cases rule: process_cases) (use processed(2) in \<open>auto simp: oq_core_def settled_def\<close>)
next
  case (receipt org event s s')
  from receipt(1) show ?case
    by (cases rule: receipt_cases) (use receipt(2) in \<open>auto simp: oq_core_def settled_def\<close>)
qed (auto simp: oq_defs settled_def)

lemma settled_steps: "oq_steps cfg s s' \<Longrightarrow> settled n s \<Longrightarrow> settled n s'"
  by (induction rule: rtranclp_induct) (auto intro: settled_step)

section \<open>Sample configuration\<close>

text \<open>
  A concrete configuration over the commitment store: messages are encoded by the low byte of
  their id, proofs are the unit value and always verify, a receipt log's first topic is the nonce.
\<close>

definition sample_oq :: "(unit, nat store_world) oq_config" where
  "sample_oq =
     \<lparr>oq_Hashing = toy_hash, abi_encode_params = (\<lambda>_. []),
      abi_encode_message = (\<lambda>m. [word_of_nat (cm_nonce m)]),
      scale_encode = (\<lambda>m. [ucast (om_id m)]),
      scale_decode = (\<lambda>bs. case bs of [] \<Rightarrow> None
        | b # _ \<Rightarrow> Some \<lparr>om_origin = 0, om_id = ucast b, om_fee = 5, om_commands = []\<rparr>),
      GasMeter = constant_gas_meter, MaxMessagePayloadSize = 2048, MaxMessagesPerBlock = 32,
      MaxMessageLen = 32768, enqueue_message = (\<lambda>_ _ w. w), OnNewCommitment = commitment_handler,
      oq_Verifier = (\<lambda>_ _ _. None),
      decode_receipt_log = (\<lambda>ts _. case ts of [] \<Rightarrow> None
        | t # _ \<Rightarrow> Some \<lparr>de_nonce = unat t, de_topic = 0, de_success = True, de_reward_address = 0\<rparr>),
      oq_GatewayAddress = 7, oq_RewardPayment = (\<lambda>_ fee w. w\<lparr>sw_rest := sw_rest w + fee\<rparr>)\<rparr>"

definition sample_world :: "nat store_world" where
  "sample_world = \<lparr>sw_store = \<lparr>LatestCommitment = None, cs_events = []\<rparr>, sw_rest = 0\<rparr>"

definition sample_accepted :: "nat store_world oq_state" where
  "sample_accepted = snd (process_message sample_oq True [9] (oq_genesis sample_world))"

definition sample_receipt :: "unit event_proof" where
  "sample_receipt = \<lparr>ep_event_log = \<lparr>log_address = 7, log_topics = [0], log_data = []\<rparr>, ep_proof = ()\<rparr>"

definition sample_settled :: "nat store_world oq_state" where
  "sample_settled = projr (submit_delivery_receipt sample_oq (SignedOrigin 1) sample_receipt sample_accepted)"

lemmas sample_oq_defs = sample_oq_def sample_world_def sample_accepted_def sample_receipt_def
  sample_settled_def process_message_def do_process_message_def oq_genesis_def oq_defs
  submit_delivery_receipt_def process_delivery_receipt_def delivery_receipt_try_from_def
  u64_max_def max_commands_def message_leaf_def toy_hash_def

lemma sample_accepted_steps: "oq_steps sample_oq (oq_genesis sample_world) sample_accepted"
  unfolding sample_accepted_def by (rule r_into_rtranclp, rule oq_step.processed) (rule prod.collapse [symmetric])

lemma sample_settled_ok:
  "submit_delivery_receipt sample_oq (SignedOrigin 1) sample_receipt sample_accepted = Inr sample_settled"
  by (simp add: sample_oq_defs)

lemma sample_accepted_nonce: "Nonce sample_accepted = 1" "length (Messages sample_accepted) = 1"
  by (simp_all add: sample_oq_defs)

section \<open>Properties\<close>

text \<open>
  C23. Invariant of the outbound queue over every interleaving of blocks, deliveries, processed
  messages and receipts, with every outcome: until the 64-bit nonce is used up, the leaves are
  the hashes of the messages of the block, there are at most \<open>MaxMessagesPerBlock\<close> of them, they
  carry consecutive nonces ending at the counter, and each pending order is stored under its own,
  already assigned nonce.
\<close>

theorem outbound_queue_invariant:
  assumes "oq_steps cfg (oq_genesis w) s" and "Nonce s < u64_max"
  shows "oq_inv cfg s"
  using oq_steps_inv [OF assms(1) oq_genesis_inv assms(2)] .

theorem outbound_queue_invariant_witness:
  "oq_inv sample_oq sample_accepted \<and> length (Messages sample_accepted) = 1"
  using outbound_queue_invariant [OF sample_accepted_steps] sample_accepted_nonce
  by (simp add: u64_max_def)

text \<open>
  C8. Every message of a block can be proved to Ethereum: the end of the block returns, deposits
  one Merkle root in the digest and makes it the latest commitment, and for each message of the
  block \<open>prove_message\<close> gives a proof that verifies against this root for the ABI encoding of the
  message.
\<close>

theorem committed_messages_provable:
  assumes "oq_inv cfg s" and "i < length (Messages s)" and "OnNewCommitment cfg = commitment_handler"
  shows "\<exists>root s' p. oq_on_finalize cfg s = Some s' \<and> oq_digest s' = oq_digest s @ [root] \<and>
    get_latest_commitment (sw_store (oq_world s')) = Some root \<and>
    prove_message cfg i s' = Some (Some (Some p)) \<and>
    verify_proof (oq_Hashing cfg) root (mp_proof p) (mp_number_of_leaves p) i
      (Leaf_Value (abi_encode_message cfg (Messages s ! i)))"
proof -
  have leaves: "MessageLeaves s = map (message_leaf cfg) (Messages s)" "Messages s \<noteq> []"
    using assms(1,2) by (auto simp: oq_inv_def)
  have "climb (oq_Hashing cfg) (message_leaf cfg (Messages s ! i))
      (sibling_path (oq_Hashing cfg) (MessageLeaves s) i) = tree_root (oq_Hashing cfg) (MessageLeaves s)"
    using climb_sibling_path [of i "MessageLeaves s" "oq_Hashing cfg"] assms(2) leaves(1) by simp
  then show ?thesis
    using assms(2,3) leaves
    by (auto simp: oq_on_finalize_def commit_def merkle_root_def merkelize_eq oq_defs
        commitment_handler_def get_latest_commitment_def store_commitment_def prove_message_def
        merkle_proof_eq verify_proof_def message_leaf_def)
qed

theorem committed_messages_provable_witness:
  "\<exists>root s' p. oq_on_finalize sample_oq sample_accepted = Some s' \<and> oq_digest s' = [root] \<and>
    get_latest_commitment (sw_store (oq_world s')) = Some root \<and>
    prove_message sample_oq 0 s' = Some (Some (Some p)) \<and>
    verify_proof toy_hash root (mp_proof p) (mp_number_of_leaves p) 0 (Leaf_Value [0])"
proof -
  have inv: "oq_inv sample_oq sample_accepted"
    using oq_steps_inv [OF sample_accepted_steps oq_genesis_inv] sample_accepted_nonce
    by (simp add: u64_max_def)
  have "oq_digest sample_accepted = []" "Messages sample_accepted ! 0 =
      \<lparr>cm_origin = 0, cm_nonce = 0, cm_topic = 9, cm_commands = []\<rparr>"
    by (simp_all add: sample_oq_defs)
  then show ?thesis
    using committed_messages_provable [OF inv, of 0] sample_accepted_nonce by (simp add: sample_oq_def)
qed

text \<open>
  C24. The fee of a message is paid at most once: after a delivery receipt for a nonce was
  accepted, a receipt for the same nonce is refused as an invalid pending nonce, whatever
  operations happen in between.
\<close>

theorem order_settled_once:
  assumes "oq_inv cfg s" and "submit_delivery_receipt cfg org event s = Inr s1"
    and "delivery_receipt_try_from (decode_receipt_log cfg) (ep_event_log event) = Some rc"
    and "oq_steps cfg s1 s2"
    and "dr_nonce rc' = dr_nonce rc" and "dr_gateway rc' = oq_GatewayAddress cfg"
  shows "process_delivery_receipt cfg relayer rc' s2 = Inl InvalidPendingNonce"
proof -
  have "settled (dr_nonce rc) s1"
    by (rule receipt_cases [OF assms(2)])
      (use assms(1,3) in \<open>auto simp: settled_def oq_core_def oq_inv_def\<close>)
  with assms(4) have "settled (dr_nonce rc) s2" by (rule settled_steps)
  then show ?thesis using assms(5,6) by (simp add: process_delivery_receipt_def settled_def)
qed

theorem order_settled_once_witness:
  "submit_delivery_receipt sample_oq (SignedOrigin 1) sample_receipt sample_accepted = Inr sample_settled \<and>
   sw_rest (oq_world sample_settled) = 5 \<and>
   process_delivery_receipt sample_oq 2
     \<lparr>dr_gateway = 7, dr_nonce = 0, dr_topic = 0, dr_success = True, dr_reward_address = 0\<rparr>
     (oq_on_initialize 4 sample_settled) = Inl InvalidPendingNonce"
proof -
  let ?rc = "\<lparr>dr_gateway = 7, dr_nonce = 0, dr_topic = 0, dr_success = True, dr_reward_address = 0\<rparr>"
  have inv: "oq_inv sample_oq sample_accepted"
    using oq_steps_inv [OF sample_accepted_steps oq_genesis_inv] sample_accepted_nonce
    by (simp add: u64_max_def)
  have rc: "delivery_receipt_try_from (decode_receipt_log sample_oq) (ep_event_log sample_receipt) = Some ?rc"
    by (simp add: sample_oq_defs)
  have "oq_steps sample_oq sample_settled (oq_on_initialize 4 sample_settled)"
    by (rule r_into_rtranclp, rule oq_step.block_start)
  from order_settled_once [OF inv sample_settled_ok rc this, of ?rc 2] sample_settled_ok
  show ?thesis by (simp add: sample_oq_defs)
qed

text \<open>
  Round trip through the message queue: a message that passes \<open>validate\<close> and that decodes from
  its own encoding is, when the queue hands back its bytes in a block with room left, accepted
  under the next nonce; the committed message keeps its origin, id and commands in order, and its
  fee becomes the pending order of that nonce.
\<close>

theorem validated_message_is_committed:
  assumes "oq_validate cfg m = Inr t" and "scale_decode cfg (scale_encode cfg m) = Some m"
    and "length (om_commands m) \<le> max_commands"
    and "length (MessageLeaves s) < MaxMessagesPerBlock cfg" and "Nonce s < u64_max"
  shows "\<exists>s'. process_message cfg True (scale_encode cfg t) s = (Inr True, s') \<and>
    Messages s' = Messages s @ [\<lparr>cm_origin = om_origin m, cm_nonce = Nonce s, cm_topic = om_id m,
      cm_commands = map (wrap_command cfg) (om_commands m)\<rparr>] \<and>
    Nonce s' = Nonce s + 1 \<and>
    map_option po_fee (PendingOrders s' (Nonce s)) = Some (om_fee m) \<and>
    oq_events s' = oq_events s @ [MessageAccepted (om_id m) (Nonce s)]"
  using assms
  by (auto simp: oq_validate_def process_message_def do_process_message_def oq_defs split: if_splits)

theorem validated_message_is_committed_witness:
  "\<exists>s'. process_message sample_oq True [9] (oq_genesis sample_world) = (Inr True, s') \<and>
    Nonce s' = 1 \<and> map_option po_fee (PendingOrders s' 0) = Some 5 \<and>
    oq_events s' = [MessageAccepted 9 0]"
  using validated_message_is_committed [of sample_oq
      "\<lparr>om_origin = 0, om_id = 9, om_fee = 5, om_commands = []\<rparr>"
      "\<lparr>om_origin = 0, om_id = 9, om_fee = 5, om_commands = []\<rparr>" "oq_genesis sample_world"]
  by (auto simp: oq_validate_def sample_oq_def oq_genesis_def u64_max_def)

end
