(* ===== verification/External_Validators.thy ===== *)
theory External_Validators
  imports DH_Prelude
begin

text \<open>
  The external-validators pallet (\<open>operator/pallets/external-validators/src/lib.rs\<close>): the whitelisted
  and the bridged validator sets, the planning and starting of eras on session boundaries, and the
  acceptance rule for validator sets that arrive over the bridge. The pallet's storage items are the
  fields of \<open>ev_state\<close>; a dispatchable returns an error or the new storage (a failed call leaves the
  storage as it was); the \<open>OnEraStart\<close> and \<open>OnEraEnd\<close> hooks are parameters that act on the state \<open>'w\<close>
  of the pallets behind them.
\<close>

section \<open>Data\<close>

record active_era_info =
  ae_index :: EraIndex
  ae_start :: "nat option"

datatype forcing = NotForcing | ForceNew | ForceNone | ForceAlways

datatype ev_event =
    WhitelistedValidatorAdded AccountId
  | WhitelistedValidatorRemoved AccountId
  | NewEra EraIndex
  | ForceEraSet forcing
  | ExternalValidatorsSet "AccountId list" nat

datatype ev_error =
    BadOrigin
  | TooManyWhitelisted
  | AlreadyWhitelisted
  | NotWhitelisted
  | NoKeysRegistered
  | UnableToDeriveValidatorId
  | TargetEraTooOld
  | TargetEraTooNew
  | DuplicateOrStaleTargetEra

text \<open>The pallet's \<open>Config\<close>: constants, origins and the key registry it queries.\<close>

record ev_config =
  HistoryDepth :: nat
  MaxWhitelistedValidators :: nat
  MaxExternalValidators :: nat
  SessionsPerEra :: nat
  AuthorizedOrigin :: H160
  UpdateOrigin :: "origin \<Rightarrow> bool"
  ValidatorIdOf :: "AccountId \<Rightarrow> AccountId option"
  is_registered :: "AccountId \<Rightarrow> bool"

record ev_state =
  WhitelistedValidators :: "AccountId list"
  WhitelistedValidatorsActiveEra :: "AccountId list"
  WhitelistedValidatorsActiveEraPending :: "AccountId list"
  ExternalValidators :: "AccountId list"
  SkipExternalValidators :: bool
  CurrentEra :: "EraIndex option"
  ActiveEra :: "active_era_info option"
  ErasStartSessionIndex :: "EraIndex \<rightharpoonup> SessionIndex"
  ForceEra :: forcing
  ExternalIndex :: nat
  PendingExternalIndex :: nat
  CurrentExternalIndex :: nat
  ev_events :: "ev_event list"

definition ev_deposit :: "ev_event \<Rightarrow> ev_state \<Rightarrow> ev_state" where
  "ev_deposit e s = s\<lparr>ev_events := ev_events s @ [e]\<rparr>"

record ev_genesis_config =
  g_skip_external_validators :: bool
  g_whitelisted_validators :: "AccountId list"
  g_external_validators :: "AccountId list"

text \<open>Genesis: \<open>None\<close> where the assertions of \<open>build\<close> fail.\<close>

definition ev_empty :: ev_state where
  "ev_empty = \<lparr>WhitelistedValidators = [], WhitelistedValidatorsActiveEra = [],
     WhitelistedValidatorsActiveEraPending = [], ExternalValidators = [], SkipExternalValidators = False,
     CurrentEra = None, ActiveEra = None, ErasStartSessionIndex = Map.empty, ForceEra = NotForcing,
     ExternalIndex = 0, PendingExternalIndex = 0, CurrentExternalIndex = 0, ev_events = []\<rparr>"

definition ev_build :: "ev_config \<Rightarrow> ev_genesis_config \<Rightarrow> ev_state option" where
  "ev_build cfg g =
     (let wl = g_whitelisted_validators g; ext = g_external_validators g in
      if card (set wl) \<noteq> length wl then None
      else if MaxWhitelistedValidators cfg < length wl then None
      else if MaxExternalValidators cfg < length ext then None
      else Some (ev_empty\<lparr>SkipExternalValidators := g_skip_external_validators g,
        WhitelistedValidators := wl, WhitelistedValidatorsActiveEra := wl,
        WhitelistedValidatorsActiveEraPending := wl, ExternalValidators := ext\<rparr>))"

section \<open>Calls\<close>

definition skip_external_validators :: "ev_config \<Rightarrow> origin \<Rightarrow> bool \<Rightarrow> ev_state \<Rightarrow> ev_error + ev_state" where
  "skip_external_validators cfg og skip s =
     (if \<not> UpdateOrigin cfg og then Inl BadOrigin
      else Inr (s\<lparr>SkipExternalValidators := skip\<rparr>))"

definition add_whitelisted :: "ev_config \<Rightarrow> origin \<Rightarrow> AccountId \<Rightarrow> ev_state \<Rightarrow> ev_error + ev_state" where
  "add_whitelisted cfg og who s =
     (if \<not> UpdateOrigin cfg og then Inl BadOrigin
      else (case (case ValidatorIdOf cfg who of Some v \<Rightarrow> if is_registered cfg v then Some v else None | None \<Rightarrow> None) of
              None \<Rightarrow> Inl NoKeysRegistered
            | Some validator_id \<Rightarrow>
                if validator_id \<in> set (WhitelistedValidators s) then Inl AlreadyWhitelisted
                else if MaxWhitelistedValidators cfg \<le> length (WhitelistedValidators s) then Inl TooManyWhitelisted
                else Inr (ev_deposit (WhitelistedValidatorAdded who)
                       (s\<lparr>WhitelistedValidators := WhitelistedValidators s @ [validator_id]\<rparr>))))"

definition remove_whitelisted :: "ev_config \<Rightarrow> origin \<Rightarrow> AccountId \<Rightarrow> ev_state \<Rightarrow> ev_error + ev_state" where
  "remove_whitelisted cfg og who s =
     (if \<not> UpdateOrigin cfg og then Inl BadOrigin
      else (case ValidatorIdOf cfg who of
              None \<Rightarrow> Inl UnableToDeriveValidatorId
            | Some validator_id \<Rightarrow>
                if validator_id \<notin> set (WhitelistedValidators s) then Inl NotWhitelisted
                else Inr (ev_deposit (WhitelistedValidatorRemoved who)
                       (s\<lparr>WhitelistedValidators := remove1 validator_id (WhitelistedValidators s)\<rparr>))))"

definition set_force_era :: "forcing \<Rightarrow> ev_state \<Rightarrow> ev_state" where
  "set_force_era mode s = ev_deposit (ForceEraSet mode) (s\<lparr>ForceEra := mode\<rparr>)"

definition force_era :: "ev_config \<Rightarrow> origin \<Rightarrow> forcing \<Rightarrow> ev_state \<Rightarrow> ev_error + ev_state" where
  "force_era cfg og mode s =
     (if \<not> UpdateOrigin cfg og then Inl BadOrigin else Inr (set_force_era mode s))"

text \<open>The active era's index as \<open>u64\<close>; adding one to a \<open>u32\<close> value cannot overflow there.\<close>

definition validate_target_era :: "nat \<Rightarrow> ev_state \<Rightarrow> ev_error + unit" where
  "validate_target_era target_era s =
     (let active_era_index = (case ActiveEra s of Some info \<Rightarrow> ae_index info | None \<Rightarrow> 0) in
      if target_era \<le> active_era_index then Inl TargetEraTooOld
      else if active_era_index + 1 < target_era then Inl TargetEraTooNew
      else if target_era \<le> ExternalIndex s then Inl DuplicateOrStaleTargetEra
      else Inr ())"

definition set_external_validators_inner ::
  "ev_config \<Rightarrow> AccountId list \<Rightarrow> nat \<Rightarrow> ev_state \<Rightarrow> ev_error + ev_state" where
  "set_external_validators_inner cfg validators external_index s =
     (case validate_target_era external_index s of
        Inl e \<Rightarrow> Inl e
      | Inr _ \<Rightarrow>
          (let validators = take (MaxExternalValidators cfg) validators in
           Inr (ev_deposit (ExternalValidatorsSet validators external_index)
                  (s\<lparr>ExternalValidators := validators, ExternalIndex := external_index\<rparr>))))"

definition set_external_validators ::
  "ev_config \<Rightarrow> origin \<Rightarrow> AccountId list \<Rightarrow> nat \<Rightarrow> ev_state \<Rightarrow> ev_error + ev_state" where
  "set_external_validators cfg og validators external_index s =
     (if \<not> UpdateOrigin cfg og then Inl BadOrigin
      else set_external_validators_inner cfg validators external_index s)"

section \<open>The validator list\<close>

fun remove_duplicates_from :: "'a set \<Rightarrow> 'a list \<Rightarrow> 'a list" where
  "remove_duplicates_from seen [] = []"
| "remove_duplicates_from seen (item # rest) =
     (if item \<in> seen then remove_duplicates_from seen rest
      else item # remove_duplicates_from (insert item seen) rest)"

definition remove_duplicates :: "'a list \<Rightarrow> 'a list" where
  "remove_duplicates input = remove_duplicates_from {} input"

definition validators :: "ev_state \<Rightarrow> AccountId list" where
  "validators s =
     remove_duplicates (WhitelistedValidators s @ (if SkipExternalValidators s then [] else ExternalValidators s))"

section \<open>Eras\<close>

definition clear_era_information :: "EraIndex \<Rightarrow> ev_state \<Rightarrow> ev_state" where
  "clear_era_information era s = s\<lparr>ErasStartSessionIndex := (ErasStartSessionIndex s)(era := None)\<rparr>"

definition trigger_new_era :: "ev_config \<Rightarrow> SessionIndex \<Rightarrow> ev_state \<Rightarrow> AccountId list \<times> ev_state" where
  "trigger_new_era cfg start_session_index s =
     (let new_planned_era = (case CurrentEra s of Some c \<Rightarrow> sat_add32 c 1 | None \<Rightarrow> 0);
          s = s\<lparr>CurrentEra := Some new_planned_era,
                ErasStartSessionIndex := (ErasStartSessionIndex s)(new_planned_era \<mapsto> start_session_index)\<rparr>;
          s = (case checked_sub new_planned_era (sat_add32 (HistoryDepth cfg) 1) of
                 Some old_era \<Rightarrow> clear_era_information old_era s
               | None \<Rightarrow> s);
          s = s\<lparr>WhitelistedValidatorsActiveEraPending := WhitelistedValidators s\<rparr>;
          s = s\<lparr>PendingExternalIndex := ExternalIndex s\<rparr>
      in (validators s, s))"

definition try_trigger_new_era ::
  "ev_config \<Rightarrow> SessionIndex \<Rightarrow> ev_state \<Rightarrow> AccountId list option \<times> ev_state" where
  "try_trigger_new_era cfg start_session_index s =
     (let (vs, s) = trigger_new_era cfg start_session_index s in (Some vs, s))"

definition new_session :: "ev_config \<Rightarrow> SessionIndex \<Rightarrow> ev_state \<Rightarrow> AccountId list option \<times> ev_state" where
  "new_session cfg session_index s =
     (case CurrentEra s of
        Some current_era \<Rightarrow>
          (let current_era_start_session_index =
                 (case ErasStartSessionIndex s current_era of Some i \<Rightarrow> i | None \<Rightarrow> 0);
               era_length = sat_sub session_index current_era_start_session_index in
           if ForceEra s = ForceNew \<or> ForceEra s = ForceAlways \<or>
              (ForceEra s = NotForcing \<and> SessionsPerEra cfg \<le> era_length)
           then (let (vs, s) = try_trigger_new_era cfg session_index s in
                 if vs \<noteq> None \<and> ForceEra s = ForceNew then (vs, set_force_era NotForcing s) else (vs, s))
           else (None, s))
      | None \<Rightarrow> try_trigger_new_era cfg session_index s)"

type_synonym 'w on_era_start = "ev_state \<Rightarrow> EraIndex \<Rightarrow> SessionIndex \<Rightarrow> nat \<Rightarrow> 'w \<Rightarrow> 'w"
type_synonym 'w on_era_end = "ev_state \<Rightarrow> EraIndex \<Rightarrow> 'w \<Rightarrow> 'w"

definition start_era :: "'w on_era_start \<Rightarrow> SessionIndex \<Rightarrow> ev_state \<times> 'w \<Rightarrow> ev_state \<times> 'w" where
  "start_era hook start_session sw =
     (let (s, w) = sw;
          new_index = (case ActiveEra s of Some info \<Rightarrow> sat_add32 (ae_index info) 1 | None \<Rightarrow> 0);
          s = s\<lparr>ActiveEra := Some \<lparr>ae_index = new_index, ae_start = None\<rparr>\<rparr>;
          s = s\<lparr>WhitelistedValidatorsActiveEra := WhitelistedValidatorsActiveEraPending s,
                WhitelistedValidatorsActiveEraPending := []\<rparr>;
          external_idx = PendingExternalIndex s;
          s = s\<lparr>PendingExternalIndex := 0, CurrentExternalIndex := external_idx\<rparr>;
          s = ev_deposit (NewEra new_index) s
      in (s, hook s new_index start_session external_idx w))"

definition start_session :: "'w on_era_start \<Rightarrow> SessionIndex \<Rightarrow> ev_state \<times> 'w \<Rightarrow> ev_state \<times> 'w" where
  "start_session hook start_session_index sw =
     (let s = fst sw;
          next_active_era = (case ActiveEra s of Some info \<Rightarrow> sat_add32 (ae_index info) 1 | None \<Rightarrow> 0) in
      case ErasStartSessionIndex s next_active_era of
        None \<Rightarrow> sw
      | Some next_start \<Rightarrow>
          if next_start = start_session_index then start_era hook start_session_index sw
          else if next_start < start_session_index then start_era hook start_session_index sw
          else sw)"

definition end_era :: "'w on_era_end \<Rightarrow> active_era_info \<Rightarrow> SessionIndex \<Rightarrow> ev_state \<times> 'w \<Rightarrow> ev_state \<times> 'w" where
  "end_era hook active_era session_index sw = (fst sw, hook (fst sw) (ae_index active_era) (snd sw))"

definition end_session :: "'w on_era_end \<Rightarrow> SessionIndex \<Rightarrow> ev_state \<times> 'w \<Rightarrow> ev_state \<times> 'w" where
  "end_session hook session_index sw =
     (case ActiveEra (fst sw) of
        None \<Rightarrow> sw
      | Some active_era \<Rightarrow>
          (case ErasStartSessionIndex (fst sw) (sat_add32 (ae_index active_era) 1) of
             None \<Rightarrow> sw
           | Some next_start \<Rightarrow>
               if next_start = sat_add32 session_index 1 then end_era hook active_era session_index sw else sw))"

text \<open>\<open>saturated_into::<u64>\<close> of the time in milliseconds.\<close>

definition ev_on_finalize :: "nat \<Rightarrow> ev_state \<Rightarrow> ev_state" where
  "ev_on_finalize now_millis s =
     (case ActiveEra s of
        Some active_era \<Rightarrow>
          if ae_start active_era = None
          then s\<lparr>ActiveEra := Some (active_era\<lparr>ae_start := Some (min now_millis u64_max)\<rparr>)\<rparr>
          else s
      | None \<Rightarrow> s)"

text \<open>What the other pallets read: the era index provider, the invulnerables, the external index.\<close>

definition ev_active_era :: "ev_state \<Rightarrow> active_era_info" where
  "ev_active_era s = (case ActiveEra s of Some info \<Rightarrow> info | None \<Rightarrow> \<lparr>ae_index = 0, ae_start = None\<rparr>)"

definition era_to_session_start :: "ev_state \<Rightarrow> EraIndex \<Rightarrow> SessionIndex option" where
  "era_to_session_start s era = ErasStartSessionIndex s era"

definition invulnerables :: "ev_state \<Rightarrow> AccountId list" where
  "invulnerables s = WhitelistedValidators s"

definition get_external_index :: "ev_state \<Rightarrow> nat" where
  "get_external_index s = CurrentExternalIndex s"

section \<open>The validator list: first occurrences, in order\<close>

lemma set_remove_duplicates_from: "set (remove_duplicates_from seen xs) = set xs - seen"
  by (induction seen xs rule: remove_duplicates_from.induct) auto

lemma distinct_remove_duplicates_from: "distinct (remove_duplicates_from seen xs)"
  by (induction seen xs rule: remove_duplicates_from.induct) (auto simp: set_remove_duplicates_from)

lemma remove_duplicates_from_eq:
  "remove_duplicates_from seen xs = rev (remdups (rev (filter (\<lambda>x. x \<notin> seen) xs)))"
proof (induction seen xs rule: remove_duplicates_from.induct)
  case (2 seen x xs)
  have dup: "rev (remdups (rev (x # ys))) = x # rev (remdups (rev (filter (\<lambda>y. y \<noteq> x) ys)))"
    for x :: 'a and ys
  proof (induction ys rule: rev_induct)
    case (snoc y ys)
    then show ?case by auto
  qed simp
  show ?case
  proof (cases "x \<in> seen")
    case False
    have "filter (\<lambda>y. y \<notin> insert x seen) xs = filter (\<lambda>y. y \<noteq> x) (filter (\<lambda>y. y \<notin> seen) xs)"
      by (simp add: conj_commute)
    then show ?thesis using 2(2) [OF False] False dup [of x "filter (\<lambda>y. y \<notin> seen) xs"] by simp
  qed (use 2 in simp)
qed simp

section \<open>Planning and starting eras\<close>

text \<open>The shape of the storage after an era has been planned, away from the saturation bound.\<close>

definition pruned :: "nat \<Rightarrow> EraIndex \<Rightarrow> (EraIndex \<rightharpoonup> SessionIndex) \<Rightarrow> (EraIndex \<rightharpoonup> SessionIndex)" where
  "pruned depth c m = (if depth + 1 \<le> c then m(c - (depth + 1) := None) else m)"

definition plan_era :: "ev_config \<Rightarrow> EraIndex \<Rightarrow> SessionIndex \<Rightarrow> ev_state \<Rightarrow> ev_state" where
  "plan_era cfg c start s = s\<lparr>CurrentEra := Some c,
     ErasStartSessionIndex := pruned (HistoryDepth cfg) c ((ErasStartSessionIndex s)(c \<mapsto> start)),
     WhitelistedValidatorsActiveEraPending := WhitelistedValidators s,
     PendingExternalIndex := ExternalIndex s\<rparr>"

lemma trigger_new_era_plan:
  assumes "c = (case CurrentEra s of Some c \<Rightarrow> c + 1 | None \<Rightarrow> 0)" "c < u32_max"
  shows "trigger_new_era cfg start s = (validators s, plan_era cfg c start s)"
proof -
  have c: "(case CurrentEra s of Some c \<Rightarrow> sat_add32 c 1 | None \<Rightarrow> 0) = c"
    using assms by (auto simp: sat_add_def split: option.splits)
  have "checked_sub c (sat_add32 (HistoryDepth cfg) 1) = (if HistoryDepth cfg + 1 \<le> c then Some (c - (HistoryDepth cfg + 1)) else None)"
    using assms(2) by (auto simp: checked_sub_def sat_add_def)
  then show ?thesis
    by (auto simp: trigger_new_era_def c Let_def plan_era_def pruned_def clear_era_information_def validators_def)
qed

lemma plan_era_simps [simp]:
  "CurrentEra (plan_era cfg c st s) = Some c"
  "ActiveEra (plan_era cfg c st s) = ActiveEra s"
  "ErasStartSessionIndex (plan_era cfg c st s) = pruned (HistoryDepth cfg) c ((ErasStartSessionIndex s)(c \<mapsto> st))"
  "ExternalIndex (plan_era cfg c st s) = ExternalIndex s"
  "PendingExternalIndex (plan_era cfg c st s) = ExternalIndex s"
  "CurrentExternalIndex (plan_era cfg c st s) = CurrentExternalIndex s"
  "ForceEra (plan_era cfg c st s) = ForceEra s"
  "ExternalValidators (plan_era cfg c st s) = ExternalValidators s"
  "WhitelistedValidators (plan_era cfg c st s) = WhitelistedValidators s"
  by (simp_all add: plan_era_def)

lemma set_force_era_simps [simp]:
  "CurrentEra (set_force_era m s) = CurrentEra s"
  "ActiveEra (set_force_era m s) = ActiveEra s"
  "ErasStartSessionIndex (set_force_era m s) = ErasStartSessionIndex s"
  "ExternalIndex (set_force_era m s) = ExternalIndex s"
  "PendingExternalIndex (set_force_era m s) = PendingExternalIndex s"
  "CurrentExternalIndex (set_force_era m s) = CurrentExternalIndex s"
  "ForceEra (set_force_era m s) = m"
  "ExternalValidators (set_force_era m s) = ExternalValidators s"
  "WhitelistedValidators (set_force_era m s) = WhitelistedValidators s"
  by (simp_all add: set_force_era_def ev_deposit_def)

text \<open>When a session plans an era: forced, or the current era has run its number of sessions.\<close>

definition era_due :: "ev_config \<Rightarrow> SessionIndex \<Rightarrow> ev_state \<Rightarrow> bool" where
  "era_due cfg session_index s \<longleftrightarrow>
     (case CurrentEra s of
        None \<Rightarrow> True
      | Some c \<Rightarrow> ForceEra s = ForceNew \<or> ForceEra s = ForceAlways \<or>
          (ForceEra s = NotForcing \<and>
           SessionsPerEra cfg \<le> session_index - (case ErasStartSessionIndex s c of Some i \<Rightarrow> i | None \<Rightarrow> 0)))"

lemma new_session_eq:
  assumes "c = (case CurrentEra s of Some c \<Rightarrow> c + 1 | None \<Rightarrow> 0)" "c < u32_max"
  shows "new_session cfg i s =
    (if era_due cfg i s
     then (Some (validators s),
           if CurrentEra s \<noteq> None \<and> ForceEra s = ForceNew then set_force_era NotForcing (plan_era cfg c i s)
           else plan_era cfg c i s)
     else (None, s))"
  using trigger_new_era_plan [OF assms, of cfg i]
  by (auto simp: new_session_def era_due_def try_trigger_new_era_def Let_def sat_sub_def split: option.splits)

text \<open>The pallet's own storage after an era has started, whatever the hooks do behind it.\<close>

definition enact_era :: "EraIndex \<Rightarrow> ev_state \<Rightarrow> ev_state" where
  "enact_era a s = ev_deposit (NewEra a) (s\<lparr>ActiveEra := Some \<lparr>ae_index = a, ae_start = None\<rparr>,
     WhitelistedValidatorsActiveEra := WhitelistedValidatorsActiveEraPending s,
     WhitelistedValidatorsActiveEraPending := [],
     PendingExternalIndex := 0, CurrentExternalIndex := PendingExternalIndex s\<rparr>)"

lemma enact_era_simps [simp]:
  "CurrentEra (enact_era a s) = CurrentEra s"
  "ActiveEra (enact_era a s) = Some \<lparr>ae_index = a, ae_start = None\<rparr>"
  "ErasStartSessionIndex (enact_era a s) = ErasStartSessionIndex s"
  "ExternalIndex (enact_era a s) = ExternalIndex s"
  "PendingExternalIndex (enact_era a s) = 0"
  "CurrentExternalIndex (enact_era a s) = PendingExternalIndex s"
  "ForceEra (enact_era a s) = ForceEra s"
  "ExternalValidators (enact_era a s) = ExternalValidators s"
  "WhitelistedValidators (enact_era a s) = WhitelistedValidators s"
  by (simp_all add: enact_era_def ev_deposit_def)

lemma start_session_eq:
  assumes "a = (case ActiveEra s of Some info \<Rightarrow> ae_index info + 1 | None \<Rightarrow> 0)" "a \<le> u32_max"
  shows "start_session hook i (s, w) =
    (case ErasStartSessionIndex s a of
       Some x \<Rightarrow> if x \<le> i then (enact_era a s, hook (enact_era a s) a i (PendingExternalIndex s) w) else (s, w)
     | None \<Rightarrow> (s, w))"
proof -
  have a: "(case ActiveEra s of Some info \<Rightarrow> sat_add32 (ae_index info) 1 | None \<Rightarrow> 0) = a"
    using assms by (auto simp: sat_add_def split: option.splits)
  show ?thesis
    by (auto simp: start_session_def start_era_def a Let_def enact_era_def split: option.splits)
qed

lemma fst_end_session [simp]: "fst (end_session he i sw) = fst sw"
  by (auto simp: end_session_def end_era_def split: option.splits)

section \<open>The session machine\<close>

text \<open>
  The pallet runs as the session manager of \<open>pallet_session\<close>, which is documented to plan sessions 0
  and 1 and start session 0 at genesis, and then to end session \<open>i\<close>, start session \<open>i + 1\<close> and plan
  session \<open>i + 2\<close> at every rotation. In between, calls are dispatched, sets arrive over the bridge
  and blocks are finalised. A state is the running session, the pallet's storage and the state
  behind the hooks. Sessions stay clear of the end of the \<open>u32\<close> range.
\<close>

datatype ev_call =
    CallSkipExternal origin bool
  | CallAddWhitelisted origin AccountId
  | CallRemoveWhitelisted origin AccountId
  | CallForceEra origin forcing
  | CallSetExternal origin "AccountId list" nat
  | BridgeSetExternal "AccountId list" nat

fun ev_dispatch :: "ev_config \<Rightarrow> ev_call \<Rightarrow> ev_state \<Rightarrow> ev_error + ev_state" where
  "ev_dispatch cfg (CallSkipExternal og b) s = skip_external_validators cfg og b s"
| "ev_dispatch cfg (CallAddWhitelisted og who) s = add_whitelisted cfg og who s"
| "ev_dispatch cfg (CallRemoveWhitelisted og who) s = remove_whitelisted cfg og who s"
| "ev_dispatch cfg (CallForceEra og m) s = force_era cfg og m s"
| "ev_dispatch cfg (CallSetExternal og vs n) s = set_external_validators cfg og vs n s"
| "ev_dispatch cfg (BridgeSetExternal vs n) s = set_external_validators_inner cfg vs n s"

definition genesis_sessions :: "ev_config \<Rightarrow> 'w on_era_start \<Rightarrow> ev_state \<times> 'w \<Rightarrow> ev_state \<times> 'w" where
  "genesis_sessions cfg hs sw =
     start_session hs 0 (snd (new_session cfg 1 (snd (new_session cfg 0 (fst sw)))), snd sw)"

definition rotate_session ::
  "ev_config \<Rightarrow> 'w on_era_start \<Rightarrow> 'w on_era_end \<Rightarrow> SessionIndex \<Rightarrow> ev_state \<times> 'w \<Rightarrow> ev_state \<times> 'w" where
  "rotate_session cfg hs he i sw =
     (let sw = end_session he i sw;
          (s, w) = start_session hs (i + 1) sw
      in (snd (new_session cfg (i + 2) s), w))"

inductive ev_step ::
  "ev_config \<Rightarrow> 'w on_era_start \<Rightarrow> 'w on_era_end \<Rightarrow> SessionIndex \<times> ev_state \<times> 'w \<Rightarrow> SessionIndex \<times> ev_state \<times> 'w \<Rightarrow> bool"
  for cfg hs he where
  rotate: "i + 3 < u32_max \<Longrightarrow> ev_step cfg hs he (i, sw) (i + 1, rotate_session cfg hs he i sw)"
| call: "ev_dispatch cfg c s = Inr s' \<Longrightarrow> ev_step cfg hs he (i, s, w) (i, s', w)"
| finalize: "ev_step cfg hs he (i, s, w) (i, ev_on_finalize now s, w)"

inductive ev_reachable ::
  "ev_config \<Rightarrow> 'w on_era_start \<Rightarrow> 'w on_era_end \<Rightarrow> SessionIndex \<times> ev_state \<times> 'w \<Rightarrow> bool"
  for cfg hs he where
  genesis: "ev_build cfg g = Some s0 \<Longrightarrow> ev_reachable cfg hs he (0, genesis_sessions cfg hs (s0, w0))"
| step: "ev_reachable cfg hs he x \<Longrightarrow> ev_step cfg hs he x y \<Longrightarrow> ev_reachable cfg hs he y"

inductive_cases ev_stepE: "ev_step cfg hs he x y"

section \<open>The era invariant\<close>

text \<open>
  During session \<open>i\<close> an era is active, and the current (latest planned) era is the active one or its
  successor, in which case the successor starts with the next session. Start sessions are recorded for
  exactly the last \<open>HistoryDepth\<close> eras and increase with the era. The external index never runs ahead of the
  next era, and the index of the running set never runs ahead of the active era.
\<close>

definition start_sessions_ok :: "nat \<Rightarrow> EraIndex \<Rightarrow> (EraIndex \<rightharpoonup> SessionIndex) \<Rightarrow> bool" where
  "start_sessions_ok depth c m \<longleftrightarrow>
     (\<forall>k. m k \<noteq> None \<longleftrightarrow> k \<le> c \<and> c \<le> k + depth) \<and>
     (\<forall>k k' x x'. m k = Some x \<longrightarrow> m k' = Some x' \<longrightarrow> k < k' \<longrightarrow> x < x')"

definition external_index_ok :: "EraIndex \<Rightarrow> ev_state \<Rightarrow> bool" where
  "external_index_ok a s \<longleftrightarrow>
     ExternalIndex s \<le> a + 1 \<and> PendingExternalIndex s \<le> ExternalIndex s \<and>
     CurrentExternalIndex s \<le> a \<and> CurrentExternalIndex s \<le> ExternalIndex s"

definition era_inv :: "ev_config \<Rightarrow> SessionIndex \<Rightarrow> ev_state \<Rightarrow> bool" where
  "era_inv cfg i s \<longleftrightarrow>
     (\<exists>ae c. ActiveEra s = Some ae \<and> CurrentEra s = Some c \<and> ae_index ae \<le> i \<and>
       (c = ae_index ae \<and> (\<exists>x \<le> i. ErasStartSessionIndex s c = Some x) \<or>
        c = ae_index ae + 1 \<and> ErasStartSessionIndex s c = Some (i + 1)) \<and>
       start_sessions_ok (HistoryDepth cfg) c (ErasStartSessionIndex s) \<and>
       external_index_ok (ae_index ae) s)"

lemma start_sessions_okD:
  "start_sessions_ok depth c m \<Longrightarrow> m k \<noteq> None \<longleftrightarrow> k \<le> c \<and> c \<le> k + depth"
  "start_sessions_ok depth c m \<Longrightarrow> m k = Some x \<Longrightarrow> m k' = Some x' \<Longrightarrow> k < k' \<Longrightarrow> x < x'"
  unfolding start_sessions_ok_def by blast+

text \<open>Recording one more era at a later session keeps the table in shape.\<close>

lemma start_sessions_ok_plan:
  assumes ok: "start_sessions_ok depth c m" and x: "m c = Some x" "x < i"
  shows "start_sessions_ok depth (c + 1) (pruned depth (c + 1) (m(c + 1 \<mapsto> i)))"
proof -
  let ?m = "pruned depth (c + 1) (m(c + 1 \<mapsto> i))"
  have look: "?m k = (if k = c + 1 then Some i else if depth \<le> c \<and> k = c - depth then None else m k)" for k
    by (auto simp: pruned_def)
  have dom: "?m k \<noteq> None \<longleftrightarrow> k \<le> c + 1 \<and> c + 1 \<le> k + depth" for k
    using start_sessions_okD(1) [OF ok, of k] unfolding look by auto
  have le: "y \<le> x" if "m k = Some y" for k y
    using start_sessions_okD(2) [OF ok that x(1)] start_sessions_okD(1) [OF ok, of k] that x(1)
    by (cases "k = c") auto
  have "y < y'" if "?m k = Some y" "?m k' = Some y'" "k < k'" for k k' y y'
    using that start_sessions_okD(2) [OF ok] start_sessions_okD(1) [OF ok, of k'] le [of k y] x(2)
    unfolding look by (auto split: if_splits)
  then show ?thesis using dom unfolding start_sessions_ok_def by blast
qed

lemma era_inv_start_session:
  assumes inv: "era_inv cfg i s" and "i + 3 < u32_max"
  shows "\<exists>s' w'. start_session hs (i + 1) (s, w) = (s', w') \<and> era_inv cfg (i + 1) s' \<and>
     CurrentEra s' = Some (ae_index (the (ActiveEra s'))) \<and> ForceEra s' = ForceEra s"
proof -
  obtain ae c where *: "ActiveEra s = Some ae" "CurrentEra s = Some c" "ae_index ae \<le> i"
    "c = ae_index ae \<and> (\<exists>x \<le> i. ErasStartSessionIndex s c = Some x) \<or>
     c = ae_index ae + 1 \<and> ErasStartSessionIndex s c = Some (i + 1)"
    and ok: "start_sessions_ok (HistoryDepth cfg) c (ErasStartSessionIndex s)" "external_index_ok (ae_index ae) s"
    using inv unfolding era_inv_def by blast
  let ?a = "ae_index ae + 1"
  have eq: "start_session hs (i + 1) (s, w) =
    (case ErasStartSessionIndex s ?a of
       Some x \<Rightarrow> if x \<le> i + 1 then (enact_era ?a s, hs (enact_era ?a s) ?a (i + 1) (PendingExternalIndex s) w) else (s, w)
     | None \<Rightarrow> (s, w))"
    by (rule start_session_eq) (use * assms(2) in simp_all)
  show ?thesis
  proof (cases "c = ae_index ae")
    case True
    then have "ErasStartSessionIndex s ?a = None" using start_sessions_okD(1) [OF ok(1), of ?a] by auto
    moreover have "era_inv cfg (i + 1) s" using * ok True unfolding era_inv_def by auto
    ultimately show ?thesis using eq * True by simp
  next
    case False
    then have c: "c = ?a" and x: "ErasStartSessionIndex s ?a = Some (i + 1)" using * by auto
    have "external_index_ok ?a (enact_era ?a s)"
      using ok(2) by (simp add: external_index_ok_def)
    then have "era_inv cfg (i + 1) (enact_era ?a s)"
      using * ok x c unfolding era_inv_def by simp
    then show ?thesis using eq * x c by simp
  qed
qed

lemma era_inv_new_session:
  assumes inv: "era_inv cfg i s" and planned: "CurrentEra s = Some (ae_index (the (ActiveEra s)))"
    and "i + 2 < u32_max"
  shows "era_inv cfg i (snd (new_session cfg (i + 1) s))"
proof -
  obtain ae x where *: "ActiveEra s = Some ae" "CurrentEra s = Some (ae_index ae)" "ae_index ae \<le> i"
    "x \<le> i" "ErasStartSessionIndex s (ae_index ae) = Some x"
    and ok: "start_sessions_ok (HistoryDepth cfg) (ae_index ae) (ErasStartSessionIndex s)" "external_index_ok (ae_index ae) s"
    using inv planned unfolding era_inv_def by auto
  let ?c = "ae_index ae + 1"
  have ns: "new_session cfg (i + 1) s =
    (if era_due cfg (i + 1) s
     then (Some (validators s),
           if CurrentEra s \<noteq> None \<and> ForceEra s = ForceNew then set_force_era NotForcing (plan_era cfg ?c (i + 1) s)
           else plan_era cfg ?c (i + 1) s)
     else (None, s))"
    by (rule new_session_eq) (use * assms(3) in simp_all)
  have tbl: "start_sessions_ok (HistoryDepth cfg) ?c (pruned (HistoryDepth cfg) ?c ((ErasStartSessionIndex s)(?c \<mapsto> i + 1)))"
    using start_sessions_ok_plan [OF ok(1) *(5)] *(4) by simp
  have at: "pruned (HistoryDepth cfg) ?c ((ErasStartSessionIndex s)(?c \<mapsto> i + 1)) ?c = Some (i + 1)"
    by (auto simp: pruned_def)
  have "era_inv cfg i (plan_era cfg ?c (i + 1) s)"
    using * ok tbl at unfolding era_inv_def by (simp add: external_index_ok_def)
  moreover from this have "era_inv cfg i (set_force_era m (plan_era cfg ?c (i + 1) s))" for m
    unfolding era_inv_def external_index_ok_def by simp
  ultimately show ?thesis using inv ns by simp
qed

lemma era_inv_rotate:
  assumes "era_inv cfg i s" "i + 3 < u32_max"
  shows "era_inv cfg (i + 1) (fst (rotate_session cfg hs he i (s, w)))"
proof -
  obtain w1 where e: "end_session he i (s, w) = (s, w1)"
    using fst_end_session [of he i "(s, w)"] by (metis fst_conv prod.collapse)
  obtain s' w' where "start_session hs (i + 1) (s, w1) = (s', w')" "era_inv cfg (i + 1) s'"
      "CurrentEra s' = Some (ae_index (the (ActiveEra s')))"
    using era_inv_start_session [OF assms, of hs w1] by blast
  moreover have "era_inv cfg (i + 1) (snd (new_session cfg (i + 1 + 1) s'))"
    by (rule era_inv_new_session) (use calculation assms(2) in simp_all)
  ultimately show ?thesis by (simp add: rotate_session_def e Let_def)
qed

lemma ev_build_fresh:
  assumes "ev_build cfg g = Some s0"
  shows "ActiveEra s0 = None" "CurrentEra s0 = None" "ErasStartSessionIndex s0 = Map.empty"
    "ForceEra s0 = NotForcing" "ExternalIndex s0 = 0" "PendingExternalIndex s0 = 0" "CurrentExternalIndex s0 = 0"
    "distinct (WhitelistedValidators s0)" "length (WhitelistedValidators s0) \<le> MaxWhitelistedValidators cfg"
    "length (ExternalValidators s0) \<le> MaxExternalValidators cfg"
  using assms by (auto simp: ev_build_def Let_def ev_empty_def card_distinct split: if_splits)

lemma era_inv_genesis:
  assumes g: "ev_build cfg g = Some s0" and depth: "1 \<le> HistoryDepth cfg"
  shows "era_inv cfg 0 (fst (genesis_sessions cfg hs (s0, w)))"
proof -
  note fresh = ev_build_fresh [OF g]
  define s1 where "s1 = plan_era cfg 0 0 s0"
  define s2 where "s2 = (if era_due cfg 1 s1 then plan_era cfg 1 1 s1 else s1)"
  have "new_session cfg 0 s0 = (Some (validators s0), s1)"
    by (subst new_session_eq [of 0]) (simp_all add: fresh u32_max_def era_due_def s1_def)
  moreover have "snd (new_session cfg 1 s1) = s2"
    by (subst new_session_eq [of 1]) (simp_all add: s1_def fresh u32_max_def s2_def)
  moreover have tbl1: "ErasStartSessionIndex s1 = [0 \<mapsto> 0]" by (simp add: s1_def pruned_def fresh)
  moreover have tbl2: "ErasStartSessionIndex s2 = (if era_due cfg 1 s1 then [0 \<mapsto> 0, 1 \<mapsto> 1] else [0 \<mapsto> 0])"
    using depth by (simp add: s2_def tbl1 pruned_def)
  moreover have act: "ActiveEra s2 = None" by (simp add: s2_def s1_def fresh)
  ultimately have "fst (genesis_sessions cfg hs (s0, w)) = enact_era 0 s2"
    by (simp add: genesis_sessions_def start_session_eq [of 0])
  moreover have "CurrentEra s2 = Some (if era_due cfg 1 s1 then 1 else 0)" by (simp add: s2_def s1_def)
  moreover have "external_index_ok 0 (enact_era 0 s2)"
    by (simp add: external_index_ok_def s2_def s1_def fresh)
  moreover have "start_sessions_ok (HistoryDepth cfg) (if era_due cfg 1 s1 then 1 else 0) (ErasStartSessionIndex s2)"
    using depth by (auto simp: start_sessions_ok_def tbl2)
  ultimately show ?thesis unfolding era_inv_def by (auto simp: tbl2)
qed

text \<open>Calls touch neither the eras nor the indices already planned or applied.\<close>

lemma ev_dispatch_frame:
  assumes "ev_dispatch cfg c s = Inr s'"
  shows "ActiveEra s' = ActiveEra s" "CurrentEra s' = CurrentEra s"
    "ErasStartSessionIndex s' = ErasStartSessionIndex s"
    "PendingExternalIndex s' = PendingExternalIndex s" "CurrentExternalIndex s' = CurrentExternalIndex s"
  using assms
  by (cases c; auto simp: skip_external_validators_def add_whitelisted_def remove_whitelisted_def force_era_def
      set_external_validators_def set_external_validators_inner_def set_force_era_def ev_deposit_def Let_def
      split: if_splits option.splits sum.splits)+

text \<open>The external index moves only when a set is accepted, to the era after the active one.\<close>

lemma ev_dispatch_external_index:
  assumes "ev_dispatch cfg c s = Inr s'"
  shows "ExternalIndex s' = ExternalIndex s \<or>
    (ExternalIndex s < ExternalIndex s' \<and> ExternalIndex s' = (case ActiveEra s of Some info \<Rightarrow> ae_index info | None \<Rightarrow> 0) + 1)"
  using assms
  by (cases c; auto simp: skip_external_validators_def add_whitelisted_def remove_whitelisted_def force_era_def
      set_external_validators_def set_external_validators_inner_def validate_target_era_def
      set_force_era_def ev_deposit_def Let_def
      split: if_splits option.splits sum.splits)

lemma era_inv_call: "ev_dispatch cfg c s = Inr s' \<Longrightarrow> era_inv cfg i s \<Longrightarrow> era_inv cfg i s'"
  using ev_dispatch_external_index [of cfg c s s']
  unfolding era_inv_def external_index_ok_def
  by (auto simp: ev_dispatch_frame)

lemma era_inv_finalize: "era_inv cfg i s \<Longrightarrow> era_inv cfg i (ev_on_finalize now s)"
  unfolding era_inv_def external_index_ok_def by (auto simp: ev_on_finalize_def)

lemma era_inv_step: "ev_step cfg hs he x y \<Longrightarrow> era_inv cfg (fst x) (fst (snd x)) \<Longrightarrow> era_inv cfg (fst y) (fst (snd y))"
proof (induction rule: ev_step.induct)
  case (rotate i sw)
  then show ?case using era_inv_rotate [of cfg i "fst sw" hs he "snd sw"] by simp
qed (auto intro: era_inv_call era_inv_finalize)

lemma era_inv_reachable:
  "ev_reachable cfg hs he x \<Longrightarrow> 1 \<le> HistoryDepth cfg \<Longrightarrow> era_inv cfg (fst x) (fst (snd x))"
proof (induction rule: ev_reachable.induct)
  case (genesis g s0 w0)
  then show ?case using era_inv_genesis [of cfg g s0 hs w0] by simp
next
  case (step x y)
  then show ?case by (blast intro: era_inv_step)
qed

text \<open>The whitelist stays duplicate-free and within its bound, the external set within its own.\<close>

definition sets_ok :: "ev_config \<Rightarrow> ev_state \<Rightarrow> bool" where
  "sets_ok cfg s \<longleftrightarrow> distinct (WhitelistedValidators s) \<and>
     length (WhitelistedValidators s) \<le> MaxWhitelistedValidators cfg \<and>
     length (ExternalValidators s) \<le> MaxExternalValidators cfg"

lemma sets_ok_call: "ev_dispatch cfg c s = Inr s' \<Longrightarrow> sets_ok cfg s \<Longrightarrow> sets_ok cfg s'"
  by (cases c; auto simp: sets_ok_def skip_external_validators_def add_whitelisted_def remove_whitelisted_def
      force_era_def set_external_validators_def set_external_validators_inner_def
      set_force_era_def ev_deposit_def Let_def length_remove1 split: if_splits option.splits sum.splits)

lemma sets_frame_new_session:
  "WhitelistedValidators (snd (new_session cfg i s)) = WhitelistedValidators s \<and>
   ExternalValidators (snd (new_session cfg i s)) = ExternalValidators s \<and>
   ExternalIndex (snd (new_session cfg i s)) = ExternalIndex s"
  by (auto simp: new_session_def try_trigger_new_era_def trigger_new_era_def clear_era_information_def Let_def
      split: option.splits)

lemma sets_frame_start_session:
  "WhitelistedValidators (fst (start_session hs i sw)) = WhitelistedValidators (fst sw) \<and>
   ExternalValidators (fst (start_session hs i sw)) = ExternalValidators (fst sw) \<and>
   ExternalIndex (fst (start_session hs i sw)) = ExternalIndex (fst sw)"
  by (cases sw) (auto simp: start_session_def start_era_def ev_deposit_def Let_def split: option.splits)

lemma sets_frame_rotate:
  "WhitelistedValidators (fst (rotate_session cfg hs he i sw)) = WhitelistedValidators (fst sw) \<and>
   ExternalValidators (fst (rotate_session cfg hs he i sw)) = ExternalValidators (fst sw) \<and>
   ExternalIndex (fst (rotate_session cfg hs he i sw)) = ExternalIndex (fst sw)"
  using sets_frame_start_session [of hs "i + 1" "end_session he i sw"]
    sets_frame_new_session [of cfg "i + 2" "fst (start_session hs (i + 1) (end_session he i sw))"]
  by (simp add: rotate_session_def Let_def split_beta)

lemma ev_on_finalize_frame [simp]:
  "WhitelistedValidators (ev_on_finalize now s) = WhitelistedValidators s"
  "ExternalValidators (ev_on_finalize now s) = ExternalValidators s"
  "ExternalIndex (ev_on_finalize now s) = ExternalIndex s"
  by (simp_all add: ev_on_finalize_def split: option.splits)

lemma sets_ok_reachable: "ev_reachable cfg hs he x \<Longrightarrow> sets_ok cfg (fst (snd x))"
proof (induction rule: ev_reachable.induct)
  case (genesis g s0 w0)
  then show ?case
    using ev_build_fresh [of cfg g s0]
    by (simp add: sets_ok_def genesis_sessions_def sets_frame_start_session sets_frame_new_session)
next
  case (step x y)
  from step(2) step.IH show ?case
    by (induction rule: ev_step.induct) (auto simp: sets_ok_def sets_frame_rotate dest: sets_ok_call)
qed

lemma external_index_mono: "ev_step cfg hs he x y \<Longrightarrow> ExternalIndex (fst (snd x)) \<le> ExternalIndex (fst (snd y))"
  by (induction rule: ev_step.induct) (auto simp: sets_frame_rotate dest: ev_dispatch_external_index)

lemma external_index_mono_run:
  "(ev_step cfg hs he)\<^sup>*\<^sup>* x y \<Longrightarrow> ExternalIndex (fst (snd x)) \<le> ExternalIndex (fst (snd y))"
  by (induction rule: rtranclp_induct) (auto dest: external_index_mono)

text \<open>A rotation with the next era planned makes it the active one, running the index saved when it was planned.\<close>

lemma rotate_enacts:
  assumes inv: "era_inv cfg i s" and "i + 3 < u32_max" and act: "ActiveEra s = Some ae"
    and cur: "CurrentEra s = Some (ae_index ae + 1)"
  shows "ActiveEra (fst (rotate_session cfg hs he i (s, w))) = Some \<lparr>ae_index = ae_index ae + 1, ae_start = None\<rparr>"
    and "CurrentExternalIndex (fst (rotate_session cfg hs he i (s, w))) = PendingExternalIndex s"
    and "fst (rotate_session cfg hs he i (s, w)) = snd (new_session cfg (i + 2) (enact_era (ae_index ae + 1) s))"
proof -
  let ?a = "ae_index ae + 1"
  have a: "ae_index ae \<le> i" and x: "ErasStartSessionIndex s ?a = Some (i + 1)"
    using inv act cur unfolding era_inv_def by auto
  have st: "start_session hs (i + 1) (s, w1) = (enact_era ?a s, hs (enact_era ?a s) ?a (i + 1) (PendingExternalIndex s) w1)" for w1
    using start_session_eq [of ?a s hs "i + 1" w1] x act a assms(2) by simp
  obtain w1 where e: "end_session he i (s, w) = (s, w1)"
    using fst_end_session [of he i "(s, w)"] by (metis fst_conv prod.collapse)
  show r: "fst (rotate_session cfg hs he i (s, w)) = snd (new_session cfg (i + 2) (enact_era ?a s))"
    by (simp only: rotate_session_def e Let_def st prod.case fst_conv)
  have "new_session cfg (i + 2) (enact_era ?a s) =
    (if era_due cfg (i + 2) (enact_era ?a s)
     then (Some (validators (enact_era ?a s)),
           if CurrentEra (enact_era ?a s) \<noteq> None \<and> ForceEra (enact_era ?a s) = ForceNew
           then set_force_era NotForcing (plan_era cfg (?a + 1) (i + 2) (enact_era ?a s))
           else plan_era cfg (?a + 1) (i + 2) (enact_era ?a s))
     else (None, enact_era ?a s))"
    by (rule new_session_eq) (use cur a assms(2) in simp_all)
  then show "ActiveEra (fst (rotate_session cfg hs he i (s, w))) = Some \<lparr>ae_index = ?a, ae_start = None\<rparr>"
    and "CurrentExternalIndex (fst (rotate_session cfg hs he i (s, w))) = PendingExternalIndex s"
    unfolding r by simp_all
qed

text \<open>What an accepted set changes.\<close>

lemma set_external_accepted:
  assumes "set_external_validators_inner cfg vs n s = Inr s1"
  shows "s1 = ev_deposit (ExternalValidatorsSet (take (MaxExternalValidators cfg) vs) n)
           (s\<lparr>ExternalValidators := take (MaxExternalValidators cfg) vs, ExternalIndex := n\<rparr>)"
    and "ExternalIndex s < n"
    and "n = (case ActiveEra s of Some info \<Rightarrow> ae_index info | None \<Rightarrow> 0) + 1"
  using assms by (auto simp: set_external_validators_inner_def validate_target_era_def Let_def split: sum.splits if_splits)

text \<open>The life of a set accepted while its target era was not yet planned: waiting, planned, and then running or past.\<close>

definition set_phase :: "ev_config \<Rightarrow> AccountId list \<Rightarrow> nat \<Rightarrow> ev_state \<Rightarrow> bool" where
  "set_phase cfg vs n s \<longleftrightarrow>
     (\<exists>ae c. ActiveEra s = Some ae \<and> CurrentEra s = Some c \<and>
       (ae_index ae + 1 = n \<and> ExternalIndex s = n \<and> ExternalValidators s = take (MaxExternalValidators cfg) vs \<and>
          (c = n \<longrightarrow> PendingExternalIndex s = n) \<or>
        n \<le> ae_index ae \<and> n \<le> CurrentExternalIndex s \<and> n \<le> ExternalIndex s \<and>
          (c = ae_index ae + 1 \<longrightarrow> n \<le> PendingExternalIndex s)))"

lemma new_session_fields:
  assumes "CurrentEra s = Some c" "c + 1 < u32_max"
  shows "fst (new_session cfg i s) = (if era_due cfg i s then Some (validators s) else None)"
    and "CurrentEra (snd (new_session cfg i s)) = Some (if era_due cfg i s then c + 1 else c)"
    and "PendingExternalIndex (snd (new_session cfg i s)) = (if era_due cfg i s then ExternalIndex s else PendingExternalIndex s)"
    and "ActiveEra (snd (new_session cfg i s)) = ActiveEra s"
    and "CurrentExternalIndex (snd (new_session cfg i s)) = CurrentExternalIndex s"
  using assms new_session_eq [of "c + 1" s cfg i] by auto

text \<open>A rotation plans the next era from the state itself, or from the state with the planned era made the active one.\<close>

lemma rotate_eq:
  assumes inv: "era_inv cfg i s" and "i + 3 < u32_max" and act: "ActiveEra s = Some ae" and cur: "CurrentEra s = Some c"
  shows "fst (rotate_session cfg hs he i (s, w)) =
    snd (new_session cfg (i + 2) (if c = ae_index ae then s else enact_era (ae_index ae + 1) s))"
proof (cases "c = ae_index ae")
  case True
  let ?a = "ae_index ae + 1"
  have a: "ae_index ae \<le> i" and ok: "start_sessions_ok (HistoryDepth cfg) (ae_index ae) (ErasStartSessionIndex s)"
    using inv act cur True unfolding era_inv_def by auto
  have none: "ErasStartSessionIndex s ?a = None" using start_sessions_okD(1) [OF ok, of ?a] by auto
  have st: "start_session hs (i + 1) (s, w1) = (s, w1)" for w1
    using start_session_eq [of ?a s hs "i + 1" w1] none act a assms(2) by simp
  obtain w1 where e: "end_session he i (s, w) = (s, w1)"
    using fst_end_session [of he i "(s, w)"] by (metis fst_conv prod.collapse)
  show ?thesis using st [of w1] True by (simp add: rotate_session_def e Let_def)
next
  case False
  then have "CurrentEra s = Some (ae_index ae + 1)" using inv act cur unfolding era_inv_def by auto
  then show ?thesis using rotate_enacts(3) [OF inv assms(2) act] False by simp
qed

lemma era_inv_eras:
  assumes "era_inv cfg i s" "ActiveEra s = Some ae" "CurrentEra s = Some c"
  shows "c = ae_index ae \<or> c = ae_index ae + 1" "c \<le> i + 1" "CurrentExternalIndex s \<le> ae_index ae"
  using assms unfolding era_inv_def external_index_ok_def by auto

lemma set_phase_rotate:
  assumes inv: "era_inv cfg i s" and i: "i + 3 < u32_max" and ph: "set_phase cfg vs n s"
  shows "set_phase cfg vs n (fst (rotate_session cfg hs he i (s, w)))"
proof -
  obtain ae c where ac: "ActiveEra s = Some ae" "CurrentEra s = Some c"
    and ph': "ae_index ae + 1 = n \<and> ExternalIndex s = n \<and> ExternalValidators s = take (MaxExternalValidators cfg) vs \<and>
          (c = n \<longrightarrow> PendingExternalIndex s = n) \<or>
        n \<le> ae_index ae \<and> n \<le> CurrentExternalIndex s \<and> n \<le> ExternalIndex s \<and>
          (c = ae_index ae + 1 \<longrightarrow> n \<le> PendingExternalIndex s)"
    using ph unfolding set_phase_def by blast
  note e = era_inv_eras [OF inv ac]
  let ?t = "if c = ae_index ae then s else enact_era (ae_index ae + 1) s"
  have c: "CurrentEra ?t = Some c" "c + 1 < u32_max" using ac(2) e(2) i by auto
  note f = new_session_fields [OF c, of cfg "i + 2"] sets_frame_new_session [of cfg "i + 2" ?t]
  show ?thesis
    unfolding rotate_eq [OF inv i ac] set_phase_def f(2-5) using f(6) e(1) ph' ac(1)
    by (cases "c = ae_index ae") (auto split: if_splits)
qed

lemma ev_dispatch_current_set:
  assumes "ev_dispatch cfg c s = Inr s'" "ActiveEra s = Some ae" "ExternalIndex s = ae_index ae + 1"
  shows "ExternalIndex s' = ExternalIndex s" "ExternalValidators s' = ExternalValidators s"
  using assms
  by (cases c; auto simp: skip_external_validators_def add_whitelisted_def remove_whitelisted_def force_era_def
      set_external_validators_def set_external_validators_inner_def validate_target_era_def
      set_force_era_def ev_deposit_def Let_def split: if_splits option.splits sum.splits)+

lemma set_phase_step:
  assumes "ev_step cfg hs he x y" "era_inv cfg (fst x) (fst (snd x))" "set_phase cfg vs n (fst (snd x))"
  shows "set_phase cfg vs n (fst (snd y))"
  using assms
proof (induction rule: ev_step.induct)
  case (rotate i sw)
  then show ?case using set_phase_rotate [of cfg i "fst sw" vs n hs he "snd sw"] by simp
next
  case (call c s s' i w)
  have "ExternalIndex s \<le> ExternalIndex s'" using ev_dispatch_external_index [OF call(1)] by auto
  then show ?case
    using call(3) ev_dispatch_frame [OF call(1)] ev_dispatch_current_set [OF call(1)]
    unfolding set_phase_def by auto
next
  case (finalize i s w now)
  then show ?case unfolding set_phase_def by (auto simp: ev_on_finalize_def)
qed

lemma set_phase_run:
  assumes "(ev_step cfg hs he)\<^sup>*\<^sup>* x y" "era_inv cfg (fst x) (fst (snd x))" "set_phase cfg vs n (fst (snd x))"
  shows "set_phase cfg vs n (fst (snd y))" "era_inv cfg (fst y) (fst (snd y))"
proof -
  have "set_phase cfg vs n (fst (snd y)) \<and> era_inv cfg (fst y) (fst (snd y))"
    using assms by (induction rule: rtranclp_induct) (blast intro: set_phase_step era_inv_step)+
  then show "set_phase cfg vs n (fst (snd y))" "era_inv cfg (fst y) (fst (snd y))" by blast+
qed

section \<open>Properties\<close>

text \<open>
  The mainnet configuration of the pallet (with the number of sessions per era, the bridge origin
  and the key registry open), and a small genesis with overlapping sets, for the concrete instances.
\<close>

definition mainnet_ev_config :: "nat \<Rightarrow> H160 \<Rightarrow> (AccountId \<Rightarrow> bool) \<Rightarrow> ev_config" where
  "mainnet_ev_config sessions_per_era service_manager registered =
     \<lparr>HistoryDepth = 84, MaxWhitelistedValidators = 100, MaxExternalValidators = 100,
      SessionsPerEra = sessions_per_era, AuthorizedOrigin = service_manager, UpdateOrigin = ensure_root,
      ValidatorIdOf = Some, is_registered = registered\<rparr>"

abbreviation sample_cfg :: "nat \<Rightarrow> ev_config" where
  "sample_cfg n \<equiv> mainnet_ev_config n 7 (\<lambda>_. True)"

definition no_start_hook :: "unit on_era_start" where
  "no_start_hook s era session idx w = w"

definition no_end_hook :: "unit on_era_end" where
  "no_end_hook s era w = w"

definition sample_genesis :: ev_genesis_config where
  "sample_genesis = \<lparr>g_skip_external_validators = False, g_whitelisted_validators = [1, 2],
     g_external_validators = [2, 3]\<rparr>"

definition sample_state :: "nat \<Rightarrow> ev_state" where
  "sample_state n = fst (genesis_sessions (sample_cfg n) no_start_hook (the (ev_build (sample_cfg n) sample_genesis), ()))"

lemma sample_build: "ev_build (sample_cfg n) sample_genesis \<noteq> None"
  by (simp add: ev_build_def sample_genesis_def mainnet_ev_config_def Let_def)

lemma sample_reachable: "ev_reachable (sample_cfg n) no_start_hook no_end_hook (0, sample_state n, ())"
proof -
  obtain s0 where s0: "ev_build (sample_cfg n) sample_genesis = Some s0" using sample_build by blast
  then have "(sample_state n, ()) = genesis_sessions (sample_cfg n) no_start_hook (s0, ())"
    by (simp add: sample_state_def prod_eq_iff)
  then show ?thesis using ev_reachable.genesis [OF s0, of no_start_hook no_end_hook "()"] by simp
qed

lemmas sample_eval = sample_state_def ev_build_def sample_genesis_def mainnet_ev_config_def Let_def
  genesis_sessions_def new_session_def try_trigger_new_era_def trigger_new_era_def clear_era_information_def
  start_session_def start_era_def ev_deposit_def ev_empty_def sat_simps u32_max_def no_start_hook_def

text \<open>
  C26. In every reachable state there is an active era; the current era is the active era or the one
  after it, and in the latter case it starts with the next session; start sessions are recorded for
  exactly the eras from \<open>CurrentEra - HistoryDepth\<close> to \<open>CurrentEra\<close>; the index of the running
  validator set is at most the active era, the latest accepted index at most the next era.
\<close>

theorem era_invariant:
  assumes "ev_reachable cfg hs he (i, s, w)" and "1 \<le> HistoryDepth cfg"
  shows "\<exists>ae c. ActiveEra s = Some ae \<and> CurrentEra s = Some c \<and>
    (c = ae_index ae \<or> c = ae_index ae + 1 \<and> ErasStartSessionIndex s c = Some (i + 1)) \<and>
    (\<forall>k. ErasStartSessionIndex s k \<noteq> None \<longleftrightarrow> k \<le> c \<and> c \<le> k + HistoryDepth cfg) \<and>
    CurrentExternalIndex s \<le> ae_index ae \<and> ExternalIndex s \<le> ae_index ae + 1"
  using era_inv_reachable [OF assms] unfolding era_inv_def external_index_ok_def start_sessions_ok_def
  by auto

theorem era_invariant_witness:
  "\<exists>ae c. ActiveEra (sample_state 1) = Some ae \<and> CurrentEra (sample_state 1) = Some c \<and>
    (c = ae_index ae \<or> c = ae_index ae + 1 \<and> ErasStartSessionIndex (sample_state 1) c = Some (0 + 1)) \<and>
    (\<forall>k. ErasStartSessionIndex (sample_state 1) k \<noteq> None \<longleftrightarrow> k \<le> c \<and> c \<le> k + HistoryDepth (sample_cfg 1)) \<and>
    CurrentExternalIndex (sample_state 1) \<le> ae_index ae \<and> ExternalIndex (sample_state 1) \<le> ae_index ae + 1"
  by (rule era_invariant [OF sample_reachable]) (simp add: mainnet_ev_config_def)

text \<open>
  The validators of the next session are the whitelisted ones followed by the external ones
  (unless these are skipped), each once, at the place of its first occurrence.
\<close>

theorem validators_first_occurrences:
  "validators s = rev (remdups (rev (WhitelistedValidators s @ (if SkipExternalValidators s then [] else ExternalValidators s)))) \<and>
   distinct (validators s) \<and>
   set (validators s) = set (WhitelistedValidators s) \<union> (if SkipExternalValidators s then {} else set (ExternalValidators s))"
  by (auto simp: validators_def remove_duplicates_def remove_duplicates_from_eq)

text \<open>
  C27. In every reachable state the whitelist has no duplicates and at most
  \<open>MaxWhitelistedValidators\<close> entries, and the external set has at most \<open>MaxExternalValidators\<close>.
\<close>

theorem validator_sets_bounded:
  assumes "ev_reachable cfg hs he (i, s, w)"
  shows "distinct (WhitelistedValidators s) \<and> length (WhitelistedValidators s) \<le> MaxWhitelistedValidators cfg \<and>
    length (ExternalValidators s) \<le> MaxExternalValidators cfg"
  using sets_ok_reachable [OF assms] by (simp add: sets_ok_def)

theorem validator_sets_bounded_witness:
  "distinct (WhitelistedValidators (sample_state 6)) \<and>
   length (WhitelistedValidators (sample_state 6)) \<le> MaxWhitelistedValidators (sample_cfg 6) \<and>
   length (ExternalValidators (sample_state 6)) \<le> MaxExternalValidators (sample_cfg 6)"
  by (rule validator_sets_bounded [OF sample_reachable])

text \<open>
  At most one validator set is accepted per target era: once a set with index \<open>n\<close> has been
  accepted, every set with that index is rejected in every later state.
\<close>

theorem one_set_per_target_era:
  assumes "set_external_validators_inner cfg vs n s = Inr s1"
    and "(ev_step cfg hs he)\<^sup>*\<^sup>* (i, s1, w) (i', s', w')"
  shows "\<exists>e. set_external_validators_inner cfg vs' n s' = Inl e"
proof -
  have "n \<le> ExternalIndex s'"
    using external_index_mono_run [OF assms(2)] set_external_accepted(1) [OF assms(1)]
    by (simp add: ev_deposit_def)
  then show ?thesis by (simp add: set_external_validators_inner_def validate_target_era_def Let_def)
qed

theorem one_set_per_target_era_witness:
  "\<exists>s1. set_external_validators_inner (sample_cfg 6) [5] 1 (sample_state 6) = Inr s1 \<and>
     (\<exists>e. set_external_validators_inner (sample_cfg 6) [9] 1 s1 = Inl e)"
proof -
  obtain s1 where s1: "set_external_validators_inner (sample_cfg 6) [5] 1 (sample_state 6) = Inr s1"
    by (simp add: set_external_validators_inner_def validate_target_era_def sample_eval)
  show ?thesis
    using s1 one_set_per_target_era [OF s1, of no_start_hook no_end_hook 0 "()" 0 s1 "()" "[9]"] by auto
qed

text \<open>
  C11. A set accepted while its target era is not yet planned takes effect in that era, whatever calls, blocks and session
  rotations follow. As long as the target era is not planned, the rotation that finds it due gets as its
  validators the whitelisted ones and the (truncated) accepted set, unless external validators are skipped, each once, and
  plans the era. Once it is planned, the next rotation makes it the active era, and as long as it is active the index of the
  running set is the accepted one.
\<close>

theorem accepted_set_takes_effect:
  assumes "ev_reachable cfg hs he (i, s, w)" "1 \<le> HistoryDepth cfg"
    and act: "ActiveEra s = Some ae" and cur: "CurrentEra s = Some (ae_index ae)"
    and acc: "set_external_validators_inner cfg vs n s = Inr s1"
    and run: "(ev_step cfg hs he)\<^sup>*\<^sup>* (i, s1, w) (j, s2, w2)" and j: "j + 3 < u32_max"
  shows "n = ae_index ae + 1 \<and>
    (\<exists>a c. map_option ae_index (ActiveEra s2) = Some a \<and> CurrentEra s2 = Some c \<and> ae_index ae \<le> a \<and> (c = a \<or> c = a + 1) \<and>
      (let s3 = fst (rotate_session cfg hs he j (s2, w2)); due = era_due cfg (j + 2) s2 in
        if c < n then s3 = snd (new_session cfg (j + 2) s2) \<and>
          fst (new_session cfg (j + 2) s2) =
            (if due then Some (remove_duplicates (WhitelistedValidators s2 @
               (if SkipExternalValidators s2 then [] else take (MaxExternalValidators cfg) vs))) else None) \<and>
          CurrentEra s3 = Some (if due then n else c)
        else if a < n then
          ActiveEra s3 = Some \<lparr>ae_index = n, ae_start = None\<rparr> \<and> CurrentExternalIndex s3 = n
        else if a = n then CurrentExternalIndex s2 = n
        else n \<le> CurrentExternalIndex s2))"
proof -
  have inv: "era_inv cfg i s" using era_inv_reachable [OF assms(1,2)] by simp
  have inv1: "era_inv cfg i s1" using era_inv_call [of cfg "BridgeSetExternal vs n" s s1] acc inv by simp
  note s1 = set_external_accepted [OF acc]
  have n: "n = ae_index ae + 1" using s1(3) act by simp
  have "set_phase cfg vs n s1" using act cur n by (simp add: set_phase_def s1(1) ev_deposit_def)
  then have ph: "set_phase cfg vs n s2" and inv2: "era_inv cfg j s2" using set_phase_run [OF run] inv1 by simp_all
  obtain b c where bc: "ActiveEra s2 = Some b" "CurrentEra s2 = Some c"
    and ph': "ae_index b + 1 = n \<and> ExternalIndex s2 = n \<and> ExternalValidators s2 = take (MaxExternalValidators cfg) vs \<and>
          (c = n \<longrightarrow> PendingExternalIndex s2 = n) \<or>
        n \<le> ae_index b \<and> n \<le> CurrentExternalIndex s2 \<and> n \<le> ExternalIndex s2 \<and>
          (c = ae_index b + 1 \<longrightarrow> n \<le> PendingExternalIndex s2)"
    using ph unfolding set_phase_def by blast
  note e = era_inv_eras [OF inv2 bc]
  have lim: "c + 1 < u32_max" using e(2) j by simp
  have enacts: "ActiveEra (fst (rotate_session cfg hs he j (s2, w2))) = Some \<lparr>ae_index = n, ae_start = None\<rparr> \<and>
      CurrentExternalIndex (fst (rotate_session cfg hs he j (s2, w2))) = n" if "\<not> c < n" "ae_index b < n"
    using rotate_enacts(1,2) [OF inv2 j bc(1), of hs he w2] bc(2) e(1) ph' that by auto
  show ?thesis
    using n e ph' enacts bc new_session_fields(1,2) [OF bc(2) lim, of cfg "j + 2"] rotate_eq [OF inv2 j bc, of hs he w2]
    by (auto simp: Let_def validators_def)
qed

definition sample_forced :: ev_state where
  "sample_forced = set_force_era ForceNew (sample_state 6)"

lemma sample_forced_reachable: "ev_reachable (sample_cfg 6) no_start_hook no_end_hook (0, sample_forced, ())"
proof -
  have "ev_dispatch (sample_cfg 6) (CallForceEra RootOrigin ForceNew) (sample_state 6) = Inr sample_forced"
    by (simp add: sample_forced_def force_era_def mainnet_ev_config_def ensure_root_def)
  from ev_step.call [OF this] show ?thesis by (rule ev_reachable.step [OF sample_reachable])
qed

theorem accepted_set_takes_effect_witness:
  "\<exists>s1. set_external_validators_inner (sample_cfg 6) [5] 1 sample_forced = Inr s1 \<and>
     fst (new_session (sample_cfg 6) 2 s1) = Some (remove_duplicates ([1, 2] @ [5])) \<and>
     CurrentEra (fst (rotate_session (sample_cfg 6) no_start_hook no_end_hook 0 (s1, ()))) = Some 1"
proof -
  obtain s1 where s1: "set_external_validators_inner (sample_cfg 6) [5] 1 sample_forced = Inr s1"
    by (simp add: set_external_validators_inner_def validate_target_era_def sample_forced_def set_force_era_def sample_eval)
  have act: "ActiveEra sample_forced = Some \<lparr>ae_index = 0, ae_start = None\<rparr>"
    by (simp add: sample_forced_def sample_eval)
  have cur: "CurrentEra sample_forced = Some (ae_index \<lparr>ae_index = 0, ae_start = None\<rparr>)"
    by (simp add: sample_forced_def sample_eval)
  have f: "CurrentEra s1 = Some 0" "ActiveEra s1 = Some \<lparr>ae_index = 0, ae_start = None\<rparr>"
      "WhitelistedValidators s1 = [1, 2]" "\<not> SkipExternalValidators s1" "ForceEra s1 = ForceNew"
    by (simp_all add: set_external_accepted(1) [OF s1] ev_deposit_def)
      (simp_all add: sample_forced_def set_force_era_def sample_eval)
  have due: "era_due (sample_cfg 6) 2 s1" by (simp add: era_due_def f)
  have "MaxExternalValidators (sample_cfg 6) = 100" by (simp add: mainnet_ev_config_def)
  moreover have "1 \<le> HistoryDepth (sample_cfg 6)" "0 + 3 < u32_max" by (simp_all add: mainnet_ev_config_def u32_max_def)
  ultimately show ?thesis
    using accepted_set_takes_effect [OF sample_forced_reachable _ act cur s1 rtranclp.rtrancl_refl] s1 due
    by (auto simp: f Let_def numeral_2_eq_2)
qed

text \<open>
  A set accepted in the last session of an era, when the next era is already planned, does not
  take effect in its target era. The specification of validator-set submission promises that no message spills into
  a later era; here the target era starts with the older index that was saved when it was planned, and if the
  era after it is due at once, that later era runs the index of the earlier target.
\<close>

theorem late_set_spills_over:
  assumes "ev_reachable cfg hs he (i, s, w)" "1 \<le> HistoryDepth cfg" "i + 4 < u32_max"
    and act: "ActiveEra s = Some ae" and cur: "CurrentEra s = Some (ae_index ae + 1)"
    and acc: "set_external_validators_inner cfg vs n s = Inr s1"
  defines "sw2 \<equiv> rotate_session cfg hs he i (s1, w)"
  defines "sw3 \<equiv> rotate_session cfg hs he (i + 1) sw2"
  shows "ActiveEra (fst sw2) = Some \<lparr>ae_index = n, ae_start = None\<rparr> \<and> CurrentExternalIndex (fst sw2) < n \<and>
    (era_due cfg (i + 2) (enact_era n s1) \<longrightarrow>
       ActiveEra (fst sw3) = Some \<lparr>ae_index = n + 1, ae_start = None\<rparr> \<and> CurrentExternalIndex (fst sw3) = n)"
proof -
  have inv: "era_inv cfg i s" using era_inv_reachable [OF assms(1,2)] by simp
  then have inv1: "era_inv cfg i s1"
    using era_inv_call [of cfg "BridgeSetExternal vs n" s s1] acc by simp
  note s1 = set_external_accepted [OF acc]
  have n: "n = ae_index ae + 1" using s1(3) act by simp
  have act1: "ActiveEra s1 = Some ae" and cur1: "CurrentEra s1 = Some (ae_index ae + 1)"
    and pend: "PendingExternalIndex s1 = PendingExternalIndex s" and ext1: "ExternalIndex s1 = n"
    using act cur by (simp_all add: s1(1) ev_deposit_def)
  have i: "i + 3 < u32_max" "i + 1 + 3 < u32_max" using assms(3) by simp_all
  note en = rotate_enacts [OF inv1 i(1) act1 cur1, of hs he w]
  have "PendingExternalIndex s < n"
    using inv s1(2) unfolding era_inv_def external_index_ok_def by auto
  then have first: "ActiveEra (fst sw2) = Some \<lparr>ae_index = n, ae_start = None\<rparr>" "CurrentExternalIndex (fst sw2) < n"
    using en(1,2) pend by (simp_all add: sw2_def n)
  have inv2: "era_inv cfg (i + 1) (fst sw2)" unfolding sw2_def by (rule era_inv_rotate [OF inv1 i(1)])
  have second: "ActiveEra (fst sw3) = Some \<lparr>ae_index = n + 1, ae_start = None\<rparr> \<and> CurrentExternalIndex (fst sw3) = n"
    if due: "era_due cfg (i + 2) (enact_era n s1)"
  proof -
    have c: "CurrentEra (enact_era n s1) = Some (ae_index ae + 1)" using cur1 by simp
    have "ae_index ae \<le> i" using inv act unfolding era_inv_def by auto
    then have "new_session cfg (i + 2) (enact_era n s1) = (Some (validators (enact_era n s1)),
        if ForceEra (enact_era n s1) = ForceNew
        then set_force_era NotForcing (plan_era cfg (n + 1) (i + 2) (enact_era n s1))
        else plan_era cfg (n + 1) (i + 2) (enact_era n s1))"
      using new_session_eq [of "n + 1" "enact_era n s1" cfg "i + 2"] due c n assms(3) by simp
    moreover have "fst sw2 = snd (new_session cfg (i + 2) (enact_era n s1))"
      using en(3) by (simp add: sw2_def n)
    ultimately have "CurrentEra (fst sw2) = Some (n + 1)" "PendingExternalIndex (fst sw2) = n"
      using ext1 by simp_all
    then show ?thesis using rotate_enacts(1,2) [OF inv2 i(2) first(1), of hs he "snd sw2"] by (simp add: sw3_def)
  qed
  show ?thesis using first second by blast
qed

theorem late_set_spills_over_witness:
  "\<exists>s1. set_external_validators_inner (sample_cfg 1) [5] 1 (sample_state 1) = Inr s1 \<and>
     ActiveEra (fst (rotate_session (sample_cfg 1) no_start_hook no_end_hook 0 (s1, ()))) = Some \<lparr>ae_index = 1, ae_start = None\<rparr> \<and>
     CurrentExternalIndex (fst (rotate_session (sample_cfg 1) no_start_hook no_end_hook 0 (s1, ()))) < 1"
proof -
  obtain s1 where s1: "set_external_validators_inner (sample_cfg 1) [5] 1 (sample_state 1) = Inr s1"
    by (simp add: set_external_validators_inner_def validate_target_era_def sample_eval)
  have act: "ActiveEra (sample_state 1) = Some \<lparr>ae_index = 0, ae_start = None\<rparr>"
    by (simp add: sample_eval)
  have cur: "CurrentEra (sample_state 1) = Some (ae_index \<lparr>ae_index = 0, ae_start = None\<rparr> + 1)"
    by (simp add: sample_eval)
  have "1 \<le> HistoryDepth (sample_cfg 1)" "0 + 4 < u32_max" by (simp_all add: mainnet_ev_config_def u32_max_def)
  from late_set_spills_over [OF sample_reachable this act cur s1] show ?thesis using s1 by auto
qed

end
