(* ===== verification/Unsent_Queue.thy ===== *)
theory Unsent_Queue
  imports DH_Prelude "HOL-Library.Sublist"
begin

text \<open>
  The retry ring buffer that the rewards pallet and the slashes pallet both contain, with the same
  code over different entry types: a storage map from slots to entries, a head and a tail, 64 slots.
  The ring is related to the plain list of its entries in order (\<open>uq_contents\<close>), and the
  operations are shown to implement a bounded first-in first-out queue: pushing appends, processing
  drops or rotates the head, removing a slot deletes one list element, expiring filters the list.
  The interface \<open>retry_queue\<close> states what the block hooks of the two pallets rely on.
\<close>

section \<open>The ring buffer\<close>

definition UNSENT_QUEUE_CAPACITY :: u32 where
  "UNSENT_QUEUE_CAPACITY = 64"

record 'e unsent_queue =
  uq_slots :: "u32 \<rightharpoonup> 'e"
  uq_head :: u32
  uq_tail :: u32

definition uq_empty :: "'e unsent_queue" where
  "uq_empty = \<lparr>uq_slots = Map.empty, uq_head = 0, uq_tail = 0\<rparr>"

definition next_slot :: "u32 \<Rightarrow> u32" where
  "next_slot s = (s + 1) mod UNSENT_QUEUE_CAPACITY"

definition unsent_queue_is_empty :: "'e unsent_queue \<Rightarrow> bool" where
  "unsent_queue_is_empty q \<longleftrightarrow> uq_head q = uq_tail q"

text \<open>\<open>wrapping_sub\<close> is subtraction of words.\<close>

definition unsent_queue_len :: "'e unsent_queue \<Rightarrow> u32" where
  "unsent_queue_len q = (uq_tail q - uq_head q) mod UNSENT_QUEUE_CAPACITY"

definition unsent_queue_push :: "'e \<Rightarrow> 'e unsent_queue \<Rightarrow> bool \<times> 'e unsent_queue" where
  "unsent_queue_push entry q =
     (let head = uq_head q; tail = uq_tail q; next_tail = next_slot tail in
      if next_tail = head then (False, q)
      else (True, q\<lparr>uq_slots := (uq_slots q)(tail \<mapsto> entry), uq_tail := next_tail\<rparr>))"

text \<open>
  The compaction loop: entries behind \<open>cur\<close> move one slot back until the tail is reached. It would
  not return on a tail outside the ring, hence \<open>None\<close> for a run that does not end.
\<close>

partial_function (option) shift_back :: "u32 \<Rightarrow> u32 \<Rightarrow> (u32 \<rightharpoonup> 'e) \<Rightarrow> (u32 \<times> (u32 \<rightharpoonup> 'e)) option" where
  "shift_back tail cur slots =
     (let next = next_slot cur in
      if next = tail then Some (cur, slots)
      else shift_back tail next
             (case slots next of Some entry \<Rightarrow> slots(cur \<mapsto> entry) | None \<Rightarrow> slots))"

definition unsent_queue_remove_slot :: "u32 \<Rightarrow> 'e unsent_queue \<Rightarrow> 'e unsent_queue option" where
  "unsent_queue_remove_slot slot q =
     (let tail = uq_tail q in
      do {
        (cur, slots) \<leftarrow> shift_back tail slot (uq_slots q);
        let slots = slots(cur := None);
        let new_tail = (if tail = 0 then UNSENT_QUEUE_CAPACITY - 1 else tail - 1);
        let q = q\<lparr>uq_slots := slots, uq_tail := new_tail\<rparr>;
        Some (if uq_head q = tail then q\<lparr>uq_head := new_tail\<rparr> else q)
      })"

text \<open>The scan of the governance calls: the first entry from \<open>slot\<close> on that satisfies \<open>p\<close>.\<close>

partial_function (option) find_slot ::
  "('e \<Rightarrow> bool) \<Rightarrow> u32 \<Rightarrow> (u32 \<rightharpoonup> 'e) \<Rightarrow> u32 \<Rightarrow> (u32 \<times> 'e) option option" where
  "find_slot p tail slots slot =
     (if slot = tail then Some None
      else (case slots slot of
              Some entry \<Rightarrow> if p entry then Some (Some (slot, entry))
                            else find_slot p tail slots (next_slot slot)
            | None \<Rightarrow> find_slot p tail slots (next_slot slot)))"

text \<open>
  The two ways a processed head leaves its place: dropped after a successful send, or moved to the
  back after a failed one.
\<close>

definition drop_head :: "'e unsent_queue \<Rightarrow> 'e unsent_queue" where
  "drop_head q = q\<lparr>uq_slots := (uq_slots q)(uq_head q := None), uq_head := next_slot (uq_head q)\<rparr>"

definition requeue_head :: "'e \<Rightarrow> 'e unsent_queue \<Rightarrow> 'e unsent_queue" where
  "requeue_head entry q =
     (let tail = uq_tail q; q = drop_head q in
      q\<lparr>uq_slots := (uq_slots q)(tail \<mapsto> entry), uq_tail := next_slot tail\<rparr>)"

text \<open>An unexpectedly empty head slot is skipped.\<close>

definition skip_head :: "'e unsent_queue \<Rightarrow> 'e unsent_queue" where
  "skip_head q = q\<lparr>uq_head := next_slot (uq_head q)\<rparr>"

text \<open>
  The expiry loop of the rewards pallet's \<open>on_era_start\<close>: entries that satisfy \<open>p\<close> are removed
  (the scan stays at the slot, the next entry slid into it), others are passed over. The removed
  entries are collected in order, for the events.
\<close>

partial_function (option) expire_loop ::
  "('e \<Rightarrow> bool) \<Rightarrow> u32 \<Rightarrow> 'e unsent_queue \<Rightarrow> 'e list \<Rightarrow> ('e unsent_queue \<times> 'e list) option" where
  "expire_loop p slot q expired =
     (if slot = uq_tail q then Some (q, expired)
      else (case uq_slots q slot of
              Some entry \<Rightarrow>
                if p entry
                then Option.bind (unsent_queue_remove_slot slot q) (\<lambda>q'. expire_loop p slot q' (expired @ [entry]))
                else expire_loop p (next_slot slot) q expired
            | None \<Rightarrow> expire_loop p (next_slot slot) q expired))"

section \<open>The ring as a list\<close>

definition slot_at :: "'e unsent_queue \<Rightarrow> nat \<Rightarrow> u32" where
  "slot_at q i = word_of_nat ((unat (uq_head q) + i) mod 64)"

abbreviation qlen :: "'e unsent_queue \<Rightarrow> nat" where
  "qlen q \<equiv> unat (unsent_queue_len q)"

definition uq_contents :: "'e unsent_queue \<Rightarrow> 'e list" where
  "uq_contents q = map (\<lambda>i. the (uq_slots q (slot_at q i))) [0..<qlen q]"

text \<open>Head and tail lie in the ring, and exactly the slots from head up to tail are occupied.\<close>

definition uq_valid :: "'e unsent_queue \<Rightarrow> bool" where
  "uq_valid q \<longleftrightarrow> unat (uq_head q) < 64 \<and> unat (uq_tail q) < 64 \<and>
     (\<forall>i<64. uq_slots q (slot_at q i) \<noteq> None \<longleftrightarrow> i < qlen q)"

subsection \<open>Slot arithmetic\<close>

lemma add_mod_64_inj:
  assumes eq: "((h::nat) + i) mod 64 = (h + j) mod 64" and ij: "i < 64" "j < 64"
  shows "i = j"
proof -
  have "64 dvd (int h + int i) - (int h + int j)"
    using eq by (metis mod_eq_dvd_iff of_nat_add of_nat_mod of_nat_numeral)
  then have "64 dvd int i - int j" by simp
  then show ?thesis
    using ij zdvd_imp_le [of 64 "int i - int j"] zdvd_imp_le [of 64 "int j - int i"]
    by (cases i j rule: linorder_cases) (auto simp: dvd_diff_commute)
qed

lemma add_mod_64_diff: "h < 64 \<Longrightarrow> t < 64 \<Longrightarrow> (h + ((t + (64 - h)) mod 64)) mod (64::nat) = t"
proof -
  assume ht: "h < 64" "t < 64"
  have "(h + ((t + (64 - h)) mod 64)) mod 64 = (h + (t + (64 - h))) mod 64" by (rule mod_add_right_eq)
  also have "h + (t + (64 - h)) = t + 64" using ht by simp
  also have "(t + 64) mod 64 = t" using ht by simp
  finally show ?thesis .
qed

lemma unat_wrapping_diff_mod_64:
  assumes h64: "unat (h :: u32) < 64"
  shows "unat ((t - h) mod 64) = (unat t + (64 - unat h)) mod 64"
proof -
  have t: "unat t < 4294967296" using unsigned_less [of t] by simp
  have "unat (t - h) = (unat t + (4294967296 - unat h)) mod 4294967296"
  proof (cases "unat h \<le> unat t")
    case True
    then have "unat t + (4294967296 - unat h) = (unat t - unat h) + 4294967296" using h64 by simp
    then have "(unat t + (4294967296 - unat h)) mod 4294967296 = unat t - unat h"
      using t by (simp only: mod_add_self2 mod_less)
    then show ?thesis using True by (simp only: unat_sub_if' if_True)
  next
    case False
    then show ?thesis using h64 by (simp add: unat_sub_if')
  qed
  then have "unat ((t - h) mod 64) = (unat t + (4294967296 - unat h)) mod 64"
    by (simp add: unat_mod mod_mod_cancel)
  also have "4294967296 - unat h = (64 - unat h) + 64 * 67108863" using h64 by simp
  also have "(unat t + ((64 - unat h) + 64 * 67108863)) mod 64 = (unat t + (64 - unat h)) mod 64"
    by (metis add.assoc mod_mult_self2)
  finally show ?thesis .
qed

lemma unat_next_slot: "unat s < 64 \<Longrightarrow> unat (next_slot s) = (unat s + 1) mod 64"
  by (simp add: next_slot_def UNSENT_QUEUE_CAPACITY_def unat_mod unat_word_ariths)

lemma unat_slot_at: "unat (slot_at q i) = (unat (uq_head q) + i) mod 64"
  by (simp add: slot_at_def unsigned_of_nat take_bit_nat_eq_self order.strict_trans [of _ 64])

lemma slot_at_less [simp]: "unat (slot_at q i) < 64"
  by (simp add: unat_slot_at)

lemma slot_at_0: "unat (uq_head q) < 64 \<Longrightarrow> slot_at q 0 = uq_head q"
  by (simp add: slot_at_def)

lemma next_slot_at [simp]: "next_slot (slot_at q i) = slot_at q (Suc i)"
proof -
  have "unat (next_slot (slot_at q i)) = ((unat (uq_head q) + i) mod 64 + 1) mod 64"
    by (simp only: unat_next_slot slot_at_less unat_slot_at)
  also have "\<dots> = unat (slot_at q (Suc i))"
    by (simp only: mod_add_left_eq unat_slot_at) simp
  finally show ?thesis by (simp only: word_unat_eq_iff)
qed

lemma slot_at_inj: "i < 64 \<Longrightarrow> j < 64 \<Longrightarrow> slot_at q i = slot_at q j \<longleftrightarrow> i = j"
  using add_mod_64_inj by (metis unat_slot_at)

lemma slot_at_cong: "uq_head q' = uq_head q \<Longrightarrow> slot_at q' = slot_at q"
  by (simp add: fun_eq_iff slot_at_def)

lemma slot_at_update [simp]:
  "slot_at (q\<lparr>uq_slots := f\<rparr>) = slot_at q" "slot_at (q\<lparr>uq_tail := t\<rparr>) = slot_at q"
  by (rule slot_at_cong, simp)+

lemma slot_at_shift:
  assumes "uq_head q' = next_slot (uq_head q)" and "unat (uq_head q) < 64"
  shows "slot_at q' i = slot_at q (Suc i)"
proof -
  have "unat (slot_at q' i) = ((unat (uq_head q) + 1) mod 64 + i) mod 64"
    using assms by (simp only: unat_slot_at unat_next_slot)
  also have "\<dots> = unat (slot_at q (Suc i))"
    by (simp only: mod_add_left_eq unat_slot_at) simp
  finally show ?thesis by (simp only: word_unat_eq_iff)
qed

text \<open>Every slot of the ring is one of the 64 slots counted from the head.\<close>

lemma slot_at_ex:
  assumes "unat (uq_head q) < 64" "unat s < 64"
  obtains i where "i < 64" "s = slot_at q i"
proof
  show "(unat s + (64 - unat (uq_head q))) mod 64 < 64" by simp
  show "s = slot_at q ((unat s + (64 - unat (uq_head q))) mod 64)"
    using add_mod_64_diff [OF assms] by (simp only: word_unat_eq_iff unat_slot_at)
qed

lemma qlen_less: "qlen q < 64"
  by (simp add: unsent_queue_len_def UNSENT_QUEUE_CAPACITY_def unat_mod)

text \<open>The length is the distance from head to tail, and determined by it.\<close>

lemma slot_at_qlen: "unat (uq_head q) < 64 \<Longrightarrow> unat (uq_tail q) < 64 \<Longrightarrow> slot_at q (qlen q) = uq_tail q"
  using add_mod_64_diff unat_wrapping_diff_mod_64
  by (simp only: word_unat_eq_iff unat_slot_at unsent_queue_len_def UNSENT_QUEUE_CAPACITY_def)

lemma qlen_eqI:
  assumes "unat (uq_head q) < 64" "uq_tail q = slot_at q n" "n < 64"
  shows "qlen q = n"
proof -
  have "slot_at q (qlen q) = slot_at q n" using slot_at_qlen [of q] assms by simp
  then show ?thesis using assms(3) slot_at_inj qlen_less by blast
qed

subsection \<open>Contents\<close>

lemma uq_validD:
  assumes "uq_valid q"
  shows "unat (uq_head q) < 64" "unat (uq_tail q) < 64" "slot_at q (qlen q) = uq_tail q"
    "i < 64 \<Longrightarrow> uq_slots q (slot_at q i) \<noteq> None \<longleftrightarrow> i < qlen q"
  using assms slot_at_qlen [of q] by (simp_all add: uq_valid_def)

lemma length_uq_contents [simp]: "length (uq_contents q) = qlen q"
  by (simp add: uq_contents_def)

lemma uq_slots_contents:
  assumes "uq_valid q" "i < qlen q"
  shows "uq_slots q (slot_at q i) = Some (uq_contents q ! i)"
proof -
  have "i < 64" using assms(2) qlen_less [of q] by simp
  then show ?thesis using assms uq_validD(4) [OF assms(1), of i] by (auto simp: uq_contents_def)
qed

text \<open>A queue is valid with contents \<open>xs\<close> when its slots hold \<open>xs\<close> from the head on and nothing else.\<close>

lemma uq_contentsI:
  assumes head: "unat (uq_head q) < 64" and tail: "uq_tail q = slot_at q (length xs)"
    and len: "length xs < 64"
    and slots: "\<And>i. i < 64 \<Longrightarrow> uq_slots q (slot_at q i) = (if i < length xs then Some (xs ! i) else None)"
  shows "uq_valid q \<and> uq_contents q = xs"
proof -
  have q: "qlen q = length xs" by (rule qlen_eqI [OF head tail len])
  have "uq_contents q = xs"
    using slots len by (auto simp: uq_contents_def q intro!: nth_equalityI)
  moreover have "uq_valid q"
    using head tail slots by (auto simp: uq_valid_def q)
  ultimately show ?thesis by simp
qed

lemma uq_empty_list: "uq_valid (uq_empty :: 'e unsent_queue) \<and> uq_contents (uq_empty :: 'e unsent_queue) = []"
  by (rule uq_contentsI) (simp_all add: uq_empty_def slot_at_def)

lemmas uq_empty_simps [simp] = uq_empty_list [THEN conjunct1] uq_empty_list [THEN conjunct2]

lemma uq_is_empty_iff:
  assumes "uq_valid q"
  shows "unsent_queue_is_empty q \<longleftrightarrow> uq_contents q = []"
proof -
  have "unsent_queue_is_empty q \<longleftrightarrow> slot_at q 0 = slot_at q (qlen q)"
    using uq_validD(3) [OF assms] slot_at_0 [OF uq_validD(1) [OF assms]]
    by (simp add: unsent_queue_is_empty_def)
  also have "\<dots> \<longleftrightarrow> 0 = qlen q" by (rule slot_at_inj) (simp_all add: qlen_less)
  also have "\<dots> \<longleftrightarrow> uq_contents q = []" by (metis length_0_conv length_uq_contents)
  finally show ?thesis .
qed

lemma uq_head_slot:
  assumes "uq_valid q" "uq_head q \<noteq> uq_tail q"
  shows "uq_slots q (uq_head q) = Some (hd (uq_contents q))" "uq_contents q \<noteq> []"
proof -
  show ne: "uq_contents q \<noteq> []"
    using assms uq_is_empty_iff by (auto simp: unsent_queue_is_empty_def)
  then have "0 < qlen q" by (simp flip: length_uq_contents)
  then show "uq_slots q (uq_head q) = Some (hd (uq_contents q))"
    using uq_slots_contents [OF assms(1), of 0] uq_validD(1) [OF assms(1)] ne
    by (simp add: hd_conv_nth slot_at_0)
qed

subsection \<open>Push, drop, requeue\<close>

lemma uq_push_full: "uq_valid q \<Longrightarrow> next_slot (uq_tail q) = uq_head q \<longleftrightarrow> qlen q = 63"
proof -
  assume v: "uq_valid q"
  have "next_slot (uq_tail q) = slot_at q (Suc (qlen q))"
    using uq_validD(3) [OF v] next_slot_at by metis
  moreover have "uq_head q = slot_at q 0" using uq_validD(1) [OF v] slot_at_0 by metis
  moreover have "slot_at q 64 = slot_at q 0" by (simp add: slot_at_def)
  ultimately show ?thesis
    using slot_at_inj [of "Suc (qlen q)" 0 q] qlen_less [of q]
    by (cases "qlen q = 63") auto
qed

lemma uq_push:
  assumes "uq_valid q"
  shows "qlen q < 63 \<Longrightarrow> fst (unsent_queue_push e q) \<and> uq_valid (snd (unsent_queue_push e q)) \<and>
      uq_contents (snd (unsent_queue_push e q)) = uq_contents q @ [e]"
    and "qlen q = 63 \<Longrightarrow> unsent_queue_push e q = (False, q)"
proof -
  assume l: "qlen q < 63"
  let ?q = "q\<lparr>uq_slots := (uq_slots q)(uq_tail q \<mapsto> e), uq_tail := next_slot (uq_tail q)\<rparr>"
  have t: "uq_tail q = slot_at q (qlen q)" using uq_validD(3) [OF assms] by simp
  have "uq_valid ?q \<and> uq_contents ?q = uq_contents q @ [e]"
  proof (rule uq_contentsI)
    show "unat (uq_head ?q) < 64" using uq_validD(1) [OF assms] by simp
    show "uq_tail ?q = slot_at ?q (length (uq_contents q @ [e]))" by (simp add: t)
    show "length (uq_contents q @ [e]) < 64" using l by simp
    fix i :: nat assume i: "i < 64"
    show "uq_slots ?q (slot_at ?q i)
        = (if i < length (uq_contents q @ [e]) then Some ((uq_contents q @ [e]) ! i) else None)"
      using slot_at_inj [OF i qlen_less, of q q] uq_slots_contents [OF assms, of i] uq_validD(4) [OF assms i]
      by (auto simp: t nth_append less_Suc_eq)
  qed
  then show "fst (unsent_queue_push e q) \<and> uq_valid (snd (unsent_queue_push e q)) \<and>
      uq_contents (snd (unsent_queue_push e q)) = uq_contents q @ [e]"
    using l uq_push_full [OF assms] by (simp add: unsent_queue_push_def Let_def)
next
  assume "qlen q = 63"
  then show "unsent_queue_push e q = (False, q)"
    using uq_push_full [OF assms] by (simp add: unsent_queue_push_def Let_def)
qed

lemma uq_drop_head:
  assumes v: "uq_valid q" and ne: "uq_contents q \<noteq> []"
  shows "uq_valid (drop_head q) \<and> uq_contents (drop_head q) = tl (uq_contents q)"
proof (rule uq_contentsI)
  have at: "slot_at (drop_head q) i = slot_at q (Suc i)" for i
    by (rule slot_at_shift [OF _ uq_validD(1) [OF v]]) (simp add: drop_head_def)
  have pos: "0 < qlen q" using ne by (simp flip: length_uq_contents)
  show "unat (uq_head (drop_head q)) < 64"
    using unat_next_slot [OF uq_validD(1) [OF v]] by (simp add: drop_head_def)
  show "uq_tail (drop_head q) = slot_at (drop_head q) (length (tl (uq_contents q)))"
    using uq_validD(3) [OF v] pos by (simp add: at) (simp add: drop_head_def)
  show "length (tl (uq_contents q)) < 64" using qlen_less [of q] by simp
  have wrap: "slot_at q 64 = uq_head q" using uq_validD(1) [OF v] by (simp add: slot_at_def)
  fix i :: nat assume i: "i < 64"
  have slots: "uq_slots (drop_head q) s = (if s = uq_head q then None else uq_slots q s)" for s
    by (simp add: drop_head_def)
  have len: "length (tl (uq_contents q)) = qlen q - 1" by simp
  show "uq_slots (drop_head q) (slot_at (drop_head q) i)
      = (if i < length (tl (uq_contents q)) then Some (tl (uq_contents q) ! i) else None)"
  proof (cases "Suc i = 64")
    case True
    then have "\<not> i < qlen q - 1" using qlen_less [of q] by linarith
    then show ?thesis using wrap True by (simp add: at slots)
  next
    case False
    then have si: "Suc i < 64" using i by simp
    then have "slot_at q (Suc i) \<noteq> uq_head q"
      using slot_at_inj [of "Suc i" 0 q] slot_at_0 [OF uq_validD(1) [OF v]] by auto
    then have "uq_slots (drop_head q) (slot_at (drop_head q) i) = uq_slots q (slot_at q (Suc i))"
      by (simp add: at slots)
    also have "\<dots> = (if i < length (tl (uq_contents q)) then Some (tl (uq_contents q) ! i) else None)"
    proof (cases "Suc i < qlen q")
      case True
      then show ?thesis using uq_slots_contents [OF v True] by (simp add: nth_tl less_diff_conv)
    next
      case False
      then show ?thesis using uq_validD(4) [OF v si] by (auto simp: less_diff_conv)
    qed
    finally show ?thesis .
  qed
qed

text \<open>Requeueing is dropping the head and pushing it back, which never finds the ring full.\<close>

lemma uq_requeue_head:
  assumes v: "uq_valid q" and ne: "uq_contents q \<noteq> []"
  shows "uq_valid (requeue_head e q) \<and> uq_contents (requeue_head e q) = tl (uq_contents q) @ [e]"
proof -
  have d: "uq_valid (drop_head q)" "uq_contents (drop_head q) = tl (uq_contents q)"
    using uq_drop_head [OF v ne] by auto
  have "0 < qlen q" using ne by (simp flip: length_uq_contents)
  moreover have "qlen (drop_head q) = qlen q - 1"
    using d(2) by (metis length_tl length_uq_contents)
  ultimately have l: "qlen (drop_head q) < 63" using qlen_less [of q] by simp
  have "requeue_head e q = snd (unsent_queue_push e (drop_head q))"
    using l uq_push_full [OF d(1)]
    by (simp add: requeue_head_def unsent_queue_push_def Let_def) (simp add: drop_head_def)
  then show ?thesis using uq_push(1) [OF d(1) l] d(2) by simp
qed

subsection \<open>Scanning\<close>

text \<open>The scan from position \<open>i\<close> returns, and finds the first entry at or after it.\<close>

lemma find_slot_from:
  assumes v: "uq_valid q"
  shows "i \<le> qlen q \<Longrightarrow> find_slot p (uq_tail q) (uq_slots q) (slot_at q i)
     = Some (map_option (\<lambda>j. (slot_at q j, uq_contents q ! j)) (find (\<lambda>j. p (uq_contents q ! j)) [i..<qlen q]))"
proof (induction "qlen q - i" arbitrary: i)
  case 0
  then have "slot_at q i = uq_tail q" using uq_validD(3) [OF v] by simp
  with 0 show ?case by (simp add: find_slot.simps)
next
  case (Suc d)
  then have i: "i < qlen q" by simp
  then have "slot_at q i \<noteq> slot_at q (qlen q)"
    using slot_at_inj [of i "qlen q" q] qlen_less [of q] by simp
  then have ne: "slot_at q i \<noteq> uq_tail q" using uq_validD(3) [OF v] by simp
  have IH: "find_slot p (uq_tail q) (uq_slots q) (slot_at q (Suc i))
     = Some (map_option (\<lambda>j. (slot_at q j, uq_contents q ! j)) (find (\<lambda>j. p (uq_contents q ! j)) [Suc i..<qlen q]))"
    using Suc(1) [of "Suc i"] Suc(2) i by simp
  show ?case
    using ne IH uq_slots_contents [OF v i] by (simp add: find_slot.simps [of p _ _ "slot_at q i"] upt_conv_Cons [OF i])
qed

lemma find_slot_head:
  assumes v: "uq_valid q"
  shows "find_slot p (uq_tail q) (uq_slots q) (uq_head q)
     = Some (map_option (\<lambda>j. (slot_at q j, uq_contents q ! j)) (find (\<lambda>j. p (uq_contents q ! j)) [0..<qlen q]))"
  using find_slot_from [OF v, of 0 p] slot_at_0 [OF uq_validD(1) [OF v]] by simp

subsection \<open>Removing a slot\<close>

lemma shift_back_from:
  fixes q :: "'e unsent_queue"
  assumes head: "unat (uq_head q) < 64" and n: "n < 64"
  shows "k < n \<Longrightarrow> \<forall>i<n. slots (slot_at q i) \<noteq> None \<Longrightarrow>
    \<exists>slots'. shift_back (slot_at q n) (slot_at q k) slots = Some (slot_at q (n - 1), slots') \<and>
      (\<forall>j<64. slots' (slot_at q j) = (if k \<le> j \<and> Suc j < n then slots (slot_at q (Suc j)) else slots (slot_at q j)))"
proof (induction "n - 1 - k" arbitrary: k slots)
  case 0
  then have "n = Suc k" by simp
  then show ?case by (auto simp: shift_back.simps [of _ "slot_at q k"] Let_def)
next
  case (Suc d)
  then have sk: "Suc k < n" by simp
  then have ne: "slot_at q (Suc k) \<noteq> slot_at q n" using slot_at_inj [of "Suc k" n q] n by simp
  obtain e where e: "slots (slot_at q (Suc k)) = Some e" using Suc.prems(2) sk by blast
  let ?s = "slots(slot_at q k \<mapsto> e)"
  have s: "?s (slot_at q j) = (if j = k then slots (slot_at q (Suc k)) else slots (slot_at q j))" if "j < 64" for j
    using that slot_at_inj [OF that, of k q] sk n e by auto
  have occ: "\<forall>i<n. ?s (slot_at q i) \<noteq> None" using Suc.prems(2) by auto
  have "d = n - 1 - Suc k" using Suc(2) by simp
  from Suc(1) [OF this sk occ] obtain slots' where
    run: "shift_back (slot_at q n) (slot_at q (Suc k)) ?s = Some (slot_at q (n - 1), slots')" and
    at: "\<forall>j<64. slots' (slot_at q j) = (if Suc k \<le> j \<and> Suc j < n then ?s (slot_at q (Suc j)) else ?s (slot_at q j))"
    by blast
  have "shift_back (slot_at q n) (slot_at q k) slots = Some (slot_at q (n - 1), slots')"
    using ne run e by (simp add: shift_back.simps [of _ "slot_at q k"] Let_def)
  moreover have "slots' (slot_at q j) = (if k \<le> j \<and> Suc j < n then slots (slot_at q (Suc j)) else slots (slot_at q j))"
    if j: "j < 64" for j
    using at j s [OF j] s [of "Suc j"] sk n by (auto simp: le_Suc_eq)
  ultimately show ?case by blast
qed

lemma prev_slot:
  assumes "unat (uq_head q) < 64" "0 < n"
  shows "(if slot_at q n = 0 then UNSENT_QUEUE_CAPACITY - 1 else slot_at q n - 1) = slot_at q (n - 1)"
proof -
  let ?p = "slot_at q (n - 1)"
  have p: "unat ?p < 64" by simp
  have "slot_at q n = next_slot ?p" using assms(2) by (simp only: next_slot_at Suc_diff_1)
  then have u: "unat (slot_at q n) = (unat ?p + 1) mod 64" using unat_next_slot [OF p] by simp
  show ?thesis
  proof (cases "unat ?p = 63")
    case True
    then have "slot_at q n = 0" using u by (simp add: word_unat_eq_iff)
    then show ?thesis using True by (simp add: UNSENT_QUEUE_CAPACITY_def word_unat_eq_iff)
  next
    case False
    then have "unat ?p + 1 < 64" using p by linarith
    then have u': "unat (slot_at q n) = unat ?p + 1" using u by (simp only: mod_less)
    then have "slot_at q n \<noteq> 0" by (auto simp: word_unat_eq_iff)
    moreover from this have "unat (slot_at q n - 1) = unat ?p"
      using u' by (simp add: unat_minus_one)
    ultimately show ?thesis by (simp add: word_unat_eq_iff)
  qed
qed

lemma uq_remove_slot:
  assumes v: "uq_valid q" and k: "k < qlen q"
  shows "\<exists>q'. unsent_queue_remove_slot (slot_at q k) q = Some q' \<and> uq_head q' = uq_head q \<and>
     uq_valid q' \<and> uq_contents q' = take k (uq_contents q) @ drop (Suc k) (uq_contents q)"
proof -
  let ?n = "qlen q" and ?xs = "uq_contents q"
  note head = uq_validD(1) [OF v] and tail = uq_validD(3) [OF v]
  have n: "?n < 64" by (rule qlen_less)
  have occ: "\<forall>i<?n. uq_slots q (slot_at q i) \<noteq> None" using uq_slots_contents [OF v] by simp
  obtain slots' where
    run: "shift_back (uq_tail q) (slot_at q k) (uq_slots q) = Some (slot_at q (?n - 1), slots')" and
    at: "\<forall>j<64. slots' (slot_at q j) = (if k \<le> j \<and> Suc j < ?n then uq_slots q (slot_at q (Suc j)) else uq_slots q (slot_at q j))"
    using shift_back_from [OF head n k occ] tail by auto
  let ?q = "q\<lparr>uq_slots := slots'(slot_at q (?n - 1) := None), uq_tail := slot_at q (?n - 1)\<rparr>"
  have new_tail: "(if uq_tail q = 0 then UNSENT_QUEUE_CAPACITY - 1 else uq_tail q - 1) = slot_at q (?n - 1)"
    using prev_slot [OF head, of ?n, unfolded tail] k by simp
  have "uq_head q \<noteq> uq_tail q"
    using slot_at_0 [OF head] tail slot_at_inj [of 0 ?n q] n k by auto
  then have rem: "unsent_queue_remove_slot (slot_at q k) q = Some ?q"
    using run by (simp add: unsent_queue_remove_slot_def Let_def new_tail)
  have len: "length (take k ?xs @ drop (Suc k) ?xs) = ?n - 1" using k by simp
  have "uq_valid ?q \<and> uq_contents ?q = take k ?xs @ drop (Suc k) ?xs"
  proof (rule uq_contentsI)
    show "unat (uq_head ?q) < 64" using head by simp
    show "uq_tail ?q = slot_at ?q (length (take k ?xs @ drop (Suc k) ?xs))" by (simp only: len) simp
    show "length (take k ?xs @ drop (Suc k) ?xs) < 64" using len n by simp
    fix i :: nat assume i: "i < 64"
    have last: "slot_at q i = slot_at q (?n - 1) \<longleftrightarrow> i = ?n - 1" using slot_at_inj [OF i, of "?n - 1" q] n by simp
    show "uq_slots ?q (slot_at ?q i) = (if i < length (take k ?xs @ drop (Suc k) ?xs)
        then Some ((take k ?xs @ drop (Suc k) ?xs) ! i) else None)"
    proof (cases "i < ?n - 1")
      case True
      then have "uq_slots ?q (slot_at ?q i) = Some (?xs ! (if k \<le> i then Suc i else i))"
        using last at i uq_slots_contents [OF v, of "Suc i"] uq_slots_contents [OF v, of i] by auto
      then show ?thesis using True k by (simp only: len) (auto simp: nth_append min_def)
    next
      case False
      then have "uq_slots ?q (slot_at ?q i) = None"
        using last at i uq_validD(4) [OF v i] k by auto
      then show ?thesis using False by (simp only: len) simp
    qed
  qed
  then show ?thesis using rem by auto
qed

subsection \<open>Expiring entries\<close>

lemma expire_loop_from:
  "uq_valid q \<Longrightarrow> i \<le> qlen q \<Longrightarrow>
   \<exists>q'. expire_loop p (slot_at q i) q acc = Some (q', acc @ filter p (drop i (uq_contents q))) \<and> uq_valid q' \<and>
     uq_contents q' = take i (uq_contents q) @ filter (\<lambda>e. \<not> p e) (drop i (uq_contents q))"
proof (induction "qlen q - i" arbitrary: i q acc)
  case 0
  then have "slot_at q i = uq_tail q" using uq_validD(3) [OF "0.prems"(1)] by simp
  with 0 show ?case by (simp add: expire_loop.simps)
next
  case (Suc d)
  then have i: "i < qlen q" by simp
  note v = Suc.prems(1)
  have ne: "slot_at q i \<noteq> uq_tail q"
    using slot_at_inj [of i "qlen q" q] qlen_less [of q] uq_validD(3) [OF v] i by simp
  have dr: "drop i (uq_contents q) = uq_contents q ! i # drop (Suc i) (uq_contents q)"
    using i by (simp add: Cons_nth_drop_Suc)
  let ?e = "uq_contents q ! i"
  have at: "uq_slots q (slot_at q i) = Some ?e" by (rule uq_slots_contents [OF v i])
  show ?case
  proof (cases "p ?e")
    case True
    obtain q1 where q1: "unsent_queue_remove_slot (slot_at q i) q = Some q1" "uq_head q1 = uq_head q"
        "uq_valid q1" "uq_contents q1 = take i (uq_contents q) @ drop (Suc i) (uq_contents q)"
      using uq_remove_slot [OF v i] by blast
    have "length (uq_contents q1) = qlen q - 1" using q1(4) i by simp
    then have l1: "qlen q1 = qlen q - 1" by simp
    have "slot_at q1 i = slot_at q i" using slot_at_cong [OF q1(2)] by simp
    then have "expire_loop p (slot_at q i) q acc = expire_loop p (slot_at q1 i) q1 (acc @ [?e])"
      using ne at True q1(1) by (simp add: expire_loop.simps [of p "slot_at q i" q])
    moreover have "d = qlen q1 - i" "i \<le> qlen q1" using l1 Suc(2) i by simp_all
    from Suc(1) [OF this(1) q1(3) this(2), of "acc @ [?e]"] obtain q' where "expire_loop p (slot_at q1 i) q1 (acc @ [?e])
          = Some (q', (acc @ [?e]) @ filter p (drop i (uq_contents q1)))" "uq_valid q'"
        "uq_contents q' = take i (uq_contents q1) @ filter (\<lambda>e. \<not> p e) (drop i (uq_contents q1))"
      by blast
    ultimately show ?thesis using q1(4) dr True i by (auto simp: min_def)
  next
    case False
    have step: "expire_loop p (slot_at q i) q acc = expire_loop p (slot_at q (Suc i)) q acc"
      using ne at False by (simp add: expire_loop.simps [of p "slot_at q i" q])
    have "d = qlen q - Suc i" "Suc i \<le> qlen q" using Suc(2) i by simp_all
    from Suc(1) [OF this(1) v this(2), of acc] obtain q' where
      "expire_loop p (slot_at q (Suc i)) q acc = Some (q', acc @ filter p (drop (Suc i) (uq_contents q)))"
      "uq_valid q'" "uq_contents q' = take (Suc i) (uq_contents q) @ filter (\<lambda>e. \<not> p e) (drop (Suc i) (uq_contents q))"
      by blast
    then show ?thesis using step dr False i by (auto simp: take_Suc_conv_app_nth)
  qed
qed

lemma expire_loop_head:
  assumes v: "uq_valid q"
  shows "\<exists>q'. expire_loop p (uq_head q) q [] = Some (q', filter p (uq_contents q)) \<and> uq_valid q' \<and>
     uq_contents q' = filter (\<lambda>e. \<not> p e) (uq_contents q)"
  using expire_loop_from [OF v, of 0 p "[]"] slot_at_0 [OF uq_validD(1) [OF v]] by simp

section \<open>The interface of a retry queue\<close>

text \<open>
  What a pallet's block hook relies on: a valid state holds a bounded list of entries; a push appends
  unless the queue is full, and reports which; a successful send drops the first entry; a failed one
  moves it to the back. The consequences proved here once are the fairness of the retries (after \<open>k\<close>
  failures the entry that stood at position \<open>k\<close> is next, and after a full round the order is the
  original one) and that successful sends drain the queue in order.
\<close>

locale retry_queue =
  fixes valid :: "'s \<Rightarrow> bool"
    and contents :: "'s \<Rightarrow> 'e list"
    and push :: "'e \<Rightarrow> 's \<Rightarrow> bool \<times> 's"
    and sent :: "'s \<Rightarrow> 's"
    and failed :: "'s \<Rightarrow> 's"
    and capacity :: nat
  assumes contents_bound: "valid s \<Longrightarrow> length (contents s) \<le> capacity"
    and push_room: "valid s \<Longrightarrow> length (contents s) < capacity \<Longrightarrow>
      fst (push e s) \<and> valid (snd (push e s)) \<and> contents (snd (push e s)) = contents s @ [e]"
    and push_full: "valid s \<Longrightarrow> length (contents s) = capacity \<Longrightarrow>
      \<not> fst (push e s) \<and> valid (snd (push e s)) \<and> contents (snd (push e s)) = contents s"
    and sent_valid: "valid s \<Longrightarrow> contents s \<noteq> [] \<Longrightarrow> valid (sent s)"
    and sent_contents: "valid s \<Longrightarrow> contents s \<noteq> [] \<Longrightarrow> contents (sent s) = tl (contents s)"
    and failed_valid: "valid s \<Longrightarrow> contents s \<noteq> [] \<Longrightarrow> valid (failed s)"
    and failed_contents: "valid s \<Longrightarrow> contents s \<noteq> [] \<Longrightarrow> contents (failed s) = rotate1 (contents s)"
begin

lemma push_valid: "valid s \<Longrightarrow> valid (snd (push e s))"
  using push_room [of s e] push_full [of s e] contents_bound [of s] by fastforce

lemma push_contents: "valid s \<Longrightarrow>
    contents (snd (push e s)) = (if length (contents s) < capacity then contents s @ [e] else contents s)"
  using push_room [of s e] push_full [of s e] contents_bound [of s] by fastforce

lemma push_reports: "valid s \<Longrightarrow> fst (push e s) \<longleftrightarrow> length (contents s) < capacity"
  using push_room [of s e] push_full [of s e] contents_bound [of s] by fastforce

lemma failed_round:
  assumes "valid s" "contents s \<noteq> []"
  shows "valid ((failed ^^ k) s) \<and> contents ((failed ^^ k) s) = (rotate1 ^^ k) (contents s)"
proof (induction k)
  case (Suc k)
  moreover have "(rotate1 ^^ k) (contents s) \<noteq> []"
    using assms(2) rotate_is_Nil_conv [of k "contents s"] by (simp add: rotate_def)
  ultimately show ?case using failed_valid failed_contents by simp
qed (use assms in simp)

lemma failed_next:
  assumes "valid s" "k < length (contents s)"
  shows "hd (contents ((failed ^^ k) s)) = contents s ! k"
proof -
  have "contents s \<noteq> []" using assms(2) by auto
  then show ?thesis using failed_round [OF assms(1)] assms(2) by (simp add: rotate1_pow_hd)
qed

lemma failed_full_round:
  assumes "valid s" "contents s \<noteq> []"
  shows "contents ((failed ^^ length (contents s)) s) = contents s"
  using failed_round [OF assms] by (simp add: rotate1_pow_length)

lemma failed_keeps_entries:
  assumes "valid s" "contents s \<noteq> []"
  shows "set (contents ((failed ^^ k) s)) = set (contents s)"
  using failed_round [OF assms] by (simp flip: rotate_def)

lemma sent_drains:
  assumes "valid s" "k \<le> length (contents s)"
  shows "valid ((sent ^^ k) s) \<and> contents ((sent ^^ k) s) = drop k (contents s)"
  using assms(2)
proof (induction k)
  case (Suc k)
  then have "drop k (contents s) \<noteq> []" by simp
  then show ?case using Suc sent_valid sent_contents by (simp add: drop_Suc tl_drop)
qed (use assms in simp)

end

text \<open>The ring buffer meets the interface with room for 63 entries: one slot stays free.\<close>

definition requeue_first :: "'e unsent_queue \<Rightarrow> 'e unsent_queue" where
  "requeue_first q = requeue_head (the (uq_slots q (uq_head q))) q"

lemma uq_requeue_first:
  assumes v: "uq_valid q" and ne: "uq_contents q \<noteq> []"
  shows "uq_valid (requeue_first q) \<and> uq_contents (requeue_first q) = rotate1 (uq_contents q)"
proof -
  have "uq_head q \<noteq> uq_tail q" using uq_is_empty_iff [OF v] ne by (simp add: unsent_queue_is_empty_def)
  then have "requeue_first q = requeue_head (hd (uq_contents q)) q"
    using uq_head_slot(1) [OF v] by (simp add: requeue_first_def)
  then show ?thesis using uq_requeue_head [OF v ne, of "hd (uq_contents q)"] ne
    by (simp add: rotate1_hd_tl)
qed

interpretation ring: retry_queue uq_valid uq_contents unsent_queue_push drop_head requeue_first 63
proof unfold_locales
  fix q :: "'e unsent_queue" and e assume v: "uq_valid q"
  show "length (uq_contents q) \<le> 63" using qlen_less [of q] by simp
  show "length (uq_contents q) < 63 \<Longrightarrow> fst (unsent_queue_push e q) \<and> uq_valid (snd (unsent_queue_push e q)) \<and>
      uq_contents (snd (unsent_queue_push e q)) = uq_contents q @ [e]"
    using uq_push(1) [OF v] by simp
  show "length (uq_contents q) = 63 \<Longrightarrow> \<not> fst (unsent_queue_push e q) \<and> uq_valid (snd (unsent_queue_push e q)) \<and>
      uq_contents (snd (unsent_queue_push e q)) = uq_contents q"
    using uq_push(2) [OF v] v by simp
  assume ne: "uq_contents q \<noteq> []"
  show "uq_valid (drop_head q)" "uq_contents (drop_head q) = tl (uq_contents q)"
    using uq_drop_head [OF v ne] by simp_all
  show "uq_valid (requeue_first q)" "uq_contents (requeue_first q) = rotate1 (uq_contents q)"
    using uq_requeue_first [OF v ne] by simp_all
qed

section \<open>The interface of a block hook\<close>

text \<open>
  What the block hook of a pallet does to its queue, whatever the outcome of the send: the first entry
  leaves, or moves to the back. Then the entry at position \<open>j\<close> is attempted in the \<open>j\<close>-th following
  block, and what is left behind the untried entries are tried ones that failed, in order.
\<close>

locale retry_hook =
  fixes valid :: "'s \<Rightarrow> bool"
    and contents :: "'s \<Rightarrow> 'e list"
    and step :: "'s \<Rightarrow> 's"
  assumes step_valid: "valid s \<Longrightarrow> valid (step s)"
    and step_empty: "valid s \<Longrightarrow> contents s = [] \<Longrightarrow> contents (step s) = []"
    and step_head: "valid s \<Longrightarrow> contents s = e # es \<Longrightarrow> contents (step s) = es \<or> contents (step s) = es @ [e]"
begin

lemma run_valid: "valid s \<Longrightarrow> valid ((step ^^ j) s)"
  by (induction j) (simp_all add: step_valid)

lemma run:
  assumes v: "valid s"
  shows "j \<le> length (contents s) \<Longrightarrow>
    \<exists>ys. subseq ys (take j (contents s)) \<and> contents ((step ^^ j) s) = drop j (contents s) @ ys"
proof (induction j)
  case (Suc j)
  then obtain ys where ys: "subseq ys (take j (contents s))" "contents ((step ^^ j) s) = drop j (contents s) @ ys"
    by auto
  let ?e = "contents s ! j"
  have "drop j (contents s) = ?e # drop (Suc j) (contents s)"
    using Suc.prems by (simp add: Cons_nth_drop_Suc)
  then have "contents (step ((step ^^ j) s)) = drop (Suc j) (contents s) @ ys \<or>
      contents (step ((step ^^ j) s)) = drop (Suc j) (contents s) @ ys @ [?e]"
    using step_head [OF run_valid [OF v], of j ?e "drop (Suc j) (contents s) @ ys"] ys(2) by simp
  moreover have "subseq ys (take (Suc j) (contents s))" "subseq (ys @ [?e]) (take (Suc j) (contents s))"
    using ys(1) Suc.prems by (simp_all add: take_Suc_conv_app_nth list_emb_prefix list_emb_append_mono)
  ultimately show ?case by auto
qed simp

lemma run_attempts:
  assumes "valid s" "j < length (contents s)"
  shows "contents ((step ^^ j) s) \<noteq> [] \<and> hd (contents ((step ^^ j) s)) = contents s ! j"
  using run [OF assms(1), of j] assms(2) by (auto simp: hd_append hd_drop_conv_nth)

lemma run_keeps:
  assumes v: "valid s"
  shows "set (contents ((step ^^ j) s)) \<subseteq> set (contents s)"
proof (induction j)
  case (Suc j)
  have "set (contents (step t)) \<subseteq> set (contents t)" if "valid t" for t
    using step_empty [OF that] step_head [OF that] by (cases "contents t") force+
  then show ?case using Suc run_valid [OF v, of j] by fastforce
qed simp

end

end
