(* ===== verification/Validator_Slashes.thy ===== *)
theory Validator_Slashes
  imports External_Validators Unsent_Queue "HOL-Library.AList"
begin

text \<open>
  The external-validator-slashes pallet (\<open>operator/pallets/external-validator-slashes/src/lib.rs\<close>):
  offences become slash records, deferred to a later era, moved into the retry ring buffer when that
  era starts, and sent to Ethereum batch by batch. The era data comes from the external-validators pallet.
  Sending is the interface \<open>SendMessage\<close>: a record of functions over the state \<open>'w\<close> of the pallets behind it.
\<close>

section \<open>Data\<close>

text \<open>A \<open>Custom\<close> offence carries a byte string; \<open>lossy\<close> is the standard library's lossy UTF-8 decoding.\<close>

datatype offence_kind = LivenessOffence | BabeEquivocation | GrandpaEquivocation | BeefyEquivocation | Custom string

fun to_description :: "(string \<Rightarrow> string) \<Rightarrow> offence_kind \<Rightarrow> string" where
  "to_description lossy LivenessOffence = ''Liveness offence''"
| "to_description lossy BabeEquivocation = ''BABE equivocation''"
| "to_description lossy GrandpaEquivocation = ''GRANDPA equivocation''"
| "to_description lossy BeefyEquivocation = ''BEEFY equivocation''"
| "to_description lossy (Custom desc) = lossy desc"

record slash_data =
  sd_validator :: AccountId
  sd_wad_to_slash :: nat
  sd_description :: string

record slash =
  validator :: AccountId
  reporters :: "AccountId list"
  slash_id :: nat
  percentage :: perbill
  confirmed :: bool
  slash_offence :: offence_kind

type_synonym slash_batch = "EraIndex \<times> slash list"

datatype slashing_mode = Enabled | LogOnly | Disabled

datatype sl_event =
    SlashReported AccountId perbill EraIndex
  | SlashesMessageSent H256
  | SlashesMessageSendFailed EraIndex nat
  | SlashesMessageRetried H256 EraIndex nat
  | SlashInjected nat EraIndex
  | SlashAddedToQueue nat EraIndex
  | UnsentQueueFull EraIndex

datatype sl_error =
    SlBadOrigin
  | EmptyTargets
  | InvalidSlashIndex
  | NotSortedAndUnique
  | ProvidedFutureEra
  | ProvidedNonSlashableEra
  | DeferPeriodIsOver
  | ErrorComputingSlash
  | EthereumValidateFail
  | EthereumDeliverFail
  | RootTestInvalidParams
  | MissingOffenceKind
  | EraNotInUnsentQueue
  | MessageSendFailed

datatype process_slashes_queue_outcome = Empty | Sent nat | Requeued nat

record sl_config =
  SlashDeferDuration :: EraIndex
  BondingDuration :: EraIndex
  MaxSlashWad :: nat
  QueuedSlashesProcessedPerBlock :: nat
  sl_GovernanceOrigin :: "origin \<Rightarrow> bool"
  from_utf8_lossy :: "string \<Rightarrow> string"
  twox_64_concat :: "AccountId \<Rightarrow> nat"

text \<open>
  \<open>ValidatorSlashInEra\<close> is a double map: per era, the entries by validator. A bounded removal walks
  them in the order of their hashed storage keys, \<open>twox_64_concat\<close>. The calls that the pallet
  makes to prune the historical session roots are collected in \<open>historical_pruned\<close>.
\<close>

record sl_state =
  ValidatorSlashInEra :: "EraIndex \<Rightarrow> (AccountId \<times> perbill) list"
  BondedEras :: "(EraIndex \<times> SessionIndex \<times> nat) list"
  NextSlashId :: nat
  Slashes :: "EraIndex \<Rightarrow> slash list"
  UnsentSlashes :: "slash_batch unsent_queue"
  SlashingMode :: slashing_mode
  PendingOffenceKind :: "SessionIndex \<times> AccountId \<rightharpoonup> offence_kind"
  sl_events :: "sl_event list"
  historical_pruned :: "SessionIndex list"

definition sl_deposit :: "sl_event \<Rightarrow> sl_state \<Rightarrow> sl_state" where
  "sl_deposit e s = s\<lparr>sl_events := sl_events s @ [e]\<rparr>"

text \<open>The default storage with the genesis slashing mode.\<close>

definition sl_build :: "slashing_mode \<Rightarrow> sl_state" where
  "sl_build mode = \<lparr>ValidatorSlashInEra = (\<lambda>_. []), BondedEras = [], NextSlashId = 0, Slashes = (\<lambda>_. []),
     UnsentSlashes = uq_empty, SlashingMode = mode, PendingOffenceKind = Map.empty, sl_events = [],
     historical_pruned = []\<rparr>"

text \<open>
  \<open>SendMessage\<close>: building a message, validating it into a ticket, delivering the ticket. Each may touch
  the state behind it; \<open>None\<close> stands for every failure.
\<close>

record ('d, 'm, 't, 'w) send_message =
  sm_build :: "'d \<Rightarrow> 'w \<Rightarrow> 'm option \<times> 'w"
  sm_validate :: "'m \<Rightarrow> 'w \<Rightarrow> 't option"
  sm_deliver :: "'t \<Rightarrow> 'w \<Rightarrow> H256 option \<times> 'w"

definition send_via :: "('d, 'm, 't, 'w) send_message \<Rightarrow> 'd \<Rightarrow> 'w \<Rightarrow> H256 option \<times> 'w" where
  "send_via sm d w =
     (case sm_build sm d w of
        (None, w) \<Rightarrow> (None, w)
      | (Some outbound, w) \<Rightarrow>
          (case sm_validate sm outbound w of
             None \<Rightarrow> (None, w)
           | Some ticket \<Rightarrow> sm_deliver sm ticket w))"

section \<open>Computing and recording slashes\<close>

definition compute_slash ::
  "perbill \<Rightarrow> nat \<Rightarrow> EraIndex \<Rightarrow> AccountId \<Rightarrow> EraIndex \<Rightarrow> offence_kind \<Rightarrow> sl_state \<Rightarrow> slash option \<times> sl_state" where
  "compute_slash slash_fraction sid slash_era stash slash_defer_duration kind s =
     (let prior_slash_p = (case map_of (ValidatorSlashInEra s slash_era) stash of Some p \<Rightarrow> p | None \<Rightarrow> 0) in
      if prior_slash_p < slash_fraction
      then (Some \<lparr>validator = stash, reporters = [], slash_id = sid, percentage = slash_fraction,
                  confirmed = (slash_defer_duration = 0), slash_offence = kind\<rparr>,
            s\<lparr>ValidatorSlashInEra := (ValidatorSlashInEra s)
                (slash_era := AList.update stash slash_fraction (ValidatorSlashInEra s slash_era))\<rparr>)
      else (None, s))"

definition push_slash :: "EraIndex \<Rightarrow> slash \<Rightarrow> sl_state \<Rightarrow> sl_state" where
  "push_slash era sl s = s\<lparr>Slashes := (Slashes s)(era := Slashes s era @ [sl])\<rparr>"

text \<open>The era a slash belongs to: the active one, or the last bonded one that began by then.\<close>

definition slash_era_of :: "ev_state \<Rightarrow> SessionIndex \<Rightarrow> sl_state \<Rightarrow> EraIndex option" where
  "slash_era_of ev slash_session s =
     (let active_era = ae_index (ev_active_era ev);
          active_era_start = (case era_to_session_start ev active_era of Some i \<Rightarrow> i | None \<Rightarrow> 0) in
      if active_era_start \<le> slash_session then Some active_era
      else map_option fst (find (\<lambda>(_, sesh, _). sesh \<le> slash_session) (rev (BondedEras s))))"

text \<open>The era under which the slash waits: after the active era, or after the deferral of its own.\<close>

definition deferred_to :: "sl_config \<Rightarrow> EraIndex \<Rightarrow> EraIndex \<Rightarrow> EraIndex" where
  "deferred_to cfg active_era slash_era =
     (if SlashDeferDuration cfg = 0 then sat_add32 active_era 1
      else sat_add32 (sat_add32 slash_era (SlashDeferDuration cfg)) 1)"

definition offence_step ::
  "sl_config \<Rightarrow> ev_state \<Rightarrow> SessionIndex \<Rightarrow> EraIndex \<Rightarrow> (AccountId \<times> AccountId list) \<times> perbill \<Rightarrow>
   nat \<times> sl_state \<Rightarrow> nat \<times> sl_state" where
  "offence_step cfg ev slash_session slash_era offender_fraction ns =
     (let ((stash, reps), slash_fraction) = offender_fraction; (next_slash_id, s) = ns in
      case PendingOffenceKind s (slash_session, stash) of
        None \<Rightarrow> (next_slash_id, s)
      | Some kind \<Rightarrow>
          (let s = s\<lparr>PendingOffenceKind := (PendingOffenceKind s)((slash_session, stash) := None)\<rparr> in
           if stash \<in> set (invulnerables ev) then (next_slash_id, s)
           else (let s = sl_deposit (SlashReported stash slash_fraction slash_era) s in
             if SlashingMode s = LogOnly then (next_slash_id, s)
             else (case compute_slash slash_fraction next_slash_id slash_era stash (SlashDeferDuration cfg) kind s of
                     (None, s) \<Rightarrow> (next_slash_id, s)
                   | (Some sl, s) \<Rightarrow>
                       (sat_add32 next_slash_id 1,
                        push_slash (deferred_to cfg (ae_index (ev_active_era ev)) slash_era) (sl\<lparr>reporters := reps\<rparr>) s)))))"

definition on_offence ::
  "sl_config \<Rightarrow> ev_state \<Rightarrow> (AccountId \<times> AccountId list) list \<Rightarrow> perbill list \<Rightarrow> SessionIndex \<Rightarrow> sl_state \<Rightarrow> sl_state" where
  "on_offence cfg ev offenders slash_fraction slash_session s =
     (if SlashingMode s = Disabled then s
      else (case slash_era_of ev slash_session s of
              None \<Rightarrow> s
            | Some slash_era \<Rightarrow>
                (let (next_slash_id, s) =
                   fold (offence_step cfg ev slash_session slash_era) (zip offenders slash_fraction) (NextSlashId s, s)
                 in s\<lparr>NextSlashId := next_slash_id\<rparr>)))"

section \<open>Calls\<close>

definition is_sorted_and_unique :: "nat list \<Rightarrow> bool" where
  "is_sorted_and_unique xs \<longleftrightarrow> (\<forall>i < length xs - 1. xs ! i < xs ! Suc i)"

definition cancel_deferred_slash ::
  "sl_config \<Rightarrow> ev_state \<Rightarrow> origin \<Rightarrow> EraIndex \<Rightarrow> nat list \<Rightarrow> sl_state \<Rightarrow> sl_error + sl_state" where
  "cancel_deferred_slash cfg ev og era slash_indices s =
     (if \<not> ensure_root og then Inl SlBadOrigin
      else let active_era = ae_index (ev_active_era ev) in
      if \<not> (era \<le> sat_add32 active_era (sat_add32 (SlashDeferDuration cfg) 1) \<and> active_era < era) then Inl DeferPeriodIsOver
      else if slash_indices = [] then Inl EmptyTargets
      else if \<not> is_sorted_and_unique slash_indices then Inl NotSortedAndUnique
      else let era_slashes = Slashes s era; last_item = slash_indices ! (length slash_indices - 1) in
      if \<not> last_item < length era_slashes then Inl InvalidSlashIndex
      else Inr (s\<lparr>Slashes := (Slashes s)(era := fold remove_nth (rev slash_indices) era_slashes)\<rparr>))"

definition force_inject_slash ::
  "sl_config \<Rightarrow> ev_state \<Rightarrow> origin \<Rightarrow> EraIndex \<Rightarrow> AccountId \<Rightarrow> perbill \<Rightarrow> offence_kind \<Rightarrow> sl_state \<Rightarrow> sl_error + sl_state" where
  "force_inject_slash cfg ev og era who pct kind s =
     (if \<not> ensure_root og then Inl SlBadOrigin
      else let active_era = ae_index (ev_active_era ev) in
      if \<not> era \<le> active_era then Inl ProvidedFutureEra
      else if era_to_session_start ev era = None then Inl ProvidedNonSlashableEra
      else let next_slash_id = NextSlashId s; slash_defer_duration = SlashDeferDuration cfg in
      case compute_slash pct next_slash_id era who slash_defer_duration kind s of
        (None, _) \<Rightarrow> Inl ErrorComputingSlash
      | (Some sl, s) \<Rightarrow>
          (let era_to_consider = (if slash_defer_duration = 0 then sat_add32 era 1
                                  else sat_add32 (sat_add32 era slash_defer_duration) 1);
               s = push_slash era_to_consider sl s;
               s = s\<lparr>NextSlashId := sat_add32 next_slash_id 1\<rparr>
           in Inr (sl_deposit (SlashInjected next_slash_id era_to_consider) s)))"

definition set_slashing_mode :: "origin \<Rightarrow> slashing_mode \<Rightarrow> sl_state \<Rightarrow> sl_error + sl_state" where
  "set_slashing_mode og mode s =
     (if \<not> ensure_root og then Inl SlBadOrigin else Inr (s\<lparr>SlashingMode := mode\<rparr>))"

section \<open>Sending\<close>

definition slash_to_send_data :: "sl_config \<Rightarrow> slash \<Rightarrow> slash_data" where
  "slash_to_send_data cfg sl =
     (let max_wad = MaxSlashWad cfg;
          wad_to_slash = min (case checked_div (sat_mul128 (percentage sl) max_wad) 1000000000 of Some q \<Rightarrow> q | None \<Rightarrow> 0) max_wad
      in \<lparr>sd_validator = validator sl, sd_wad_to_slash = wad_to_slash,
          sd_description = to_description (from_utf8_lossy cfg) (slash_offence sl)\<rparr>)"

type_synonym ('m, 't, 'w) slashes_sender = "(slash_data list \<times> EraIndex, 'm, 't, 'w) send_message"

definition send_slashes_message ::
  "('m, 't, 'w) slashes_sender \<Rightarrow> slash_data list \<Rightarrow> EraIndex \<Rightarrow> 'w \<Rightarrow> H256 option \<times> 'w" where
  "send_slashes_message sm slashes_to_send era_index w = send_via sm (slashes_to_send, era_index) w"

definition sl_unsent_queue_push :: "slash_batch \<Rightarrow> sl_state \<Rightarrow> bool \<times> sl_state" where
  "sl_unsent_queue_push entry s =
     (let (ok, q) = unsent_queue_push entry (UnsentSlashes s) in (ok, s\<lparr>UnsentSlashes := q\<rparr>))"

definition sl_unsent_queue_remove_slot :: "u32 \<Rightarrow> sl_state \<Rightarrow> sl_state option" where
  "sl_unsent_queue_remove_slot slot s =
     map_option (\<lambda>q. s\<lparr>UnsentSlashes := q\<rparr>) (unsent_queue_remove_slot slot (UnsentSlashes s))"

definition retry_unsent_slash_era ::
  "sl_config \<Rightarrow> ('m, 't, 'w) slashes_sender \<Rightarrow> origin \<Rightarrow> EraIndex \<Rightarrow> sl_state \<times> 'w \<Rightarrow> (sl_error + sl_state \<times> 'w) option" where
  "retry_unsent_slash_era cfg sm og era_index sw =
     (let (s, w) = sw in
      if \<not> sl_GovernanceOrigin cfg og then Some (Inl SlBadOrigin)
      else do {
        found \<leftarrow> find_slot (\<lambda>(idx, _). idx = era_index) (uq_tail (UnsentSlashes s)) (uq_slots (UnsentSlashes s))
                   (uq_head (UnsentSlashes s));
        (case found of
           None \<Rightarrow> Some (Inl EraNotInUnsentQueue)
         | Some (slot, era, slashes) \<Rightarrow>
             (case send_slashes_message sm (map (slash_to_send_data cfg) slashes) era w of
                (None, _) \<Rightarrow> Some (Inl MessageSendFailed)
              | (Some message_id, w) \<Rightarrow>
                  do {
                    s \<leftarrow> sl_unsent_queue_remove_slot slot s;
                    Some (Inr (sl_deposit (SlashesMessageRetried message_id era (as_u32 (length slashes))) s, w))
                  }))
      })"

text \<open>One block's work on the queue: the head batch is sent, and dropped or moved to the back.\<close>

definition process_slashes_queue ::
  "sl_config \<Rightarrow> ('m, 't, 'w) slashes_sender \<Rightarrow> sl_state \<times> 'w \<Rightarrow> process_slashes_queue_outcome \<times> sl_state \<times> 'w" where
  "process_slashes_queue cfg sm sw =
     (let (s, w) = sw; q = UnsentSlashes s in
      if uq_head q = uq_tail q then (Empty, s, w)
      else (case uq_slots q (uq_head q) of
              None \<Rightarrow> (Empty, s\<lparr>UnsentSlashes := skip_head q\<rparr>, w)
            | Some (era_index, slashes) \<Rightarrow>
                (let slashes_count = as_u32 (length slashes) in
                 case send_slashes_message sm (map (slash_to_send_data cfg) slashes) era_index w of
                   (Some message_id, w) \<Rightarrow>
                     (Sent slashes_count, sl_deposit (SlashesMessageSent message_id) (s\<lparr>UnsentSlashes := drop_head q\<rparr>), w)
                 | (None, w) \<Rightarrow>
                     (Requeued slashes_count,
                      sl_deposit (SlashesMessageSendFailed era_index slashes_count)
                        (s\<lparr>UnsentSlashes := requeue_head (era_index, slashes) q\<rparr>), w))))"

definition sl_on_initialize :: "sl_config \<Rightarrow> ('m, 't, 'w) slashes_sender \<Rightarrow> sl_state \<times> 'w \<Rightarrow> sl_state \<times> 'w" where
  "sl_on_initialize cfg sm sw = snd (process_slashes_queue cfg sm sw)"

section \<open>Era start\<close>

fun enqueue_batches :: "EraIndex \<Rightarrow> slash list list \<Rightarrow> nat \<Rightarrow> sl_state \<Rightarrow> nat \<times> sl_state" where
  "enqueue_batches active_era [] enqueued s = (enqueued, s)"
| "enqueue_batches active_era (batch # batches) enqueued s =
     (case sl_unsent_queue_push (active_era, batch) s of
        (True, s) \<Rightarrow> enqueue_batches active_era batches (sat_add32 enqueued (as_u32 (length batch))) s
      | (False, s) \<Rightarrow> (enqueued, sl_deposit (UnsentQueueFull active_era) s))"

definition add_era_slashes_to_queue :: "sl_config \<Rightarrow> EraIndex \<Rightarrow> sl_state \<Rightarrow> sl_state" where
  "add_era_slashes_to_queue cfg active_era s =
     (let slashes = Slashes s active_era in
      if slashes = [] then s
      else (let batch_size = max (QueuedSlashesProcessedPerBlock cfg) 1;
                (enqueued, s) = enqueue_batches active_era (chunks batch_size slashes) 0 s
            in if 0 < enqueued then sl_deposit (SlashAddedToQueue enqueued active_era) s else s))"

definition REMOVE_LIMIT :: nat where "REMOVE_LIMIT = 1000"

text \<open>Killing the slashing metadata of a pruned era: \<open>clear_prefix\<close> removes at most \<open>REMOVE_LIMIT\<close> entries.\<close>

definition prune_era :: "sl_config \<Rightarrow> EraIndex \<Rightarrow> sl_state \<Rightarrow> sl_state" where
  "prune_era cfg era s = s\<lparr>ValidatorSlashInEra := (ValidatorSlashInEra s)
       (era := drop REMOVE_LIMIT (sort_key (\<lambda>(v, _). twox_64_concat cfg v) (ValidatorSlashInEra s era))),
     Slashes := (Slashes s)(era := [])\<rparr>"

definition sl_on_era_start :: "sl_config \<Rightarrow> EraIndex \<Rightarrow> SessionIndex \<Rightarrow> nat \<Rightarrow> sl_state \<Rightarrow> sl_state" where
  "sl_on_era_start cfg era_index session_start external_idx s =
     (let bonded = BondedEras s @ [(era_index, session_start, external_idx)];
          s = (if BondingDuration cfg < era_index
               then (let first_kept = sat_sub era_index (BondingDuration cfg);
                         n_to_prune = length (takeWhile (\<lambda>(era_idx, _, _). era_idx < first_kept) bonded);
                         s = fold (\<lambda>(pruned_era, _, _). prune_era cfg pruned_era) (take n_to_prune bonded) s;
                         bonded = drop n_to_prune bonded
                     in (case bonded of
                           [] \<Rightarrow> s\<lparr>BondedEras := bonded\<rparr>
                         | (_, first_session, _) # _ \<Rightarrow>
                             s\<lparr>BondedEras := bonded, historical_pruned := historical_pruned s @ [first_session]\<rparr>))
               else s\<lparr>BondedEras := bonded\<rparr>)
      in add_era_slashes_to_queue cfg era_index s)"

section \<open>Reporting offences\<close>

text \<open>
  The wrapper around the offences pallet's \<open>report_offence\<close>, which is the parameter \<open>inner\<close>: reports
  from before the bonded eras are dropped, the offence kind is noted for each offender, and the notes
  are taken back when the inner report fails.
\<close>

record offence =
  session_index :: SessionIndex
  offenders :: "AccountId list"

definition set_kinds :: "SessionIndex \<Rightarrow> offence_kind option \<Rightarrow> AccountId list \<Rightarrow> sl_state \<Rightarrow> sl_state" where
  "set_kinds sesh kind vs s = s\<lparr>PendingOffenceKind := fold (\<lambda>v m. m((sesh, v) := kind)) vs (PendingOffenceKind s)\<rparr>"

definition report_offence ::
  "offence_kind \<Rightarrow> (AccountId list \<Rightarrow> offence \<Rightarrow> sl_state \<times> 'w \<Rightarrow> bool \<times> sl_state \<times> 'w) \<Rightarrow> AccountId list \<Rightarrow> offence \<Rightarrow>
   sl_state \<times> 'w \<Rightarrow> bool \<times> sl_state \<times> 'w" where
  "report_offence kind inner reps off sw =
     (let (s, w) = sw; offence_session = session_index off in
      if (case BondedEras s of [] \<Rightarrow> True | (_, start, _) # _ \<Rightarrow> \<not> start \<le> offence_session) then (True, s, w)
      else (let s = set_kinds offence_session (Some kind) (offenders off) s;
                (ok, s, w) = inner reps off (s, w)
            in if ok then (True, s, w) else (False, set_kinds offence_session None (offenders off) s, w)))"

section \<open>Lemmas\<close>

lemma sl_deposit_simps [simp]:
  "ValidatorSlashInEra (sl_deposit e s) = ValidatorSlashInEra s" "BondedEras (sl_deposit e s) = BondedEras s"
  "NextSlashId (sl_deposit e s) = NextSlashId s" "Slashes (sl_deposit e s) = Slashes s"
  "UnsentSlashes (sl_deposit e s) = UnsentSlashes s" "SlashingMode (sl_deposit e s) = SlashingMode s"
  "PendingOffenceKind (sl_deposit e s) = PendingOffenceKind s"
  "historical_pruned (sl_deposit e s) = historical_pruned s"
  by (simp_all add: sl_deposit_def)

lemma push_slash_simps [simp]:
  "ValidatorSlashInEra (push_slash e x s) = ValidatorSlashInEra s" "BondedEras (push_slash e x s) = BondedEras s"
  "NextSlashId (push_slash e x s) = NextSlashId s"
  "Slashes (push_slash e x s) = (Slashes s)(e := Slashes s e @ [x])"
  "UnsentSlashes (push_slash e x s) = UnsentSlashes s" "SlashingMode (push_slash e x s) = SlashingMode s"
  "PendingOffenceKind (push_slash e x s) = PendingOffenceKind s"
  by (simp_all add: push_slash_def)

subsection \<open>Offences\<close>

text \<open>
  The recorded maximum of a validator in an era, and whether an offence reported by \<open>v\<close> with
  fraction \<open>f\<close> is turned into a slash: its kind is pending, \<open>v\<close> is not invulnerable, and the fraction
  exceeds the recorded maximum.
\<close>

definition era_max :: "sl_state \<Rightarrow> EraIndex \<Rightarrow> AccountId \<Rightarrow> perbill" where
  "era_max s era v = (case map_of (ValidatorSlashInEra s era) v of Some p \<Rightarrow> p | None \<Rightarrow> 0)"

definition reportable :: "ev_state \<Rightarrow> SessionIndex \<Rightarrow> sl_state \<Rightarrow> AccountId \<Rightarrow> bool" where
  "reportable ev session s v \<longleftrightarrow> PendingOffenceKind s (session, v) \<noteq> None \<and> v \<notin> set (invulnerables ev)"

definition slashable :: "ev_state \<Rightarrow> SessionIndex \<Rightarrow> EraIndex \<Rightarrow> sl_state \<Rightarrow> AccountId \<times> perbill \<Rightarrow> bool" where
  "slashable ev session era s vf \<longleftrightarrow> reportable ev session s (fst vf) \<and> era_max s era (fst vf) < snd vf"

lemma compute_slash_eq:
  "compute_slash f i era v d k s =
     (if era_max s era v < f
      then (Some \<lparr>validator = v, reporters = [], slash_id = i, percentage = f, confirmed = (d = 0), slash_offence = k\<rparr>,
            s\<lparr>ValidatorSlashInEra := (ValidatorSlashInEra s)(era := AList.update v f (ValidatorSlashInEra s era))\<rparr>)
      else (None, s))"
  by (simp add: compute_slash_def era_max_def Let_def)

text \<open>The slash records that a list of reported offenders gives, numbered from \<open>i\<close> on.\<close>

fun offence_slashes ::
  "sl_config \<Rightarrow> ev_state \<Rightarrow> SessionIndex \<Rightarrow> EraIndex \<Rightarrow> sl_state \<Rightarrow> ((AccountId \<times> AccountId list) \<times> perbill) list \<Rightarrow> nat \<Rightarrow> slash list" where
  "offence_slashes cfg ev session era s [] i = []"
| "offence_slashes cfg ev session era s (((v, reps), f) # xs) i =
     (if slashable ev session era s (v, f)
      then \<lparr>validator = v, reporters = reps, slash_id = i, percentage = f, confirmed = (SlashDeferDuration cfg = 0),
             slash_offence = the (PendingOffenceKind s (session, v))\<rparr> # offence_slashes cfg ev session era s xs (sat_add32 i 1)
      else offence_slashes cfg ev session era s xs i)"

text \<open>One offender in enabled mode.\<close>

lemma offence_step_enabled:
  assumes m: "SlashingMode s = Enabled" and r: "offence_step cfg ev session era ((v, reps), f) (i, s) = (i', s')"
  defines "d \<equiv> deferred_to cfg (ae_index (ev_active_era ev)) era"
  shows "SlashingMode s' = Enabled"
    "PendingOffenceKind s' = (PendingOffenceKind s)((session, v) := None)"
    "UnsentSlashes s' = UnsentSlashes s \<and> BondedEras s' = BondedEras s \<and> NextSlashId s' = NextSlashId s"
    "era_max s' e u = (if e = era \<and> u = v \<and> slashable ev session era s (v, f) then f else era_max s e u)"
    "Slashes s' = (Slashes s)(d := Slashes s d @ offence_slashes cfg ev session era s [((v, reps), f)] i)"
    "i' = (if slashable ev session era s (v, f) then sat_add32 i 1 else i)"
proof -
  show "SlashingMode s' = Enabled"
    "PendingOffenceKind s' = (PendingOffenceKind s)((session, v) := None)"
    "UnsentSlashes s' = UnsentSlashes s \<and> BondedEras s' = BondedEras s \<and> NextSlashId s' = NextSlashId s"
    "i' = (if slashable ev session era s (v, f) then sat_add32 i 1 else i)"
    using m r
    by - (cases "PendingOffenceKind s (session, v)"; cases "v \<in> set (invulnerables ev)"; cases "era_max s era v < f";
        auto simp: offence_step_def compute_slash_eq era_max_def slashable_def reportable_def Let_def)+
  show "era_max s' e u = (if e = era \<and> u = v \<and> slashable ev session era s (v, f) then f else era_max s e u)"
    using m r
    by (cases "PendingOffenceKind s (session, v)"; cases "v \<in> set (invulnerables ev)"; cases "era_max s era v < f")
      (auto simp add: offence_step_def compute_slash_eq era_max_def slashable_def reportable_def Let_def AList.update_conv')
  show "Slashes s' = (Slashes s)(d := Slashes s d @ offence_slashes cfg ev session era s [((v, reps), f)] i)"
    using m r
    by (cases "PendingOffenceKind s (session, v)"; cases "v \<in> set (invulnerables ev)"; cases "era_max s era v < f")
      (auto simp add: offence_step_def compute_slash_eq era_max_def slashable_def reportable_def Let_def d_def)
qed


text \<open>A whole report, for pairwise distinct offenders.\<close>

lemma offence_slashes_cong:
  "(\<And>v. v \<in> fst ` fst ` set xs \<Longrightarrow> PendingOffenceKind s' (session, v) = PendingOffenceKind s (session, v) \<and> era_max s' era v = era_max s era v) \<Longrightarrow>
   offence_slashes cfg ev session era s' xs i = offence_slashes cfg ev session era s xs i"
  by (induction cfg ev session era s xs i rule: offence_slashes.induct)
    (auto simp: slashable_def reportable_def)

lemma offence_fold_enabled:
  assumes "SlashingMode s = Enabled" and "distinct (map (\<lambda>x. fst (fst x)) xs)"
    and "fold (offence_step cfg ev session era) xs (i, s) = (i', s')"
  defines "d \<equiv> deferred_to cfg (ae_index (ev_active_era ev)) era"
  shows "SlashingMode s' = Enabled \<and> UnsentSlashes s' = UnsentSlashes s \<and> BondedEras s' = BondedEras s \<and>
    PendingOffenceKind s' = (\<lambda>(sesh, v). if sesh = session \<and> v \<in> fst ` fst ` set xs then None else PendingOffenceKind s (sesh, v)) \<and>
    Slashes s' = (Slashes s)(d := Slashes s d @ offence_slashes cfg ev session era s xs i) \<and>
    (\<forall>e u. era_max s' e u = (case map_of (map (\<lambda>((v, _), f). (v, f)) xs) u of
        Some f \<Rightarrow> if e = era \<and> slashable ev session era s (u, f) then f else era_max s e u
      | None \<Rightarrow> era_max s e u)) \<and>
    i' = fold (\<lambda>_ i. sat_add32 i 1) (offence_slashes cfg ev session era s xs i) i"
  using assms(1-3)
proof (induction xs arbitrary: i s)
  case Nil
  then show ?case by (auto simp: fun_eq_iff)
next
  case (Cons x xs)
  obtain v reps f where x: "x = ((v, reps), f)" by (metis prod.collapse)
  obtain i1 s1 where r: "offence_step cfg ev session era ((v, reps), f) (i, s) = (i1, s1)" by (metis prod.collapse)
  note st = offence_step_enabled [OF Cons.prems(1) r, folded d_def]
  have rest: "fold (offence_step cfg ev session era) xs (i1, s1) = (i', s')" using Cons.prems(3) r x by simp
  have d: "distinct (map (\<lambda>x. fst (fst x)) xs)" and v: "v \<notin> fst ` fst ` set xs" using Cons.prems(2) x by (auto simp: image_image)
  have same: "offence_slashes cfg ev session era s1 xs j = offence_slashes cfg ev session era s xs j" for j
    by (rule offence_slashes_cong) (use v st(2,4) in auto)
  have sl: "slashable ev session era s1 (u, g) = slashable ev session era s (u, g)" if "u \<noteq> v" for u g
    using that st(2,4) by (simp add: slashable_def reportable_def)
  note IH = Cons.IH [OF st(1) d rest]
  have none: "map_of (map (\<lambda>((v, _), f). (v, f)) xs) v = None"
    using v by (force simp: map_of_eq_None_iff)
  show ?case
    using IH st(2,3,5,6) v none
    by (auto simp: x same st(4) sl fun_eq_iff split: option.splits)
qed

text \<open>
  What \<open>on_offence\<close> leaves alone, in every mode: the queue and the bonded eras; and in the two
  modes without slashing also the slashes, the recorded maxima and the counter.
\<close>

lemma offence_step_frame:
  "UnsentSlashes (snd (offence_step cfg ev session era x ns)) = UnsentSlashes (snd ns) \<and>
   BondedEras (snd (offence_step cfg ev session era x ns)) = BondedEras (snd ns) \<and>
   SlashingMode (snd (offence_step cfg ev session era x ns)) = SlashingMode (snd ns) \<and>
   NextSlashId (snd (offence_step cfg ev session era x ns)) = NextSlashId (snd ns)"
  by (cases ns; cases x; cases "fst x")
    (simp add: offence_step_def compute_slash_eq Let_def split: option.splits)

lemma offence_fold_frame:
  "UnsentSlashes (snd (fold (offence_step cfg ev session era) xs ns)) = UnsentSlashes (snd ns) \<and>
   BondedEras (snd (fold (offence_step cfg ev session era) xs ns)) = BondedEras (snd ns) \<and>
   SlashingMode (snd (fold (offence_step cfg ev session era) xs ns)) = SlashingMode (snd ns) \<and>
   NextSlashId (snd (fold (offence_step cfg ev session era) xs ns)) = NextSlashId (snd ns)"
  by (induction xs arbitrary: ns) (simp_all add: offence_step_frame)

lemma on_offence_frame [simp]:
  "UnsentSlashes (on_offence cfg ev offs fs session s) = UnsentSlashes s"
  "BondedEras (on_offence cfg ev offs fs session s) = BondedEras s"
  "SlashingMode (on_offence cfg ev offs fs session s) = SlashingMode s"
  using offence_fold_frame [of cfg ev session _ "zip offs fs" "(NextSlashId s, s)"]
  by (auto simp: on_offence_def Let_def split_beta split: option.splits)

lemma offence_step_log_only:
  "SlashingMode (snd ns) = LogOnly \<Longrightarrow>
   fst (offence_step cfg ev session era x ns) = fst ns \<and>
   Slashes (snd (offence_step cfg ev session era x ns)) = Slashes (snd ns) \<and>
   ValidatorSlashInEra (snd (offence_step cfg ev session era x ns)) = ValidatorSlashInEra (snd ns)"
  by (cases ns; cases x; cases "fst x") (simp add: offence_step_def Let_def split: option.splits)

lemma offence_fold_log_only:
  "SlashingMode (snd ns) = LogOnly \<Longrightarrow>
   fst (fold (offence_step cfg ev session era) xs ns) = fst ns \<and>
   Slashes (snd (fold (offence_step cfg ev session era) xs ns)) = Slashes (snd ns) \<and>
   ValidatorSlashInEra (snd (fold (offence_step cfg ev session era) xs ns)) = ValidatorSlashInEra (snd ns)"
  by (induction xs arbitrary: ns) (simp_all add: offence_step_log_only offence_step_frame)

lemma on_offence_not_enabled:
  assumes "SlashingMode s \<noteq> Enabled"
  shows "Slashes (on_offence cfg ev offs fs session s) = Slashes s"
    "ValidatorSlashInEra (on_offence cfg ev offs fs session s) = ValidatorSlashInEra s"
    "NextSlashId (on_offence cfg ev offs fs session s) = NextSlashId s"
  using assms offence_fold_log_only [of "(NextSlashId s, s)" cfg ev session _ "zip offs fs"]
  by (cases "SlashingMode s"; auto simp: on_offence_def Let_def split_beta split: option.splits)+

text \<open>A report in enabled mode, in terms of the specification \<open>offence_slashes\<close>.\<close>

definition report_of :: "(AccountId \<times> AccountId list) list \<Rightarrow> perbill list \<Rightarrow> AccountId \<rightharpoonup> perbill" where
  "report_of offs fs = map_of (map (\<lambda>((v, _), f). (v, f)) (zip offs fs))"

lemma distinct_zip_fst: "distinct (map fst offs) \<Longrightarrow> distinct (map (\<lambda>x. fst (fst x)) (zip offs fs))"
proof (induction offs fs rule: list_induct2')
  case (4 x xs y ys)
  have "fst x \<notin> (\<lambda>p. fst (fst p)) ` set (zip xs ys)"
    using 4(2) by (auto dest!: set_zip_leftD)
  then show ?case using 4 by auto
qed simp_all

lemma on_offence_enabled:
  fixes cfg :: sl_config and fs :: "perbill list"
  assumes m: "SlashingMode s = Enabled" and era: "slash_era_of ev session s = Some era"
    and d: "distinct (map fst offs)"
  defines "due \<equiv> deferred_to cfg (ae_index (ev_active_era ev)) era"
  defines "new \<equiv> offence_slashes cfg ev session era s (zip offs fs) (NextSlashId s)"
  shows "Slashes (on_offence cfg ev offs fs session s) = (Slashes s)(due := Slashes s due @ new)"
    and "era_max (on_offence cfg ev offs fs session s) e u =
      (case report_of offs fs u of
         Some f \<Rightarrow> if e = era \<and> reportable ev session s u then max (era_max s e u) f else era_max s e u
       | None \<Rightarrow> era_max s e u)"
    and "NextSlashId (on_offence cfg ev offs fs session s) = fold (\<lambda>_ i. sat_add32 i 1) new (NextSlashId s)"
proof -
  obtain i' s' where f: "fold (offence_step cfg ev session era) (zip offs fs) (NextSlashId s, s) = (i', s')"
    by (metis prod.collapse)
  note st = offence_fold_enabled [OF m distinct_zip_fst [OF d] f, folded due_def new_def report_of_def]
  have eq: "on_offence cfg ev offs fs session s = s'\<lparr>NextSlashId := i'\<rparr>"
    using m era f by (simp add: on_offence_def)
  show "Slashes (on_offence cfg ev offs fs session s) = (Slashes s)(due := Slashes s due @ new)"
    "NextSlashId (on_offence cfg ev offs fs session s) = fold (\<lambda>_ i. sat_add32 i 1) new (NextSlashId s)"
    unfolding eq using st by simp_all
  have "era_max (s'\<lparr>NextSlashId := i'\<rparr>) e u = era_max s' e u" by (simp add: era_max_def)
  then show "era_max (on_offence cfg ev offs fs session s) e u =
      (case report_of offs fs u of
         Some f \<Rightarrow> if e = era \<and> reportable ev session s u then max (era_max s e u) f else era_max s e u
       | None \<Rightarrow> era_max s e u)"
    unfolding eq using st by (auto simp: slashable_def max_def split: option.splits)
qed

text \<open>The new records: one per slashable offender, in order, with consecutive numbers.\<close>

lemma offence_slashes_validators:
  "map (\<lambda>sl. (validator sl, percentage sl)) (offence_slashes cfg ev session era s xs i)
     = filter (slashable ev session era s) (map (\<lambda>((v, _), f). (v, f)) xs)"
  by (induction cfg ev session era s xs i rule: offence_slashes.induct) auto

lemma offence_slashes_ids:
  "i + length xs \<le> u32_max \<Longrightarrow>
   map slash_id (offence_slashes cfg ev session era s xs i) = [i..<i + length (offence_slashes cfg ev session era s xs i)]"
proof (induction cfg ev session era s xs i rule: offence_slashes.induct)
  case (2 cfg ev session era s v reps f xs i)
  then show ?case by (auto simp: sat_add_exact upt_conv_Cons simp del: upt_Suc)
qed simp

lemma offence_slashes_counter:
  "fold (\<lambda>_ i. sat_add32 i 1) (xs :: slash list) i = (if i \<le> u32_max then min (i + length xs) u32_max else if xs = [] then i else u32_max)"
  by (induction xs arbitrary: i) (auto simp: sat_add_def)

lemma offence_slashes_length: "length (offence_slashes cfg ev session era s xs i) \<le> length xs"
  by (induction cfg ev session era s xs i rule: offence_slashes.induct) auto

lemma offence_slashes_ids_ge: "i \<le> u32_max \<Longrightarrow> sl \<in> set (offence_slashes cfg ev session era s xs i) \<Longrightarrow> i \<le> slash_id sl"
proof (induction cfg ev session era s xs i rule: offence_slashes.induct)
  case (2 cfg ev session era s v reps f xs i)
  have "i \<le> sat_add32 i 1" using "2.prems"(1) by (simp add: sat_add_def)
  then show ?case using 2 by (auto split: if_splits)
qed simp

subsection \<open>The queue\<close>

abbreviation sl_contents :: "sl_state \<Rightarrow> slash_batch list" where
  "sl_contents s \<equiv> uq_contents (UnsentSlashes s)"

abbreviation sl_valid :: "sl_state \<Rightarrow> bool" where
  "sl_valid s \<equiv> uq_valid (UnsentSlashes s)"

lemma sl_push_frame:
  "snd (sl_unsent_queue_push b s) = s\<lparr>UnsentSlashes := snd (unsent_queue_push b (UnsentSlashes s))\<rparr>"
  "fst (sl_unsent_queue_push b s) = fst (unsent_queue_push b (UnsentSlashes s))"
  by (simp_all add: sl_unsent_queue_push_def split_beta Let_def)

text \<open>Two senders without state behind them: one that always succeeds, one that never does.\<close>

definition always_sends :: "H256 \<Rightarrow> ('d, unit, unit, 'w) send_message" where
  "always_sends i = \<lparr>sm_build = \<lambda>_ w. (Some (), w), sm_validate = \<lambda>_ _. Some (), sm_deliver = \<lambda>_ w. (Some i, w)\<rparr>"

definition never_sends :: "('d, unit, unit, 'w) send_message" where
  "never_sends = \<lparr>sm_build = \<lambda>_ w. (None, w), sm_validate = \<lambda>_ _. None, sm_deliver = \<lambda>_ w. (None, w)\<rparr>"

lemma send_via_const [simp]:
  "send_via (always_sends i) d w = (Some i, w)" "send_via never_sends d w = (None, w)"
  by (simp_all add: send_via_def always_sends_def never_sends_def)

text \<open>One block of the hook, on a valid queue, for any sender.\<close>

lemma process_slashes_queue_eq:
  assumes v: "sl_valid s"
  shows "process_slashes_queue cfg sm (s, w) =
    (case sl_contents s of
       [] \<Rightarrow> (Empty, s, w)
     | (era, slashes) # _ \<Rightarrow>
         (case send_slashes_message sm (map (slash_to_send_data cfg) slashes) era w of
            (Some message_id, w) \<Rightarrow>
              (Sent (as_u32 (length slashes)),
               sl_deposit (SlashesMessageSent message_id) (s\<lparr>UnsentSlashes := drop_head (UnsentSlashes s)\<rparr>), w)
          | (None, w) \<Rightarrow>
              (Requeued (as_u32 (length slashes)),
               sl_deposit (SlashesMessageSendFailed era (as_u32 (length slashes)))
                 (s\<lparr>UnsentSlashes := requeue_head (era, slashes) (UnsentSlashes s)\<rparr>), w)))"
proof (cases "sl_contents s")
  case Nil
  then show ?thesis
    using uq_is_empty_iff [OF v] by (simp add: process_slashes_queue_def Let_def unsent_queue_is_empty_def)
next
  case (Cons b bs)
  then have "uq_head (UnsentSlashes s) \<noteq> uq_tail (UnsentSlashes s)"
    using uq_is_empty_iff [OF v] by (simp add: unsent_queue_is_empty_def)
  then show ?thesis
    using uq_head_slot(1) [OF v] Cons by (cases b) (simp add: process_slashes_queue_def Let_def)
qed

lemma sl_on_initialize_head:
  assumes v: "sl_valid s" and c: "sl_contents s = (era, slashes) # bs"
    and r: "send_slashes_message sm (map (slash_to_send_data cfg) slashes) era w = (res, w')"
  shows "sl_valid (fst (sl_on_initialize cfg sm (s, w)))"
    "sl_contents (fst (sl_on_initialize cfg sm (s, w))) = (if res = None then bs @ [(era, slashes)] else bs)"
    "snd (sl_on_initialize cfg sm (s, w)) = w'"
    "sl_events (fst (sl_on_initialize cfg sm (s, w))) = sl_events s @
       [case res of Some i \<Rightarrow> SlashesMessageSent i | None \<Rightarrow> SlashesMessageSendFailed era (as_u32 (length slashes))]"
  using c r uq_drop_head [OF v] uq_requeue_head [OF v, of "(era, slashes)"]
  by (auto simp: sl_on_initialize_def process_slashes_queue_eq [OF v] sl_deposit_def split: option.splits)

lemma sl_on_initialize_frame:
  assumes v: "sl_valid s"
  shows "Slashes (fst (sl_on_initialize cfg sm (s, w))) = Slashes s"
    "NextSlashId (fst (sl_on_initialize cfg sm (s, w))) = NextSlashId s"
    "BondedEras (fst (sl_on_initialize cfg sm (s, w))) = BondedEras s"
    "ValidatorSlashInEra (fst (sl_on_initialize cfg sm (s, w))) = ValidatorSlashInEra s"
  by (auto simp: sl_on_initialize_def process_slashes_queue_eq [OF v] split: option.splits list.splits prod.splits)

interpretation slash_hook: retry_hook "\<lambda>sw. sl_valid (fst sw)" "\<lambda>sw. sl_contents (fst sw)" "sl_on_initialize cfg sm"
  for cfg :: sl_config and sm :: "('m, 't, 'w) slashes_sender"
proof unfold_locales
  fix sw :: "sl_state \<times> 'w" assume v: "sl_valid (fst sw)"
  obtain s w where sw: "sw = (s, w)" by (cases sw)
  have empty: "sl_on_initialize cfg sm (s, w) = (s, w)" if "sl_contents s = []"
    using v that by (simp add: sl_on_initialize_def process_slashes_queue_eq sw)
  show "sl_contents (fst sw) = [] \<Longrightarrow> sl_contents (fst (sl_on_initialize cfg sm sw)) = []"
    using empty sw by simp
  have head: "sl_valid (fst (sl_on_initialize cfg sm (s, w))) \<and>
      sl_contents (fst (sl_on_initialize cfg sm (s, w))) \<in> {bs, bs @ [b]}" if c: "sl_contents s = b # bs" for b bs
  proof -
    obtain era slashes where b: "b = (era, slashes)" by (cases b)
    obtain res w' where r: "send_slashes_message sm (map (slash_to_send_data cfg) slashes) era w = (res, w')"
      by (metis prod.collapse)
    show ?thesis
      using sl_on_initialize_head(1,2) [of s era slashes bs sm cfg w, OF _ _ r] v c b sw by simp
  qed
  show "sl_valid (fst (sl_on_initialize cfg sm sw))"
    using head empty v sw by (cases "sl_contents s") auto
  fix b bs assume "sl_contents (fst sw) = b # bs"
  then show "sl_contents (fst (sl_on_initialize cfg sm sw)) = bs \<or> sl_contents (fst (sl_on_initialize cfg sm sw)) = bs @ [b]"
    using head sw by auto
qed

interpretation slash_queue: retry_queue sl_valid sl_contents sl_unsent_queue_push
    "\<lambda>s. fst (sl_on_initialize cfg (always_sends i) (s, ()))" "\<lambda>s. fst (sl_on_initialize cfg never_sends (s, ()))" 63
  for cfg :: sl_config and i :: H256
proof unfold_locales
  fix s :: sl_state and b :: slash_batch assume v: "sl_valid s"
  show "length (sl_contents s) \<le> 63" by (rule ring.contents_bound [OF v])
  show "length (sl_contents s) < 63 \<Longrightarrow> fst (sl_unsent_queue_push b s) \<and> sl_valid (snd (sl_unsent_queue_push b s)) \<and>
      sl_contents (snd (sl_unsent_queue_push b s)) = sl_contents s @ [b]"
    using ring.push_room [OF v, of b] by (simp add: sl_push_frame)
  show "length (sl_contents s) = 63 \<Longrightarrow> \<not> fst (sl_unsent_queue_push b s) \<and> sl_valid (snd (sl_unsent_queue_push b s)) \<and>
      sl_contents (snd (sl_unsent_queue_push b s)) = sl_contents s"
    using ring.push_full [OF v, of b] by (simp add: sl_push_frame)
  assume "sl_contents s \<noteq> []"
  then obtain era slashes bs where c: "sl_contents s = (era, slashes) # bs"
    by (metis neq_Nil_conv prod.collapse)
  note st = sl_on_initialize_head [OF v c]
  show "sl_valid (fst (sl_on_initialize cfg (always_sends i) (s, ())))"
    "sl_contents (fst (sl_on_initialize cfg (always_sends i) (s, ()))) = tl (sl_contents s)"
    using st(1,2) [of "always_sends i" cfg "()" "Some i" "()"] c by (simp_all add: send_slashes_message_def)
  show "sl_valid (fst (sl_on_initialize cfg never_sends (s, ())))"
    "sl_contents (fst (sl_on_initialize cfg never_sends (s, ()))) = rotate1 (sl_contents s)"
    using st(1,2) [of never_sends cfg "()" None "()"] c by (simp_all add: send_slashes_message_def)
qed

subsection \<open>Era start\<close>

text \<open>The batches that fit are appended in order; the first one that does not ends the loop.\<close>

lemma enqueue_batches_contents:
  "sl_valid s \<Longrightarrow> sl_valid (snd (enqueue_batches era bs k s)) \<and>
   sl_contents (snd (enqueue_batches era bs k s)) = sl_contents s @ map (Pair era) (take (63 - length (sl_contents s)) bs)"
proof (induction bs arbitrary: k s)
  case (Cons b bs)
  obtain ok s1 where p: "sl_unsent_queue_push (era, b) s = (ok, s1)" by (metis prod.collapse)
  have ok: "ok \<longleftrightarrow> length (sl_contents s) < 63" and v: "sl_valid s1"
    and c: "sl_contents s1 = (if length (sl_contents s) < 63 then sl_contents s @ [(era, b)] else sl_contents s)"
    using slash_queue.push_reports [OF Cons.prems, of "(era, b)"] slash_queue.push_valid [OF Cons.prems, of "(era, b)"]
      slash_queue.push_contents [OF Cons.prems, of "(era, b)"] p by auto
  show ?case
  proof (cases ok)
    case True
    then obtain n where "63 - length (sl_contents s) = Suc n" "63 - length (sl_contents s1) = n"
      using ok c by (cases "63 - length (sl_contents s)") auto
    then show ?thesis using Cons.IH [OF v] p True c ok by simp
  next
    case False
    then show ?thesis using p ok c v by simp
  qed
qed simp

lemma enqueue_batches_frame:
  "Slashes (snd (enqueue_batches era bs k s)) = Slashes s \<and> NextSlashId (snd (enqueue_batches era bs k s)) = NextSlashId s \<and>
   BondedEras (snd (enqueue_batches era bs k s)) = BondedEras s \<and>
   ValidatorSlashInEra (snd (enqueue_batches era bs k s)) = ValidatorSlashInEra s \<and>
   historical_pruned (snd (enqueue_batches era bs k s)) = historical_pruned s \<and>
   PendingOffenceKind (snd (enqueue_batches era bs k s)) = PendingOffenceKind s"
  by (induction bs arbitrary: k s) (simp_all add: sl_unsent_queue_push_def sl_deposit_def split_beta Let_def split: bool.split)

text \<open>The batches of an era's slashes.\<close>

definition era_batches :: "sl_config \<Rightarrow> EraIndex \<Rightarrow> slash list \<Rightarrow> slash_batch list" where
  "era_batches cfg era slashes = map (Pair era) (chunks (max (QueuedSlashesProcessedPerBlock cfg) 1) slashes)"

lemma add_era_slashes:
  assumes "sl_valid s"
  shows "sl_valid (add_era_slashes_to_queue cfg era s)"
    "sl_contents (add_era_slashes_to_queue cfg era s)
       = sl_contents s @ take (63 - length (sl_contents s)) (era_batches cfg era (Slashes s era))"
  using enqueue_batches_contents [OF assms, of era "chunks (max (QueuedSlashesProcessedPerBlock cfg) 1) (Slashes s era)" 0]
  by (auto simp: add_era_slashes_to_queue_def Let_def split_beta era_batches_def take_map)

lemma add_era_slashes_frame [simp]:
  "Slashes (add_era_slashes_to_queue cfg era s) = Slashes s"
  "NextSlashId (add_era_slashes_to_queue cfg era s) = NextSlashId s"
  "BondedEras (add_era_slashes_to_queue cfg era s) = BondedEras s"
  "ValidatorSlashInEra (add_era_slashes_to_queue cfg era s) = ValidatorSlashInEra s"
  "historical_pruned (add_era_slashes_to_queue cfg era s) = historical_pruned s"
  by (simp_all add: add_era_slashes_to_queue_def Let_def split_beta enqueue_batches_frame)

text \<open>The queue depends on the slashes of the starting era alone.\<close>

lemma prune_fold:
  "Slashes (fold (\<lambda>(e, _, _). prune_era cfg e) ps s) = (\<lambda>e. if e \<in> fst ` set ps then [] else Slashes s e) \<and>
   UnsentSlashes (fold (\<lambda>(e, _, _). prune_era cfg e) ps s) = UnsentSlashes s \<and>
   NextSlashId (fold (\<lambda>(e, _, _). prune_era cfg e) ps s) = NextSlashId s \<and>
   historical_pruned (fold (\<lambda>(e, _, _). prune_era cfg e) ps s) = historical_pruned s \<and>
   (\<forall>e. e \<notin> fst ` set ps \<longrightarrow> ValidatorSlashInEra (fold (\<lambda>(e, _, _). prune_era cfg e) ps s) e = ValidatorSlashInEra s e)"
  by (induction ps arbitrary: s) (auto simp: prune_era_def fun_eq_iff)

lemma takeWhile_upt: "takeWhile (\<lambda>e. e < k) [a..<b] = [a..<min k b]"
proof (induction "b - a" arbitrary: a)
  case (Suc d)
  then have "a < b" by simp
  then show ?case using Suc(1) [of "Suc a"] Suc(2) by (simp add: upt_conv_Cons)
qed simp

text \<open>
  The era bookkeeping: with the eras from \<open>a\<close> to \<open>n - 1\<close> bonded, starting era \<open>n\<close> leaves those from
  \<open>n - BondingDuration\<close> on, and clears the slashes of the others.
\<close>

lemma sl_on_era_start_eq:
  fixes cfg :: sl_config and start :: SessionIndex and idx :: nat
  assumes b: "map fst (BondedEras s) = [a..<n]" and an: "a \<le> n"
  defines "s' \<equiv> sl_on_era_start cfg n start idx s"
    and "kept \<equiv> max a (n - BondingDuration cfg)"
  shows "map fst (BondedEras s') = [kept..<n + 1]"
    "BondedEras s' = drop (kept - a) (BondedEras s @ [(n, start, idx)])"
    "Slashes s' = (\<lambda>e. if a \<le> e \<and> e < kept then [] else Slashes s e)"
    "NextSlashId s' = NextSlashId s"
    "sl_valid s \<Longrightarrow> sl_valid s' \<and>
      sl_contents s' = sl_contents s @ take (63 - length (sl_contents s)) (era_batches cfg n (Slashes s n))"
proof -
  let ?b = "BondedEras s @ [(n, start, idx)]" and ?k = "n - BondingDuration cfg"
  define s1 where "s1 = (if BondingDuration cfg < n
     then (let s = fold (\<lambda>(e, _, _). prune_era cfg e) (take (kept - a) ?b) s in
           (case drop (kept - a) ?b of [] \<Rightarrow> s\<lparr>BondedEras := drop (kept - a) ?b\<rparr>
            | (_, first_session, _) # _ \<Rightarrow> s\<lparr>BondedEras := drop (kept - a) ?b, historical_pruned := historical_pruned s @ [first_session]\<rparr>))
     else s\<lparr>BondedEras := ?b\<rparr>)"
  have fb: "map fst ?b = [a..<n + 1]" using b an by simp
  have p: "(\<lambda>(e :: EraIndex, _ :: SessionIndex, _ :: nat). e < ?k) = (\<lambda>x. fst x < ?k)" by (auto simp: fun_eq_iff)
  have "length (takeWhile (\<lambda>(e, _, _). e < ?k) ?b) = length (takeWhile (\<lambda>e. e < ?k) (map fst ?b))"
    by (simp only: takeWhile_map length_map comp_def p)
  also have "\<dots> = kept - a" unfolding fb takeWhile_upt kept_def by auto
  finally have np: "length (takeWhile (\<lambda>(e, _, _). e < ?k) ?b) = kept - a" .
  have s': "s' = add_era_slashes_to_queue cfg n s1"
    by (simp only: s'_def sl_on_era_start_def Let_def sat_sub_def np s1_def)
  have bonded: "BondedEras s1 = drop (kept - a) ?b"
    by (auto simp: s1_def Let_def kept_def split: list.splits)
  show "BondedEras s' = drop (kept - a) ?b" using bonded s' by simp
  then have "map fst (BondedEras s') = drop (kept - a) [a..<n + 1]" using fb by (metis drop_map)
  then show "map fst (BondedEras s') = [kept..<n + 1]" using an by (simp add: kept_def del: upt_Suc)
  have "fst ` set (take (kept - a) ?b) = set (take (kept - a) [a..<n + 1])" using fb by (metis set_map take_map)
  also have "\<dots> = {e. a \<le> e \<and> e < kept}" using an by (auto simp: kept_def take_upt simp del: upt_Suc)
  finally have pr: "fst ` set (take (kept - a) ?b) = {e. a \<le> e \<and> e < kept}" .
  have sl: "Slashes s1 = (\<lambda>e. if a \<le> e \<and> e < kept then [] else Slashes s e)"
    using prune_fold [of cfg "take (kept - a) ?b" s] pr
    by (cases "BondingDuration cfg < n") (auto simp: s1_def Let_def kept_def fun_eq_iff split: list.splits)
  then show "Slashes s' = (\<lambda>e. if a \<le> e \<and> e < kept then [] else Slashes s e)" using s' by simp
  have un: "UnsentSlashes s1 = UnsentSlashes s" "NextSlashId s1 = NextSlashId s"
    using prune_fold [of cfg "take (kept - a) ?b" s] by (auto simp: s1_def Let_def split: list.splits)
  then show "NextSlashId s' = NextSlashId s" using s' by simp
  have "Slashes s1 n = Slashes s n" using sl an by (auto simp: kept_def less_max_iff_disj)
  then show "sl_valid s \<Longrightarrow> sl_valid s' \<and>
      sl_contents s' = sl_contents s @ take (63 - length (sl_contents s)) (era_batches cfg n (Slashes s n))"
    using add_era_slashes [of s1 cfg n] un s' by simp
qed

subsection \<open>Calls\<close>

lemma is_sorted_and_unique_iff: "is_sorted_and_unique xs \<longleftrightarrow> sorted_wrt (<) xs"
proof -
  have "is_sorted_and_unique xs \<longleftrightarrow> (\<forall>i. Suc i < length xs \<longrightarrow> xs ! i < xs ! Suc i)"
    by (simp add: is_sorted_and_unique_def less_diff_conv)
  then show ?thesis by (simp add: sorted_wrt_iff_nth_Suc_transp)
qed

lemma cancel_deferred_slash_accepted:
  assumes "cancel_deferred_slash cfg ev og era is s = Inr s'"
  shows "ensure_root og" "ae_index (ev_active_era ev) < era" "is \<noteq> []" "sorted_wrt (<) is" "\<forall>i \<in> set is. i < length (Slashes s era)"
    "s' = s\<lparr>Slashes := (Slashes s)(era := nths (Slashes s era) (- set is))\<rparr>"
proof -
  have *: "ensure_root og" "ae_index (ev_active_era ev) < era" "is \<noteq> []" "is_sorted_and_unique is"
      "is ! (length is - 1) < length (Slashes s era)"
      "s' = s\<lparr>Slashes := (Slashes s)(era := fold remove_nth (rev is) (Slashes s era))\<rparr>"
    using assms by (auto simp: cancel_deferred_slash_def Let_def split: if_splits)
  show "ensure_root og" "ae_index (ev_active_era ev) < era" "is \<noteq> []" using * by simp_all
  show srt: "sorted_wrt (<) is" using * is_sorted_and_unique_iff by simp
  have "last is < length (Slashes s era)" using * by (simp add: last_conv_nth)
  moreover have "i \<le> last is" if "i \<in> set is" for i
    using srt that by (induction "is") (auto simp: less_imp_le)
  ultimately show all: "\<forall>i \<in> set is. i < length (Slashes s era)" by fastforce
  show "s' = s\<lparr>Slashes := (Slashes s)(era := nths (Slashes s era) (- set is))\<rparr>"
    using *(6) foldr_remove_nth [OF srt all] by (simp add: foldr_conv_fold)
qed

lemma force_inject_slash_accepted:
  assumes "force_inject_slash cfg ev og era who pct kind s = Inr s'"
  shows "ensure_root og" "era \<le> ae_index (ev_active_era ev)" "era_max s era who < pct"
    "s' = sl_deposit (SlashInjected (NextSlashId s) (sat_add32 (sat_add32 era (SlashDeferDuration cfg)) 1))
       ((push_slash (sat_add32 (sat_add32 era (SlashDeferDuration cfg)) 1)
           \<lparr>validator = who, reporters = [], slash_id = NextSlashId s, percentage = pct,
            confirmed = (SlashDeferDuration cfg = 0), slash_offence = kind\<rparr>
           (s\<lparr>ValidatorSlashInEra := (ValidatorSlashInEra s)(era := AList.update who pct (ValidatorSlashInEra s era))\<rparr>))
         \<lparr>NextSlashId := sat_add32 (NextSlashId s) 1\<rparr>)"
proof -
  have 0: "sat_add32 (sat_add32 era 0) (Suc 0) = sat_add32 era (Suc 0)" by (simp add: sat_add_def)
  show "ensure_root og" "era \<le> ae_index (ev_active_era ev)" "era_max s era who < pct"
    using assms by (auto simp: force_inject_slash_def Let_def compute_slash_eq split: if_splits)
  then show "s' = sl_deposit (SlashInjected (NextSlashId s) (sat_add32 (sat_add32 era (SlashDeferDuration cfg)) 1))
       ((push_slash (sat_add32 (sat_add32 era (SlashDeferDuration cfg)) 1)
           \<lparr>validator = who, reporters = [], slash_id = NextSlashId s, percentage = pct,
            confirmed = (SlashDeferDuration cfg = 0), slash_offence = kind\<rparr>
           (s\<lparr>ValidatorSlashInEra := (ValidatorSlashInEra s)(era := AList.update who pct (ValidatorSlashInEra s era))\<rparr>))
         \<lparr>NextSlashId := sat_add32 (NextSlashId s) 1\<rparr>)"
    using assms by (auto simp: force_inject_slash_def Let_def compute_slash_eq 0 split: if_splits)
qed

lemma retry_unsent_slash_era_eq:
  assumes v: "sl_valid s" and g: "sl_GovernanceOrigin cfg og"
  shows "\<exists>r. retry_unsent_slash_era cfg sm og era (s, w) = Some r \<and>
    (case find (\<lambda>j. fst (sl_contents s ! j) = era) [0..<length (sl_contents s)] of
       None \<Rightarrow> r = Inl EraNotInUnsentQueue
     | Some j \<Rightarrow>
         (case send_slashes_message sm (map (slash_to_send_data cfg) (snd (sl_contents s ! j))) era w of
            (None, _) \<Rightarrow> r = Inl MessageSendFailed
          | (Some i, w') \<Rightarrow> \<exists>q. r = Inr (sl_deposit (SlashesMessageRetried i era (as_u32 (length (snd (sl_contents s ! j)))))
                                        (s\<lparr>UnsentSlashes := q\<rparr>), w') \<and>
              uq_valid q \<and> uq_contents q = remove_nth j (sl_contents s)))"
proof (cases "find (\<lambda>j. fst (sl_contents s ! j) = era) [0..<length (sl_contents s)]")
  case None
  then show ?thesis
    using g find_slot_head [OF v, of "\<lambda>(idx, _). idx = era"]
    by (simp add: retry_unsent_slash_era_def split_beta)
next
  case (Some j)
  then have j: "j < length (sl_contents s)" "fst (sl_contents s ! j) = era"
    by (auto simp: find_Some_iff)
  obtain q where q: "unsent_queue_remove_slot (slot_at (UnsentSlashes s) j) (UnsentSlashes s) = Some q" "uq_valid q"
      "uq_contents q = remove_nth j (sl_contents s)"
    using uq_remove_slot [OF v, of j] j by (auto simp: remove_nth_def)
  show ?thesis
    using g find_slot_head [OF v, of "\<lambda>(idx, _). idx = era"] Some j q
    by (cases "sl_contents s ! j")
      (auto simp: retry_unsent_slash_era_def split_beta sl_unsent_queue_remove_slot_def split: option.splits)
qed

section \<open>The pallet's steps\<close>

text \<open>
  Everything that can happen to the pallet: an offence is handled (with any state of the
  external-validators pallet at that time), its kind is noted or taken back, a governance call
  succeeds, a block begins, the next era starts.
\<close>

definition next_era :: "sl_state \<Rightarrow> EraIndex" where
  "next_era s = (if BondedEras s = [] then 0 else fst (last (BondedEras s)) + 1)"

inductive sl_step :: "sl_config \<Rightarrow> ('m, 't, 'w) slashes_sender \<Rightarrow> sl_state \<times> 'w \<Rightarrow> sl_state \<times> 'w \<Rightarrow> bool" for cfg sm where
  sl_offence: "sl_step cfg sm (s, w) (on_offence cfg ev offs fs session s, w)"
| sl_kinds: "sl_step cfg sm (s, w) (set_kinds session k vs s, w)"
| sl_cancel: "cancel_deferred_slash cfg ev og era is s = Inr s' \<Longrightarrow> sl_step cfg sm (s, w) (s', w)"
| sl_inject: "force_inject_slash cfg ev og era who pct k s = Inr s' \<Longrightarrow> sl_step cfg sm (s, w) (s', w)"
| sl_mode: "set_slashing_mode og mode s = Inr s' \<Longrightarrow> sl_step cfg sm (s, w) (s', w)"
| sl_retry: "retry_unsent_slash_era cfg sm og era (s, w) = Some (Inr sw') \<Longrightarrow> sl_step cfg sm (s, w) sw'"
| sl_block: "sl_step cfg sm (s, w) (sl_on_initialize cfg sm (s, w))"
| sl_era: "sl_step cfg sm (s, w) (sl_on_era_start cfg (next_era s) start idx s, w)"

inductive sl_reachable :: "sl_config \<Rightarrow> ('m, 't, 'w) slashes_sender \<Rightarrow> sl_state \<times> 'w \<Rightarrow> bool" for cfg sm where
  sl_genesis: "sl_reachable cfg sm (sl_build mode, w)"
| sl_next: "sl_reachable cfg sm x \<Longrightarrow> sl_step cfg sm x y \<Longrightarrow> sl_reachable cfg sm y"

text \<open>Identifiers of stored slashes lie below the counter and are not used twice.\<close>

definition ids_ok :: "nat \<Rightarrow> (EraIndex \<Rightarrow> slash list) \<Rightarrow> bool" where
  "ids_ok n S \<longleftrightarrow> (\<forall>e. distinct (map slash_id (S e)) \<and> (\<forall>x \<in> set (S e). slash_id x < n)) \<and>
     (\<forall>e e' x y. x \<in> set (S e) \<longrightarrow> y \<in> set (S e') \<longrightarrow> slash_id x = slash_id y \<longrightarrow> e = e')"

definition sl_inv :: "sl_config \<Rightarrow> sl_state \<Rightarrow> bool" where
  "sl_inv cfg s \<longleftrightarrow> sl_valid s \<and>
     (\<forall>b \<in> set (sl_contents s). snd b \<noteq> [] \<and> length (snd b) \<le> max (QueuedSlashesProcessedPerBlock cfg) 1) \<and>
     (\<exists>n. map fst (BondedEras s) = [n - 1 - BondingDuration cfg..<n]) \<and>
     NextSlashId s \<le> u32_max \<and> (NextSlashId s < u32_max \<longrightarrow> ids_ok (NextSlashId s) (Slashes s))"

lemma ids_ok_sub:
  assumes "ids_ok n S" and "\<And>e. \<exists>A. S' e = nths (S e) A"
  shows "ids_ok n S'"
proof -
  have sub: "set (S' e) \<subseteq> set (S e)" and dist: "distinct (map slash_id (S' e))" for e
  proof -
    obtain A where A: "S' e = nths (S e) A" using assms(2) by blast
    show "set (S' e) \<subseteq> set (S e)" unfolding A by (rule set_nths_subset)
    have "distinct (map slash_id (S e))" using assms(1) by (simp add: ids_ok_def)
    then show "distinct (map slash_id (S' e))" unfolding A by (simp add: nths_map [symmetric])
  qed
  then show ?thesis using assms(1) unfolding ids_ok_def by blast
qed

lemma ids_ok_push:
  assumes "ids_ok n S" and "slash_id x = n"
  shows "ids_ok (n + 1) (S(e := S e @ [x]))"
proof -
  have lt: "slash_id y < n" if "y \<in> set (S e')" for y e' using assms(1) that by (simp add: ids_ok_def)
  then have "x \<notin> set (S e')" for e' using assms(2) by fastforce
  then show ?thesis using assms lt unfolding ids_ok_def
    by (auto simp: less_Suc_eq fun_upd_def) (metis less_irrefl)+
qed

lemma offence_step_ids:
  assumes "n \<le> u32_max" "n < u32_max \<longrightarrow> ids_ok n (Slashes s)" and r: "offence_step cfg ev session era x (n, s) = (n', s')"
  shows "n' \<le> u32_max" "n' < u32_max \<longrightarrow> ids_ok n' (Slashes s')"
proof -
  obtain v reps f where x: "x = ((v, reps), f)" by (metis prod.collapse)
  let ?d = "deferred_to cfg (ae_index (ev_active_era ev)) era"
  have "n' = n \<and> Slashes s' = Slashes s \<or> n' = sat_add32 n 1 \<and>
      Slashes s' = (Slashes s)(?d := Slashes s ?d @
        [\<lparr>validator = v, reporters = reps, slash_id = n, percentage = f, confirmed = (SlashDeferDuration cfg = 0),
          slash_offence = the (PendingOffenceKind s (session, v))\<rparr>])"
    using r unfolding x
    by (auto simp: offence_step_def compute_slash_eq Let_def split: option.splits if_splits)
  then show "n' \<le> u32_max" "n' < u32_max \<longrightarrow> ids_ok n' (Slashes s')"
    using assms(1,2) ids_ok_push [of n "Slashes s"] by (auto simp: sat_add_def)
qed

lemma offence_fold_ids:
  "n \<le> u32_max \<Longrightarrow> n < u32_max \<longrightarrow> ids_ok n (Slashes s) \<Longrightarrow> fold (offence_step cfg ev session era) xs (n, s) = (n', s') \<Longrightarrow>
   n' \<le> u32_max \<and> (n' < u32_max \<longrightarrow> ids_ok n' (Slashes s'))"
proof (induction xs arbitrary: n s)
  case (Cons x xs)
  obtain n1 s1 where "offence_step cfg ev session era x (n, s) = (n1, s1)" by (metis prod.collapse)
  then show ?case using Cons offence_step_ids [of n s cfg ev session era x n1 s1] by simp
qed simp

lemma on_offence_inv:
  assumes "sl_inv cfg s"
  shows "sl_inv cfg (on_offence cfg ev offs fs session s)"
proof -
  let ?s = "on_offence cfg ev offs fs session s"
  have ids: "NextSlashId ?s \<le> u32_max \<and> (NextSlashId ?s < u32_max \<longrightarrow> ids_ok (NextSlashId ?s) (Slashes ?s))"
  proof (cases "SlashingMode s = Disabled \<or> slash_era_of ev session s = None")
    case True
    then have "?s = s" by (auto simp: on_offence_def)
    then show ?thesis using assms by (simp add: sl_inv_def)
  next
    case False
    then obtain era where era: "slash_era_of ev session s = Some era" by auto
    obtain n' s' where f: "fold (offence_step cfg ev session era) (zip offs fs) (NextSlashId s, s) = (n', s')"
      by (metis prod.collapse)
    then have "?s = s'\<lparr>NextSlashId := n'\<rparr>" using False era by (simp add: on_offence_def)
    then show ?thesis using offence_fold_ids [OF _ _ f] assms by (simp add: sl_inv_def)
  qed
  show ?thesis using assms ids by (simp add: sl_inv_def)
qed

lemma next_era_eq: "map fst (BondedEras s) = [n - 1 - d..<n] \<Longrightarrow> next_era s = n"
proof -
  assume b: "map fst (BondedEras s) = [n - 1 - d..<n]"
  show ?thesis
  proof (cases n)
    case 0
    then show ?thesis using b by (simp add: next_era_def)
  next
    case (Suc m)
    have "BondedEras s \<noteq> []" using b Suc by auto
    moreover have "fst (last (BondedEras s)) = last [n - 1 - d..<n]" using b calculation by (metis last_map)
    ultimately show ?thesis using Suc by (simp add: next_era_def)
  qed
qed

lemma sl_on_era_start_inv:
  assumes inv: "sl_inv cfg s"
  shows "sl_inv cfg (sl_on_era_start cfg (next_era s) start idx s)"
proof -
  obtain n where b: "map fst (BondedEras s) = [n - 1 - BondingDuration cfg..<n]" using inv by (auto simp: sl_inv_def)
  have n: "next_era s = n" by (rule next_era_eq [OF b])
  let ?s = "sl_on_era_start cfg n start idx s"
  note eq = sl_on_era_start_eq [OF b, of cfg start idx]
  have "max (n - 1 - BondingDuration cfg) (n - BondingDuration cfg) = Suc n - 1 - BondingDuration cfg" by simp
  then have w: "\<exists>m. map fst (BondedEras ?s) = [m - 1 - BondingDuration cfg..<m]"
    using eq(1) by (intro exI [of _ "Suc n"]) (simp del: upt_Suc)
  have "set (sl_contents ?s) \<subseteq> set (sl_contents s) \<union> set (era_batches cfg n (Slashes s n))"
    using eq(5) inv by (auto simp: sl_inv_def dest: in_set_takeD)
  then have "\<forall>b \<in> set (sl_contents ?s). snd b \<noteq> [] \<and> length (snd b) \<le> max (QueuedSlashesProcessedPerBlock cfg) 1"
    using inv chunks_bounds unfolding sl_inv_def era_batches_def by fastforce
  moreover have "\<exists>A. Slashes ?s e = nths (Slashes s e) A" for e
    using eq(3) by (cases "n - 1 - BondingDuration cfg \<le> e \<and> e < max (n - 1 - BondingDuration cfg) (n - BondingDuration cfg)")
      (auto intro: exI [of _ "{}"] exI [of _ UNIV] simp: nths_all)
  then have "NextSlashId s < u32_max \<longrightarrow> ids_ok (NextSlashId s) (Slashes ?s)"
    using ids_ok_sub inv unfolding sl_inv_def by blast
  ultimately show ?thesis using w eq(4,5) inv unfolding n sl_inv_def by simp
qed

lemma sl_step_inv: "sl_step cfg sm x y \<Longrightarrow> sl_inv cfg (fst x) \<Longrightarrow> sl_inv cfg (fst y)"
proof (induction rule: sl_step.induct)
  case (sl_offence s w ev offs fs session)
  then show ?case by (simp add: on_offence_inv)
next
  case (sl_cancel ev og era "is" s s' w)
  let ?S = "(Slashes s)(era := nths (Slashes s era) (- set is))"
  have "\<exists>A. ?S e = nths (Slashes s e) A" for e
    by (cases "e = era") (auto intro: exI [of _ UNIV] simp: nths_all)
  then have "ids_ok n (Slashes s) \<Longrightarrow> ids_ok n ?S" for n using ids_ok_sub by blast
  then show ?case using sl_cancel cancel_deferred_slash_accepted(6) [OF sl_cancel(1)] by (simp add: sl_inv_def)
next
  case (sl_inject ev og era who pct k s s' w)
  have "ids_ok n (Slashes s) \<Longrightarrow> slash_id z = n \<Longrightarrow> ids_ok (Suc n) ((Slashes s)(e := Slashes s e @ [z]))" for e z n
    using ids_ok_push [of n "Slashes s" z e] by simp
  then show ?case
    using sl_inject(2) force_inject_slash_accepted(4) [OF sl_inject(1)] by (auto simp: sl_inv_def sat_add_def)
next
  case (sl_retry og era s w sw')
  have v: "sl_valid s" and g: "sl_GovernanceOrigin cfg og"
    using sl_retry by (auto simp: sl_inv_def retry_unsent_slash_era_def split: if_splits)
  obtain q i n where "fst sw' = sl_deposit i (s\<lparr>UnsentSlashes := q\<rparr>)" "uq_valid q" "uq_contents q = remove_nth n (sl_contents s)"
    using retry_unsent_slash_era_eq [OF v g, of sm era w] sl_retry(1) by (auto split: option.splits prod.splits)
  moreover have "set (remove_nth n (sl_contents s)) \<subseteq> set (sl_contents s)"
    by (auto simp: remove_nth_def dest: in_set_takeD in_set_dropD)
  ultimately show ?case using sl_retry(2) unfolding sl_inv_def by auto
next
  case (sl_block s w)
  then have v: "sl_valid s" by (simp add: sl_inv_def)
  then show ?case
    using sl_block sl_on_initialize_frame [OF v, of cfg sm w] slash_hook.step_valid [where s = "(s, w)" and cfg = cfg and sm = sm]
      slash_hook.run_keeps [where s = "(s, w)" and cfg = cfg and sm = sm and j = 1] by (fastforce simp: sl_inv_def)
next
  case (sl_era s w start idx)
  then show ?case by (simp add: sl_on_era_start_inv)
qed (auto simp: set_kinds_def set_slashing_mode_def sl_inv_def split: if_splits)

lemma sl_reachable_inv: "sl_reachable cfg sm x \<Longrightarrow> sl_inv cfg (fst x)"
proof (induction rule: sl_reachable.induct)
  case (sl_genesis mode w)
  show ?case by (auto simp: sl_inv_def sl_build_def ids_ok_def intro: exI [of _ 0])
qed (blast intro: sl_step_inv)

end
