(* ===== verification/Perbill.thy ===== *)
theory Perbill
  imports DH_Prelude
begin

text \<open>
  The fixed-point fractions (\<open>Perbill\<close>, parts per billion) that the rewards and inflation code computes
  with. Their arithmetic is a library of the runtime framework, so its operations are a
  parameter of the model: \<open>perbill_ops\<close>, with the documented behaviour the code relies on
  collected in \<open>perbill_laws\<close>: the operations stay within one whole, \<open>mul_floor\<close> rounds the product
  down, \<open>from_rational\<close> is monotone and exact at nothing and at a whole, \<open>from_percent\<close> takes hundredths
  and stops at a whole, and the saturating operations clip at the ends. The standard
  instance \<open>perbill_std\<close> satisfies them.
\<close>

record perbill_ops =
  pb_mul_floor :: "perbill \<Rightarrow> nat \<Rightarrow> nat"
  pb_from_rational :: "nat \<Rightarrow> nat \<Rightarrow> perbill"
  pb_from_percent :: "nat \<Rightarrow> perbill"
  pb_saturating_add :: "perbill \<Rightarrow> perbill \<Rightarrow> perbill"
  pb_saturating_sub :: "perbill \<Rightarrow> perbill \<Rightarrow> perbill"
  pb_saturating_mul :: "perbill \<Rightarrow> perbill \<Rightarrow> perbill"

definition perbill_laws :: "perbill_ops \<Rightarrow> bool" where
  "perbill_laws ops \<longleftrightarrow>
     (\<forall>p x. pb_mul_floor ops p x = p * x div ACCURACY) \<and>
     (\<forall>p q. pb_from_rational ops p q \<le> ACCURACY) \<and>
     (\<forall>q. 0 < q \<longrightarrow> pb_from_rational ops q q = ACCURACY \<and> pb_from_rational ops 0 q = 0) \<and>
     (\<forall>p p' q. p \<le> p' \<longrightarrow> pb_from_rational ops p q \<le> pb_from_rational ops p' q) \<and>
     (\<forall>n. pb_from_percent ops n = min n 100 * (ACCURACY div 100)) \<and>
     (\<forall>a b. pb_saturating_add ops a b = min (a + b) ACCURACY) \<and>
     (\<forall>a b. pb_saturating_sub ops a b = a - b) \<and>
     (\<forall>a. a \<le> ACCURACY \<longrightarrow> pb_saturating_mul ops a ACCURACY = a \<and> pb_saturating_mul ops a 0 = 0)"

definition perbill_std :: perbill_ops where
  "perbill_std = \<lparr>pb_mul_floor = \<lambda>p x. p * x div ACCURACY,
     pb_from_rational = \<lambda>p q. if q = 0 then ACCURACY else min p q * ACCURACY div q,
     pb_from_percent = \<lambda>n. min n 100 * (ACCURACY div 100),
     pb_saturating_add = \<lambda>a b. min (a + b) ACCURACY,
     pb_saturating_sub = \<lambda>a b. a - b,
     pb_saturating_mul = \<lambda>a b. a * b div ACCURACY\<rparr>"

lemma perbill_std_laws: "perbill_laws perbill_std"
proof -
  have le: "min p q * ACCURACY div q \<le> ACCURACY" if "q \<noteq> 0" for p q :: nat
  proof -
    have "min p q * ACCURACY div q \<le> q * ACCURACY div q" by (intro div_le_mono mult_le_mono1) simp
    then show ?thesis using that by simp
  qed
  have mono: "min p q * ACCURACY div q \<le> min p' q * ACCURACY div q" if "p \<le> p'" for p p' q :: nat
    using that by (intro div_le_mono mult_le_mono1) simp
  have whole: "a * ACCURACY div ACCURACY = a" for a by (simp add: ACCURACY_def)
  show ?thesis unfolding perbill_laws_def perbill_std_def using le mono whole by simp
qed

lemma perbill_lawsD:
  assumes "perbill_laws ops"
  shows "pb_mul_floor ops p x = p * x div ACCURACY" "pb_from_rational ops p q \<le> ACCURACY"
    "0 < q \<Longrightarrow> pb_from_rational ops q q = ACCURACY" "0 < q \<Longrightarrow> pb_from_rational ops 0 q = 0"
    "p \<le> p' \<Longrightarrow> pb_from_rational ops p q \<le> pb_from_rational ops p' q"
    "pb_from_percent ops n = min n 100 * (ACCURACY div 100)"
    "pb_saturating_add ops a b = min (a + b) ACCURACY" "pb_saturating_sub ops a b = a - b"
    "a \<le> ACCURACY \<Longrightarrow> pb_saturating_mul ops a ACCURACY = a" "a \<le> ACCURACY \<Longrightarrow> pb_saturating_mul ops a 0 = 0"
  using assms unfolding perbill_laws_def by simp_all

text \<open>Rounding a fraction of an amount down never exceeds the amount.\<close>

lemma fraction_le: "p \<le> ACCURACY \<Longrightarrow> p * x div ACCURACY \<le> (x :: nat)"
proof -
  assume "p \<le> ACCURACY"
  then have "p * x div ACCURACY \<le> ACCURACY * x div ACCURACY" by (intro div_le_mono mult_le_mono1)
  then show ?thesis by (simp add: ACCURACY_def)
qed

lemma fraction_mono: "p \<le> p' \<Longrightarrow> x \<le> x' \<Longrightarrow> p * x div ACCURACY \<le> p' * (x' :: nat) div ACCURACY"
  by (intro div_le_mono mult_le_mono)

text \<open>What the clients use.\<close>

lemma mul_floor_le: "perbill_laws ops \<Longrightarrow> p \<le> ACCURACY \<Longrightarrow> pb_mul_floor ops p x \<le> x"
  using fraction_le by (simp add: perbill_lawsD(1))

lemma mul_floor_mono: "perbill_laws ops \<Longrightarrow> p \<le> p' \<Longrightarrow> x \<le> x' \<Longrightarrow> pb_mul_floor ops p x \<le> pb_mul_floor ops p' x'"
  using fraction_mono by (simp add: perbill_lawsD(1))

lemma mul_floor_whole: "perbill_laws ops \<Longrightarrow> pb_mul_floor ops ACCURACY x = x"
  by (simp add: perbill_lawsD(1) ACCURACY_def)

lemma mul_floor_zero: "perbill_laws ops \<Longrightarrow> pb_mul_floor ops 0 x = 0"
  by (simp add: perbill_lawsD(1))

lemma from_percent_mul: "perbill_laws ops \<Longrightarrow> n \<le> 100 \<Longrightarrow> pb_mul_floor ops (pb_from_percent ops n) x = n * x div 100"
proof -
  assume "perbill_laws ops" "n \<le> 100"
  then have "pb_mul_floor ops (pb_from_percent ops n) x = (n * 10000000 * x) div 1000000000"
    by (simp add: perbill_lawsD(1,6) ACCURACY_def)
  also have "\<dots> = (10000000 * (n * x)) div (10000000 * 100)" by (simp add: ac_simps)
  also have "\<dots> = n * x div 100" by (simp only: div_mult_mult1)
  finally show ?thesis .
qed

end
