(* ===== verification/Rewards.thy ===== *)
theory Rewards
  imports Validator_Slashes Perbill
begin

text \<open>
  The external-validators-rewards pallet (\<open>operator/pallets/external-validators-rewards/src/lib.rs\<close> and
  \<open>types.rs\<close>): blocks authored in a session become reward points of the active era; at the end of an era the
  inflation, scaled by the blocks produced, is minted and a rewards message is sent to Ethereum; eras
  whose message failed wait in the retry ring buffer until sent or until their points are pruned.
  Minting and sending are functions over the state \<open>'w\<close> of what lies behind them.
\<close>

section \<open>Data\<close>

record era_rewards_utils =
  eu_era_index :: EraIndex
  eu_era_start_timestamp :: nat
  eu_total_points :: nat
  eu_individual_points :: "(H160 \<times> nat) list"
  eu_inflation_amount :: nat

record era_reward_points =
  erp_total :: nat
  individual :: "(AccountId \<times> nat) list"

definition era_reward_points_default :: era_reward_points where
  "era_reward_points_default = \<lparr>erp_total = 0, individual = []\<rparr>"

record inflation_mint_result =
  rewards_amount :: nat
  treasury_amount :: nat

type_synonym unsent_era = "EraIndex \<times> nat \<times> nat"

datatype rw_event =
    RewardsMessageSent H256 EraIndex nat nat
  | RewardsMessageSendFailed EraIndex
  | RewardsMessageRetried H256 EraIndex nat nat
  | UnsentEraExpired EraIndex
  | RwUnsentQueueFull EraIndex

datatype rw_error = RwBadOrigin | RwEraNotInUnsentQueue | RewardPointsPruned | RwMessageSendFailed

text \<open>
  The pallet's \<open>Config\<close>. \<open>EraInflationProvider\<close> and \<open>mint_inflation\<close> read and change the state behind the
  pallet; \<open>perbill\<close> is the fraction arithmetic.
\<close>

record ('m, 't, 'w) rw_config =
  rw_HistoryDepth :: EraIndex
  BasePointsPerBlock :: nat
  BlockAuthoringWeight :: perbill
  LivenessWeight :: perbill
  FairShareCap :: perbill
  ExpectedBlocksPerEra :: nat
  MinInflationPercent :: nat
  MaxInflationPercent :: nat
  RewardsEthereumSovereignAccount :: AccountId
  rw_GovernanceOrigin :: "origin \<Rightarrow> bool"
  EraInflationProvider :: "'w \<Rightarrow> nat"
  mint_inflation :: "AccountId \<Rightarrow> nat \<Rightarrow> 'w \<Rightarrow> inflation_mint_result option \<times> 'w"
  rw_SendMessage :: "(era_rewards_utils, 'm, 't, 'w) send_message"
  perbill :: perbill_ops

record rw_state =
  RewardPointsForEra :: "EraIndex \<Rightarrow> era_reward_points"
  BlocksAuthoredInSession :: "(AccountId \<times> nat) list"
  BlocksProducedInEra :: "EraIndex \<Rightarrow> nat"
  UnsentRewards :: "unsent_era unsent_queue"
  rw_events :: "rw_event list"

definition rw_empty :: rw_state where
  "rw_empty = \<lparr>RewardPointsForEra = (\<lambda>_. era_reward_points_default), BlocksAuthoredInSession = [],
     BlocksProducedInEra = (\<lambda>_. 0), UnsentRewards = uq_empty, rw_events = []\<rparr>"

definition rw_deposit :: "rw_event \<Rightarrow> rw_state \<Rightarrow> rw_state" where
  "rw_deposit e s = s\<lparr>rw_events := rw_events s @ [e]\<rparr>"

section \<open>Points\<close>

definition generate_era_rewards_info ::
  "era_reward_points \<Rightarrow> EraIndex \<Rightarrow> nat \<Rightarrow> nat \<Rightarrow> era_rewards_utils option" where
  "generate_era_rewards_info erp era_index inflation_amount era_start_timestamp =
     (let individual_points = individual erp; total_points = sum_list (map snd individual_points) in
      if total_points = 0 then None
      else Some \<lparr>eu_era_index = era_index, eu_era_start_timestamp = era_start_timestamp, eu_total_points = total_points,
                 eu_individual_points = individual_points, eu_inflation_amount = inflation_amount\<rparr>)"

text \<open>\<open>entry(validator).or_default()\<close> and the saturating addition to it and to the total.\<close>

fun accrue :: "AccountId \<times> nat \<Rightarrow> era_reward_points \<Rightarrow> era_reward_points" where
  "accrue (v, pts) erp =
     erp\<lparr>individual := bt_insert v (sat_add32 (case bt_get (individual erp) v of Some p \<Rightarrow> p | None \<Rightarrow> 0) pts) (individual erp),
         erp_total := sat_add32 (erp_total erp) pts\<rparr>"

definition reward_by_ids :: "EraIndex \<Rightarrow> (AccountId \<times> nat) list \<Rightarrow> rw_state \<Rightarrow> rw_state" where
  "reward_by_ids active_era points s =
     s\<lparr>RewardPointsForEra := (RewardPointsForEra s)(active_era := fold accrue points (RewardPointsForEra s active_era))\<rparr>"

definition blocks_authored_by :: "rw_state \<Rightarrow> AccountId \<Rightarrow> nat" where
  "blocks_authored_by s v = (case map_of (BlocksAuthoredInSession s) v of Some n \<Rightarrow> n | None \<Rightarrow> 0)"

definition note_block_author :: "EraIndex \<Rightarrow> AccountId \<Rightarrow> rw_state \<Rightarrow> rw_state" where
  "note_block_author active_era author s =
     (let s = s\<lparr>BlocksAuthoredInSession := AList.update author (sat_add32 (blocks_authored_by s author) 1) (BlocksAuthoredInSession s)\<rparr>
      in s\<lparr>BlocksProducedInEra := (BlocksProducedInEra s)(active_era := sat_add32 (BlocksProducedInEra s active_era) 1)\<rparr>)"

definition calculate_scaled_inflation :: "('m, 't, 'w) rw_config \<Rightarrow> EraIndex \<Rightarrow> nat \<Rightarrow> rw_state \<Rightarrow> nat" where
  "calculate_scaled_inflation cfg era_index base_inflation s =
     (let blocks_produced = BlocksProducedInEra s era_index;
          expected_blocks = ExpectedBlocksPerEra cfg;
          min_percent = MinInflationPercent cfg;
          max_percent = MaxInflationPercent cfg;
          performance_ratio = (if 0 < expected_blocks
            then pb_from_rational (perbill cfg) (min blocks_produced expected_blocks) expected_blocks
            else ACCURACY);
          inflation_percent = sat_add32 min_percent (pb_mul_floor (perbill cfg) performance_ratio (sat_sub max_percent min_percent))
      in pb_mul_floor (perbill cfg) (pb_from_percent (perbill cfg) inflation_percent) base_inflation)"

text \<open>The weights of authoring, liveness and the unconditional base.\<close>

definition reward_weights :: "('m, 't, 'w) rw_config \<Rightarrow> perbill \<times> perbill \<times> perbill" where
  "reward_weights cfg =
     (let raw_block = BlockAuthoringWeight cfg; raw_liveness = LivenessWeight cfg;
          sum = pb_saturating_add (perbill cfg) raw_block raw_liveness in
      if ACCURACY < sum
      then (let scale = pb_from_rational (perbill cfg) ACCURACY sum in
            (pb_saturating_mul (perbill cfg) scale raw_block, pb_saturating_mul (perbill cfg) scale raw_liveness, 0))
      else (raw_block, raw_liveness,
            pb_saturating_sub (perbill cfg) (pb_saturating_sub (perbill cfg) ACCURACY raw_block) raw_liveness))"

text \<open>The points of one validator that authored \<open>blocks_authored\<close> of \<open>total_blocks\<close> among \<open>count\<close> validators.\<close>

definition max_credited :: "('m, 't, 'w) rw_config \<Rightarrow> nat \<Rightarrow> nat \<Rightarrow> nat" where
  "max_credited cfg total_blocks total_validator_count =
     (let fair_share = max (case checked_div total_blocks total_validator_count of Some q \<Rightarrow> q | None \<Rightarrow> 1) 1
      in sat_add32 fair_share (pb_mul_floor (perbill cfg) (FairShareCap cfg) fair_share))"

definition session_points :: "('m, 't, 'w) rw_config \<Rightarrow> nat \<Rightarrow> nat \<Rightarrow> nat \<Rightarrow> nat" where
  "session_points cfg total_blocks total_validator_count blocks_authored =
     (let (block_weight, liveness_weight, base_weight) = reward_weights cfg;
          credited_blocks = min blocks_authored (max_credited cfg total_blocks total_validator_count);
          liveness_score = (if 0 < blocks_authored then ACCURACY else 0);
          base_points = BasePointsPerBlock cfg;
          block_contribution = pb_mul_floor (perbill cfg) block_weight (sat_mul32 credited_blocks base_points);
          other_weight = pb_saturating_add (perbill cfg) (pb_saturating_mul (perbill cfg) liveness_weight liveness_score) base_weight;
          effective_total_for_other = max total_blocks total_validator_count;
          total_other_pool = pb_mul_floor (perbill cfg) other_weight (sat_mul32 effective_total_for_other base_points);
          liveness_base_contribution = total_other_pool div total_validator_count
      in sat_add32 block_contribution liveness_base_contribution)"

definition award_session_performance_points ::
  "('m, 't, 'w) rw_config \<Rightarrow> EraIndex \<Rightarrow> AccountId list \<Rightarrow> AccountId list \<Rightarrow> rw_state \<Rightarrow> rw_state" where
  "award_session_performance_points cfg active_era vals whitelisted_validators s =
     (let total_blocks = sum_u32 (map snd (BlocksAuthoredInSession s));
          non_whitelisted = filter (\<lambda>v. v \<notin> set whitelisted_validators) vals;
          non_whitelisted_count = as_u32 (length non_whitelisted) in
      if non_whitelisted_count = 0 then s\<lparr>BlocksAuthoredInSession := []\<rparr>
      else (let total_validator_count = as_u32 (length vals);
                rewards = filter (\<lambda>(v, points). 0 < points)
                  (map (\<lambda>v. (v, session_points cfg total_blocks total_validator_count (blocks_authored_by s v))) non_whitelisted);
                s = (if rewards \<noteq> [] then reward_by_ids active_era rewards s else s)
            in s\<lparr>BlocksAuthoredInSession := []\<rparr>))"

section \<open>Sending\<close>

definition send_rewards_message :: "('m, 't, 'w) rw_config \<Rightarrow> era_rewards_utils \<Rightarrow> 'w \<Rightarrow> H256 option \<times> 'w" where
  "send_rewards_message cfg info w = send_via (rw_SendMessage cfg) info w"

definition rw_unsent_queue_push :: "unsent_era \<Rightarrow> rw_state \<Rightarrow> bool \<times> rw_state" where
  "rw_unsent_queue_push entry s =
     (let (ok, q) = unsent_queue_push entry (UnsentRewards s) in (ok, s\<lparr>UnsentRewards := q\<rparr>))"

definition rw_unsent_queue_remove_slot :: "u32 \<Rightarrow> rw_state \<Rightarrow> rw_state option" where
  "rw_unsent_queue_remove_slot slot s =
     map_option (\<lambda>q. s\<lparr>UnsentRewards := q\<rparr>) (unsent_queue_remove_slot slot (UnsentRewards s))"

definition process_unsent_reward_eras :: "('m, 't, 'w) rw_config \<Rightarrow> rw_state \<times> 'w \<Rightarrow> rw_state \<times> 'w" where
  "process_unsent_reward_eras cfg sw =
     (let (s, w) = sw; q = UnsentRewards s in
      if uq_head q = uq_tail q then (s, w)
      else (case uq_slots q (uq_head q) of
              None \<Rightarrow> (s\<lparr>UnsentRewards := skip_head q\<rparr>, w)
            | Some (era_index, timestamp, inflation) \<Rightarrow>
                (case generate_era_rewards_info (RewardPointsForEra s era_index) era_index inflation timestamp of
                   None \<Rightarrow> (rw_deposit (UnsentEraExpired era_index) (s\<lparr>UnsentRewards := drop_head q\<rparr>), w)
                 | Some info \<Rightarrow>
                     (case send_rewards_message cfg info w of
                        (Some message_id, w) \<Rightarrow>
                          (rw_deposit (RewardsMessageRetried message_id era_index (eu_total_points info) inflation)
                             (s\<lparr>UnsentRewards := drop_head q\<rparr>), w)
                      | (None, w) \<Rightarrow> (s\<lparr>UnsentRewards := requeue_head (era_index, timestamp, inflation) q\<rparr>, w)))))"

definition rw_on_initialize :: "('m, 't, 'w) rw_config \<Rightarrow> rw_state \<times> 'w \<Rightarrow> rw_state \<times> 'w" where
  "rw_on_initialize cfg sw = process_unsent_reward_eras cfg sw"

definition retry_unsent_reward_era ::
  "('m, 't, 'w) rw_config \<Rightarrow> origin \<Rightarrow> EraIndex \<Rightarrow> rw_state \<times> 'w \<Rightarrow> (rw_error + rw_state \<times> 'w) option" where
  "retry_unsent_reward_era cfg og era_index sw =
     (let (s, w) = sw in
      if \<not> rw_GovernanceOrigin cfg og then Some (Inl RwBadOrigin)
      else do {
        found \<leftarrow> find_slot (\<lambda>(idx, _, _). idx = era_index) (uq_tail (UnsentRewards s)) (uq_slots (UnsentRewards s))
                   (uq_head (UnsentRewards s));
        (case found of
           None \<Rightarrow> Some (Inl RwEraNotInUnsentQueue)
         | Some (slot, _, timestamp, inflation) \<Rightarrow>
             (case generate_era_rewards_info (RewardPointsForEra s era_index) era_index inflation timestamp of
                None \<Rightarrow> Some (Inl RewardPointsPruned)
              | Some info \<Rightarrow>
                  (case send_rewards_message cfg info w of
                     (None, _) \<Rightarrow> Some (Inl RwMessageSendFailed)
                   | (Some message_id, w) \<Rightarrow>
                       do {
                         s \<leftarrow> rw_unsent_queue_remove_slot slot s;
                         Some (Inr (rw_deposit (RewardsMessageRetried message_id era_index (eu_total_points info) inflation) s, w))
                       })))
      })"

section \<open>Eras\<close>

definition rw_on_era_start :: "('m, 't, 'w) rw_config \<Rightarrow> EraIndex \<Rightarrow> rw_state \<Rightarrow> rw_state option" where
  "rw_on_era_start cfg era_index s =
     (case checked_sub era_index (rw_HistoryDepth cfg) of
        None \<Rightarrow> Some s
      | Some era_index_to_delete \<Rightarrow>
          (let s = s\<lparr>RewardPointsForEra := (RewardPointsForEra s)(era_index_to_delete := era_reward_points_default),
                    BlocksProducedInEra := (BlocksProducedInEra s)(era_index_to_delete := 0)\<rparr> in
           do {
             (q, expired) \<leftarrow> expire_loop (\<lambda>(idx, _, _). idx \<le> era_index_to_delete) (uq_head (UnsentRewards s)) (UnsentRewards s) [];
             Some (fold (\<lambda>(idx, _, _). rw_deposit (UnsentEraExpired idx)) expired (s\<lparr>UnsentRewards := q\<rparr>))
           }))"

text \<open>The start of the era as seconds in a \<open>u32\<close>: milliseconds over a thousand, cast.\<close>

definition era_start_seconds :: "active_era_info \<Rightarrow> nat" where
  "era_start_seconds info = (case ae_start info of Some ms \<Rightarrow> as_u32 (ms div 1000) | None \<Rightarrow> 0)"

definition rw_on_era_end :: "('m, 't, 'w) rw_config \<Rightarrow> ev_state \<Rightarrow> EraIndex \<Rightarrow> rw_state \<times> 'w \<Rightarrow> rw_state \<times> 'w" where
  "rw_on_era_end cfg ev era_index sw =
     (let (s, w) = sw;
          base_inflation = EraInflationProvider cfg w;
          scaled_inflation = calculate_scaled_inflation cfg era_index base_inflation s;
          total_points = sum_list (map snd (individual (RewardPointsForEra s era_index))) in
      if total_points = 0 then (s, w)
      else (case mint_inflation cfg (RewardsEthereumSovereignAccount cfg) scaled_inflation w of
              (None, w) \<Rightarrow> (s, w)
            | (Some mint_result, w) \<Rightarrow>
                (let era_start_timestamp = era_start_seconds (ev_active_era ev) in
                 case generate_era_rewards_info (RewardPointsForEra s era_index) era_index (rewards_amount mint_result) era_start_timestamp of
                   None \<Rightarrow> (s, w)
                 | Some info \<Rightarrow>
                     (case send_rewards_message cfg info w of
                        (Some message_id, w) \<Rightarrow>
                          (rw_deposit (RewardsMessageSent message_id era_index (eu_total_points info) (rewards_amount mint_result)) s, w)
                      | (None, w) \<Rightarrow>
                          (case rw_unsent_queue_push (era_index, era_start_timestamp, rewards_amount mint_result) s of
                             (True, s) \<Rightarrow> (rw_deposit (RewardsMessageSendFailed era_index) s, w)
                           | (False, s) \<Rightarrow> (rw_deposit (RwUnsentQueueFull era_index) s, w))))))"

text \<open>
  The session manager wrapper: at the end of a session the points are awarded for the session's validators,
  then the inner manager ends the session.
\<close>

definition performance_end_session ::
  "('m, 't, 'w) rw_config \<Rightarrow> (SessionIndex \<Rightarrow> ev_state \<times> rw_state \<times> 'v \<Rightarrow> ev_state \<times> rw_state \<times> 'v) \<Rightarrow> AccountId list \<Rightarrow>
   SessionIndex \<Rightarrow> ev_state \<times> rw_state \<times> 'v \<Rightarrow> ev_state \<times> rw_state \<times> 'v" where
  "performance_end_session cfg inner_end_session session_validators end_index x =
     (let (ev, s, w) = x;
          s = award_session_performance_points cfg (ae_index (ev_active_era ev)) session_validators
                (WhitelistedValidatorsActiveEra ev) s
      in inner_end_session end_index (ev, s, w))"

end
