(* ===== verification/Rewards_Correct.thy ===== *)
theory Rewards_Correct
  imports Rewards
begin

text \<open>
  The rewards pallet: lemmas on points, scaling and the unsent queue, the invariant of the queue over the
  pallet's steps, and its properties.
\<close>

section \<open>Points\<close>


abbreviation erp_get :: "era_reward_points \<Rightarrow> AccountId \<Rightarrow> nat" where
  "erp_get e v \<equiv> (case bt_get (individual e) v of Some p \<Rightarrow> p | None \<Rightarrow> 0)"

lemma accrue_wf: "bt_wf (individual e) \<Longrightarrow> bt_wf (individual (accrue x e))"
  by (cases x) simp

lemma accrue_get: "bt_wf (individual e) \<Longrightarrow>
    erp_get (accrue (v, p) e) u = (if u = v then sat_add32 (erp_get e v) p else erp_get e u)"
  by (simp add: bt_get_insert)

lemma fold_accrue_wf: "bt_wf (individual e) \<Longrightarrow> bt_wf (individual (fold accrue xs e))"
  by (induction xs arbitrary: e) (simp_all add: accrue_wf)


text \<open>Accruing never lowers a validator's points, so a positive sum stays positive.\<close>

lemma sum_points_pos: "sum_list (map snd m) \<noteq> (0 :: nat) \<longleftrightarrow> (\<exists>x \<in> set m. 0 < snd x)"
  by (induction m) auto

lemma bt_get_mem: "bt_wf m \<Longrightarrow> bt_get m k = Some v \<longleftrightarrow> (k, v) \<in> set m"
  using bt_wf_distinct [of m] by (simp add: bt_get_def)

lemma sum_points_pos_get: "bt_wf m \<Longrightarrow> sum_list (map snd m) \<noteq> (0 :: nat) \<longleftrightarrow>
    (\<exists>v. 0 < (case bt_get m v of Some p \<Rightarrow> p | None \<Rightarrow> 0))"
proof -
  assume wf: "bt_wf m"
  have "(\<exists>x \<in> set m. 0 < snd x) \<longleftrightarrow> (\<exists>v p. (v, p) \<in> set m \<and> 0 < p)" by (metis prod.collapse snd_conv)
  also have "\<dots> \<longleftrightarrow> (\<exists>v. 0 < (case bt_get m v of Some p \<Rightarrow> p | None \<Rightarrow> 0))"
    unfolding bt_get_mem [OF wf, symmetric] by (simp split: option.split) (metis not_None_eq option.inject)
  finally show ?thesis unfolding sum_points_pos .
qed

lemma accrue_pos:
  assumes "bt_wf (individual e)" "sum_list (map snd (individual e)) \<noteq> 0" "\<forall>v. erp_get e v \<le> u32_max"
  shows "sum_list (map snd (individual (accrue x e))) \<noteq> 0"
proof -
  obtain v p where x: "x = (v, p)" by (cases x)
  obtain u where "0 < erp_get e u" using assms(1,2) sum_points_pos_get by blast
  then have "0 < erp_get (accrue x e) u"
    unfolding x accrue_get [OF assms(1)] using assms(3) by (auto simp: sat_add_def u32_max_def)
  then show ?thesis using sum_points_pos_get [OF accrue_wf [OF assms(1), of x]] by blast
qed

lemma accrue_le: "bt_wf (individual e) \<Longrightarrow> \<forall>v. erp_get e v \<le> u32_max \<Longrightarrow> \<forall>v. erp_get (accrue x e) v \<le> u32_max"
  by (cases x) (simp add: bt_get_insert)

lemma fold_accrue_pos:
  "bt_wf (individual e) \<Longrightarrow> \<forall>v. erp_get e v \<le> u32_max \<Longrightarrow> sum_list (map snd (individual e)) \<noteq> 0 \<Longrightarrow>
   sum_list (map snd (individual (fold accrue xs e))) \<noteq> 0"
proof (induction xs arbitrary: e)
  case (Cons x xs)
  show ?case
    using Cons.IH [OF accrue_wf [OF Cons.prems(1)] accrue_le [OF Cons.prems(1,2)] accrue_pos [OF Cons.prems(1,3,2)]] by simp
qed simp

lemma fold_accrue_le: "bt_wf (individual e) \<Longrightarrow> \<forall>v. erp_get e v \<le> u32_max \<Longrightarrow> \<forall>v. erp_get (fold accrue xs e) v \<le> u32_max"
proof (induction xs arbitrary: e)
  case (Cons x xs)
  then show ?case using Cons.IH [OF accrue_wf accrue_le] by simp
qed simp

section \<open>Scaling\<close>

definition inflation_percent :: "('m, 't, 'w) rw_config \<Rightarrow> nat \<Rightarrow> nat" where
  "inflation_percent cfg blocks_produced =
     (let ratio = (if 0 < ExpectedBlocksPerEra cfg
        then pb_from_rational (perbill cfg) (min blocks_produced (ExpectedBlocksPerEra cfg)) (ExpectedBlocksPerEra cfg) else ACCURACY)
      in sat_add32 (MinInflationPercent cfg) (pb_mul_floor (perbill cfg) ratio (MaxInflationPercent cfg - MinInflationPercent cfg)))"

lemma calculate_scaled_inflation_eq:
  "calculate_scaled_inflation cfg era base s =
     pb_mul_floor (perbill cfg) (pb_from_percent (perbill cfg) (inflation_percent cfg (BlocksProducedInEra s era))) base"
  by (simp add: calculate_scaled_inflation_def inflation_percent_def Let_def sat_sub_def)

lemma inflation_percent_bounds:
  assumes laws: "perbill_laws (perbill cfg)" and mm: "MinInflationPercent cfg \<le> MaxInflationPercent cfg" "MaxInflationPercent cfg \<le> 100"
  shows "MinInflationPercent cfg \<le> inflation_percent cfg b" "inflation_percent cfg b \<le> MaxInflationPercent cfg"
    "b \<le> b' \<Longrightarrow> inflation_percent cfg b \<le> inflation_percent cfg b'"
    "ExpectedBlocksPerEra cfg \<le> b \<Longrightarrow> inflation_percent cfg b = MaxInflationPercent cfg"
    "0 < ExpectedBlocksPerEra cfg \<Longrightarrow> inflation_percent cfg 0 = MinInflationPercent cfg"
proof -
  let ?d = "MaxInflationPercent cfg - MinInflationPercent cfg" and ?E = "ExpectedBlocksPerEra cfg"
  define r where "r b = (if 0 < ?E then pb_from_rational (perbill cfg) (min b ?E) ?E else ACCURACY)" for b
  have le: "pb_mul_floor (perbill cfg) (r b) ?d \<le> ?d" for b
    by (rule mul_floor_le [OF laws]) (simp add: r_def perbill_lawsD(2) [OF laws])
  have p: "inflation_percent cfg b = MinInflationPercent cfg + pb_mul_floor (perbill cfg) (r b) ?d" for b
    unfolding inflation_percent_def Let_def r_def [symmetric]
    by (rule sat_add_exact) (use le [of b] mm in \<open>simp add: u32_max_def\<close>)
  show "MinInflationPercent cfg \<le> inflation_percent cfg b" "inflation_percent cfg b \<le> MaxInflationPercent cfg"
    using le [of b] mm unfolding p by simp_all
  have "r b \<le> r b'" if "b \<le> b'" using that by (simp add: r_def perbill_lawsD(5) [OF laws])
  then show "b \<le> b' \<Longrightarrow> inflation_percent cfg b \<le> inflation_percent cfg b'"
    unfolding p by (simp add: mul_floor_mono [OF laws])
  show "?E \<le> b \<Longrightarrow> inflation_percent cfg b = MaxInflationPercent cfg"
    using mm unfolding p by (simp add: r_def min_def perbill_lawsD(3) [OF laws] mul_floor_whole [OF laws])
  show "0 < ?E \<Longrightarrow> inflation_percent cfg 0 = MinInflationPercent cfg"
    unfolding p by (simp add: r_def perbill_lawsD(4) [OF laws] mul_floor_zero [OF laws])
qed

section \<open>Points of a session\<close>

text \<open>The sum of the weights never exceeds a whole in the saturating addition, so they are used as configured.\<close>

lemma reward_weights_eq:
  "perbill_laws (perbill cfg) \<Longrightarrow>
   reward_weights cfg = (BlockAuthoringWeight cfg, LivenessWeight cfg, ACCURACY - BlockAuthoringWeight cfg - LivenessWeight cfg)"
  by (simp add: reward_weights_def Let_def perbill_lawsD)

lemma div_add_le: "x div A + y div A \<le> (x + y) div (A :: nat)"
  by (subst div_add1_eq [of x y A]) simp

lemma sum_div_le: "(\<Sum>x \<leftarrow> xs. f x div A) \<le> (\<Sum>x \<leftarrow> xs. f x) div (A :: nat)"
proof (induction xs)
  case (Cons x xs)
  then show ?case using div_add_le [of "f x" A "\<Sum>x \<leftarrow> xs. f x"] by simp
qed simp

lemma session_points_le:
  assumes laws: "perbill_laws (perbill cfg)" and w: "BlockAuthoringWeight cfg + LivenessWeight cfg \<le> ACCURACY"
  shows "session_points cfg T n b \<le>
    BlockAuthoringWeight cfg * (b * BasePointsPerBlock cfg) div ACCURACY +
    ((ACCURACY - BlockAuthoringWeight cfg) * (max T n * BasePointsPerBlock cfg) div ACCURACY) div n"
proof -
  let ?B = "BlockAuthoringWeight cfg" and ?L = "LivenessWeight cfg" and ?P = "BasePointsPerBlock cfg" and ?o = "perbill cfg"
  let ?score = "if 0 < b then ACCURACY else 0"
  let ?other = "pb_saturating_add ?o (pb_saturating_mul ?o ?L ?score) (ACCURACY - ?B - ?L)"
  have "pb_saturating_mul ?o ?L ?score \<le> ?L" using w by (simp add: perbill_lawsD(9,10) [OF laws])
  moreover have "?other \<le> pb_saturating_mul ?o ?L ?score + (ACCURACY - ?B - ?L)"
    unfolding perbill_lawsD(7) [OF laws] by (rule min.cobounded1)
  ultimately have other: "?other \<le> ACCURACY - ?B" using w by linarith
  have blk: "pb_mul_floor ?o ?B (sat_mul32 (min b (max_credited cfg T n)) ?P) \<le> pb_mul_floor ?o ?B (b * ?P)"
    by (rule mul_floor_mono [OF laws]) (auto simp: sat_mul_def intro: min.coboundedI1 mult_le_mono1)
  have pool: "pb_mul_floor ?o ?other (sat_mul32 (max T n) ?P) \<le> pb_mul_floor ?o (ACCURACY - ?B) (max T n * ?P)"
    by (rule mul_floor_mono [OF laws other]) (simp add: sat_mul_def)
  have "session_points cfg T n b = sat_add32 (pb_mul_floor ?o ?B (sat_mul32 (min b (max_credited cfg T n)) ?P))
      (pb_mul_floor ?o ?other (sat_mul32 (max T n) ?P) div n)"
    by (simp add: session_points_def reward_weights_eq [OF laws] Let_def)
  also have "\<dots> \<le> pb_mul_floor ?o ?B (sat_mul32 (min b (max_credited cfg T n)) ?P) +
      pb_mul_floor ?o ?other (sat_mul32 (max T n) ?P) div n"
    by (simp add: sat_add_def)
  also have "\<dots> \<le> pb_mul_floor ?o ?B (b * ?P) + pb_mul_floor ?o (ACCURACY - ?B) (max T n * ?P) div n"
    using blk pool by (intro add_mono div_le_mono) simp_all
  finally show ?thesis by (simp only: perbill_lawsD(1) [OF laws])
qed

lemma session_pool_bound:
  assumes laws: "perbill_laws (perbill cfg)" and w: "BlockAuthoringWeight cfg + LivenessWeight cfg \<le> ACCURACY"
    and blocks: "(\<Sum>v \<leftarrow> vs. blocks v) \<le> T" and n: "length vs \<le> n"
  shows "(\<Sum>v \<leftarrow> vs. session_points cfg T n (blocks v)) \<le> BasePointsPerBlock cfg * max T n"
proof -
  let ?B = "BlockAuthoringWeight cfg" and ?P = "BasePointsPerBlock cfg" and ?A = ACCURACY
  let ?pool = "(?A - ?B) * (max T n * ?P) div ?A"
  have "(\<Sum>v \<leftarrow> vs. session_points cfg T n (blocks v)) \<le> (\<Sum>v \<leftarrow> vs. ?B * (blocks v * ?P) div ?A + ?pool div n)"
    by (intro sum_list_mono session_points_le [OF laws w])
  also have "\<dots> = (\<Sum>v \<leftarrow> vs. ?B * (blocks v * ?P) div ?A) + length vs * (?pool div n)"
    by (simp add: sum_list_addf sum_list_triv)
  also have "\<dots> \<le> (\<Sum>v \<leftarrow> vs. ?B * (blocks v * ?P)) div ?A + n * (?pool div n)"
    by (intro add_mono sum_div_le mult_le_mono1 n)
  also have "\<dots> \<le> ?B * (max T n * ?P) div ?A + ?pool"
  proof (intro add_mono div_le_mono)
    have "(\<Sum>v \<leftarrow> vs. ?B * (blocks v * ?P)) = ?B * ((\<Sum>v \<leftarrow> vs. blocks v) * ?P)"
      by (simp add: sum_list_const_mult sum_list_mult_const)
    also have "\<dots> \<le> ?B * (max T n * ?P)" using blocks by (intro mult_le_mono) simp_all
    finally show "(\<Sum>v \<leftarrow> vs. ?B * (blocks v * ?P)) \<le> ?B * (max T n * ?P)" .
  qed simp
  also have "\<dots> \<le> (?B * (max T n * ?P) + (?A - ?B) * (max T n * ?P)) div ?A"
    by (rule div_add_le)
  also have "?B * (max T n * ?P) + (?A - ?B) * (max T n * ?P) = ?A * (max T n * ?P)"
    using w by (simp add: add_mult_distrib [symmetric])
  also have "?A * (max T n * ?P) div ?A = ?P * max T n" by (simp add: ACCURACY_def)
  finally show ?thesis .
qed






text \<open>What the members of a list authored is at most what all authors did.\<close>

lemma sum_authored_le:
  assumes "distinct vs" and "distinct (map fst m)"
  shows "(\<Sum>v \<leftarrow> vs. case map_of m v of Some n \<Rightarrow> n | None \<Rightarrow> 0) \<le> sum_list (map snd (m :: (AccountId \<times> nat) list))"
proof -
  let ?f = "\<lambda>v. case map_of m v of Some n \<Rightarrow> n | None \<Rightarrow> 0"
  have "(\<Sum>v \<leftarrow> vs. ?f v) = sum ?f (set vs)" using assms(1) by (simp add: sum_list_distinct_conv_sum_set)
  also have "\<dots> = sum ?f (set vs \<inter> fst ` set m)"
    by (rule sum.mono_neutral_right) (auto split: option.splits dest: map_of_SomeD intro: rev_image_eqI)
  also have "\<dots> \<le> sum ?f (fst ` set m)" by (rule sum_mono2) auto
  also have "\<dots> = (\<Sum>v \<leftarrow> map fst m. ?f v)" using assms(2) by (simp add: sum_list_distinct_conv_sum_set del: map_map)
  also have "\<dots> = sum_list (map snd m)"
  proof -
    have "map ?f (map fst m) = map snd m" using assms(2) by (auto simp: map_of_eq_Some_iff)
    then show ?thesis by (rule arg_cong)
  qed
  finally show ?thesis .
qed


section \<open>The queue\<close>

abbreviation rw_contents :: "rw_state \<Rightarrow> unsent_era list" where
  "rw_contents s \<equiv> uq_contents (UnsentRewards s)"

abbreviation rw_valid :: "rw_state \<Rightarrow> bool" where
  "rw_valid s \<equiv> uq_valid (UnsentRewards s)"

lemma rw_deposit_simps [simp]:
  "RewardPointsForEra (rw_deposit e s) = RewardPointsForEra s" "UnsentRewards (rw_deposit e s) = UnsentRewards s"
  "BlocksAuthoredInSession (rw_deposit e s) = BlocksAuthoredInSession s" "BlocksProducedInEra (rw_deposit e s) = BlocksProducedInEra s"
  by (simp_all add: rw_deposit_def)

text \<open>One block: the head entry's info, if its points are still there, is sent again.\<close>

lemma process_unsent_eq:
  assumes v: "rw_valid s"
  shows "process_unsent_reward_eras cfg (s, w) =
    (case rw_contents s of
       [] \<Rightarrow> (s, w)
     | (era, ts, infl) # _ \<Rightarrow>
         (case generate_era_rewards_info (RewardPointsForEra s era) era infl ts of
            None \<Rightarrow> (rw_deposit (UnsentEraExpired era) (s\<lparr>UnsentRewards := drop_head (UnsentRewards s)\<rparr>), w)
          | Some info \<Rightarrow>
              (case send_rewards_message cfg info w of
                 (Some i, w) \<Rightarrow> (rw_deposit (RewardsMessageRetried i era (eu_total_points info) infl)
                      (s\<lparr>UnsentRewards := drop_head (UnsentRewards s)\<rparr>), w)
               | (None, w) \<Rightarrow> (s\<lparr>UnsentRewards := requeue_head (era, ts, infl) (UnsentRewards s)\<rparr>, w))))"
proof (cases "rw_contents s")
  case Nil
  then show ?thesis
    using uq_is_empty_iff [OF v] by (simp add: process_unsent_reward_eras_def Let_def unsent_queue_is_empty_def)
next
  case (Cons b bs)
  then have "uq_head (UnsentRewards s) \<noteq> uq_tail (UnsentRewards s)"
    using uq_is_empty_iff [OF v] by (simp add: unsent_queue_is_empty_def)
  then show ?thesis
    using uq_head_slot(1) [OF v] Cons by (cases b) (simp add: process_unsent_reward_eras_def Let_def)
qed

lemma process_unsent_contents:
  assumes v: "rw_valid s" and c: "rw_contents s = (era, ts, infl) # es"
  shows "rw_valid (fst (process_unsent_reward_eras cfg (s, w)))"
    "rw_contents (fst (process_unsent_reward_eras cfg (s, w))) =
      (case generate_era_rewards_info (RewardPointsForEra s era) era infl ts of
         None \<Rightarrow> es
       | Some info \<Rightarrow> if fst (send_rewards_message cfg info w) = None then es @ [(era, ts, infl)] else es)"
  using c uq_drop_head [OF v] uq_requeue_head [OF v, of "(era, ts, infl)"]
  by (auto simp: process_unsent_eq [OF v] split: option.splits prod.splits)

lemma process_unsent_frame:
  assumes v: "rw_valid s"
  shows "RewardPointsForEra (fst (process_unsent_reward_eras cfg (s, w))) = RewardPointsForEra s"
    "BlocksAuthoredInSession (fst (process_unsent_reward_eras cfg (s, w))) = BlocksAuthoredInSession s"
  by (auto simp: process_unsent_eq [OF v] split: option.splits prod.splits list.splits)

interpretation reward_hook: retry_hook "\<lambda>sw. rw_valid (fst sw)" "\<lambda>sw. rw_contents (fst sw)" "rw_on_initialize cfg"
  for cfg :: "('m, 't, 'w) rw_config"
proof unfold_locales
  fix sw :: "rw_state \<times> 'w" assume v: "rw_valid (fst sw)"
  obtain s w where sw: "sw = (s, w)" by (cases sw)
  have empty: "rw_on_initialize cfg (s, w) = (s, w)" if "rw_contents s = []"
    using v that by (simp add: rw_on_initialize_def process_unsent_eq sw)
  show "rw_contents (fst sw) = [] \<Longrightarrow> rw_contents (fst (rw_on_initialize cfg sw)) = []" using empty sw by simp
  have head: "rw_valid (fst (rw_on_initialize cfg (s, w))) \<and> rw_contents (fst (rw_on_initialize cfg (s, w))) \<in> {es, es @ [e]}"
    if "rw_contents s = e # es" for e es
    using process_unsent_contents [of s "fst e" "fst (snd e)" "snd (snd e)" es cfg w] v that sw
    by (cases e) (auto simp: rw_on_initialize_def split: option.splits)
  show "rw_valid (fst (rw_on_initialize cfg sw))" using head empty v sw by (cases "rw_contents s") auto
  fix e es assume "rw_contents (fst sw) = e # es"
  then show "rw_contents (fst (rw_on_initialize cfg sw)) = es \<or> rw_contents (fst (rw_on_initialize cfg sw)) = es @ [e]"
    using head sw by auto
qed

text \<open>Era start: it returns, prunes the points of one era, and drops exactly the entries that old or older.\<close>

lemma expired_events:
  "RewardPointsForEra (fold (\<lambda>(i, _, _). rw_deposit (UnsentEraExpired i)) xs s) = RewardPointsForEra s \<and>
   UnsentRewards (fold (\<lambda>(i, _, _). rw_deposit (UnsentEraExpired i)) xs s) = UnsentRewards s \<and>
   BlocksAuthoredInSession (fold (\<lambda>(i, _, _). rw_deposit (UnsentEraExpired i)) xs s) = BlocksAuthoredInSession s \<and>
   rw_events (fold (\<lambda>(i, _, _). rw_deposit (UnsentEraExpired i)) xs s) = rw_events s @ map (\<lambda>(i, _, _). UnsentEraExpired i) xs"
  by (induction xs arbitrary: s) (auto simp: rw_deposit_def split_beta)

lemma rw_on_era_start_eq:
  assumes v: "rw_valid s"
  shows "\<exists>s'. rw_on_era_start cfg n s = Some s' \<and> rw_valid s' \<and>
    rw_contents s' = filter (\<lambda>x. \<not> fst x + rw_HistoryDepth cfg \<le> n) (rw_contents s) \<and>
    RewardPointsForEra s' = (\<lambda>e. if e + rw_HistoryDepth cfg = n then era_reward_points_default else RewardPointsForEra s e) \<and>
    BlocksAuthoredInSession s' = BlocksAuthoredInSession s \<and>
    rw_events s' = rw_events s @ map (\<lambda>x. UnsentEraExpired (fst x)) (filter (\<lambda>x. fst x + rw_HistoryDepth cfg \<le> n) (rw_contents s))"
proof (cases "rw_HistoryDepth cfg \<le> n")
  case True
  let ?d = "n - rw_HistoryDepth cfg"
  have p: "e \<le> ?d \<longleftrightarrow> e + rw_HistoryDepth cfg \<le> n" for e using True by auto
  obtain q where q: "expire_loop (\<lambda>(e, _, _). e \<le> ?d) (uq_head (UnsentRewards s)) (UnsentRewards s) []
      = Some (q, filter (\<lambda>(e, _, _). e \<le> ?d) (rw_contents s))" "uq_valid q"
      "uq_contents q = filter (\<lambda>e. \<not> (case e of (e, _, _) \<Rightarrow> e \<le> ?d)) (rw_contents s)"
    using expire_loop_head [OF v, of "\<lambda>(e, _, _). e \<le> ?d"] by blast
  show ?thesis
    using True q expired_events [of "filter (\<lambda>(e, _, _). e \<le> ?d) (rw_contents s)"]
    by (auto simp: rw_on_era_start_def checked_sub_def p case_prod_unfold fun_eq_iff)
next
  case False
  then have "\<not> e + rw_HistoryDepth cfg \<le> n" "e + rw_HistoryDepth cfg \<noteq> n" for e by auto
  then show ?thesis using v False by (simp add: rw_on_era_start_def checked_sub_def)
qed

text \<open>Era end, case by case.\<close>

definition era_points :: "rw_state \<Rightarrow> EraIndex \<Rightarrow> nat" where
  "era_points s era = sum_list (map snd (individual (RewardPointsForEra s era)))"

definition era_info :: "rw_state \<Rightarrow> EraIndex \<Rightarrow> nat \<Rightarrow> nat \<Rightarrow> era_rewards_utils" where
  "era_info s era amount ts = \<lparr>eu_era_index = era, eu_era_start_timestamp = ts, eu_total_points = era_points s era,
     eu_individual_points = individual (RewardPointsForEra s era), eu_inflation_amount = amount\<rparr>"

lemma generate_info:
  "generate_era_rewards_info (RewardPointsForEra s era) era amount ts = (if era_points s era = 0 then None else Some (era_info s era amount ts))"
  by (simp add: generate_era_rewards_info_def Let_def era_points_def era_info_def)

lemma rw_on_era_end_eq:
  "rw_on_era_end cfg ev era (s, w) =
    (if era_points s era = 0 then (s, w)
     else case mint_inflation cfg (RewardsEthereumSovereignAccount cfg) (calculate_scaled_inflation cfg era (EraInflationProvider cfg w) s) w of
       (None, w) \<Rightarrow> (s, w)
     | (Some r, w) \<Rightarrow>
         (case send_rewards_message cfg (era_info s era (rewards_amount r) (era_start_seconds (ev_active_era ev))) w of
            (Some i, w) \<Rightarrow> (rw_deposit (RewardsMessageSent i era (era_points s era) (rewards_amount r)) s, w)
          | (None, w) \<Rightarrow>
              (case rw_unsent_queue_push (era, era_start_seconds (ev_active_era ev), rewards_amount r) s of
                 (True, s) \<Rightarrow> (rw_deposit (RewardsMessageSendFailed era) s, w)
               | (False, s) \<Rightarrow> (rw_deposit (RwUnsentQueueFull era) s, w))))"
  by (auto simp: rw_on_era_end_def Let_def generate_info era_points_def [symmetric] era_info_def split: option.splits prod.splits)

lemma rw_push:
  "rw_valid s \<Longrightarrow> rw_valid (snd (rw_unsent_queue_push e s)) \<and> (fst (rw_unsent_queue_push e s) \<longleftrightarrow> length (rw_contents s) < 63) \<and>
    rw_contents (snd (rw_unsent_queue_push e s)) = (if length (rw_contents s) < 63 then rw_contents s @ [e] else rw_contents s) \<and>
    RewardPointsForEra (snd (rw_unsent_queue_push e s)) = RewardPointsForEra s \<and>
    BlocksAuthoredInSession (snd (rw_unsent_queue_push e s)) = BlocksAuthoredInSession s"
  using ring.push_contents [of "UnsentRewards s" e] ring.push_valid [of "UnsentRewards s" e] ring.push_reports [of "UnsentRewards s" e]
  by (simp add: rw_unsent_queue_push_def split_beta Let_def)

lemma rw_on_era_end_queue:
  assumes v: "rw_valid s"
  shows "rw_valid (fst (rw_on_era_end cfg ev era (s, w)))"
    "RewardPointsForEra (fst (rw_on_era_end cfg ev era (s, w))) = RewardPointsForEra s"
    "BlocksAuthoredInSession (fst (rw_on_era_end cfg ev era (s, w))) = BlocksAuthoredInSession s"
    "rw_contents (fst (rw_on_era_end cfg ev era (s, w))) = rw_contents s \<or>
     (\<exists>ts amount. rw_contents (fst (rw_on_era_end cfg ev era (s, w))) = rw_contents s @ [(era, ts, amount)] \<and> era_points s era \<noteq> 0)"
  using v rw_push [OF v] unfolding rw_on_era_end_eq
  by (auto split: option.splits prod.splits bool.splits) (metis (no_types, lifting) fst_conv snd_conv)+

section \<open>The pallet's steps\<close>

text \<open>
  What happens to the pallet in era \<open>n\<close>: blocks are authored, sessions end, blocks begin, a governance
  retry succeeds, the state behind the pallet changes; and the turn to the next era, where the end of era
  \<open>n\<close> is followed by the start of era \<open>n + 1\<close>.
\<close>

inductive rw_step :: "('m, 't, 'w) rw_config \<Rightarrow> EraIndex \<times> rw_state \<times> 'w \<Rightarrow> EraIndex \<times> rw_state \<times> 'w \<Rightarrow> bool" for cfg where
  rw_author: "rw_step cfg (n, s, w) (n, note_block_author n v s, w)"
| rw_session: "rw_step cfg (n, s, w) (n, award_session_performance_points cfg n vals wl s, w)"
| rw_block: "rw_step cfg (n, s, w) (n, rw_on_initialize cfg (s, w))"
| rw_retry: "retry_unsent_reward_era cfg og era (s, w) = Some (Inr sw') \<Longrightarrow> rw_step cfg (n, s, w) (n, sw')"
| rw_world: "rw_step cfg (n, s, w) (n, s, w')"
| rw_turn: "rw_on_era_end cfg ev n (s, w) = (s1, w1) \<Longrightarrow> rw_on_era_start cfg (n + 1) s1 = Some s2 \<Longrightarrow>
    rw_step cfg (n, s, w) (n + 1, s2, w1)"

inductive rw_reachable :: "('m, 't, 'w) rw_config \<Rightarrow> EraIndex \<times> rw_state \<times> 'w \<Rightarrow> bool" for cfg where
  rw_genesis: "rw_reachable cfg (0, rw_empty, w)"
| rw_next: "rw_reachable cfg x \<Longrightarrow> rw_step cfg x y \<Longrightarrow> rw_reachable cfg y"

definition rw_inv :: "('m, 't, 'w) rw_config \<Rightarrow> EraIndex \<Rightarrow> rw_state \<Rightarrow> bool" where
  "rw_inv cfg n s \<longleftrightarrow> rw_valid s \<and> distinct (map fst (rw_contents s)) \<and>
     (\<forall>x \<in> set (rw_contents s). fst x < n \<and> n < fst x + rw_HistoryDepth cfg \<and> era_points s (fst x) \<noteq> 0) \<and>
     (\<forall>e. bt_wf (individual (RewardPointsForEra s e)) \<and> (\<forall>v. erp_get (RewardPointsForEra s e) v \<le> u32_max)) \<and>
     distinct (map fst (BlocksAuthoredInSession s))"

lemma award_frame:
  "\<exists>r. RewardPointsForEra (award_session_performance_points cfg era vals wl s) = (RewardPointsForEra s)(era := fold accrue r (RewardPointsForEra s era))"
  "UnsentRewards (award_session_performance_points cfg era vals wl s) = UnsentRewards s"
  "BlocksAuthoredInSession (award_session_performance_points cfg era vals wl s) = []"
proof -
  have no: "\<exists>r. RewardPointsForEra s = (RewardPointsForEra s)(era := fold accrue r (RewardPointsForEra s era))"
    by (intro exI [of _ "[]"]) simp
  show "\<exists>r. RewardPointsForEra (award_session_performance_points cfg era vals wl s) = (RewardPointsForEra s)(era := fold accrue r (RewardPointsForEra s era))"
    unfolding award_session_performance_points_def Let_def reward_by_ids_def using no by auto
  show "UnsentRewards (award_session_performance_points cfg era vals wl s) = UnsentRewards s"
    "BlocksAuthoredInSession (award_session_performance_points cfg era vals wl s) = []"
    by (simp_all add: award_session_performance_points_def Let_def reward_by_ids_def)
qed

lemma rw_inv_award: "rw_inv cfg n s \<Longrightarrow> rw_inv cfg n (award_session_performance_points cfg n vals wl s)"
proof -
  assume inv: "rw_inv cfg n s"
  let ?s = "award_session_performance_points cfg n vals wl s"
  obtain r where r: "RewardPointsForEra ?s = (RewardPointsForEra s)(n := fold accrue r (RewardPointsForEra s n))"
    using award_frame(1) by blast
  have "bt_wf (individual (RewardPointsForEra ?s e)) \<and> (\<forall>v. erp_get (RewardPointsForEra ?s e) v \<le> u32_max)" for e
    using inv fold_accrue_wf [of "RewardPointsForEra s n" r] fold_accrue_le [of "RewardPointsForEra s n" r]
    unfolding r rw_inv_def by (cases "e = n") auto
  moreover have "era_points ?s e = era_points s e" if "e < n" for e using that by (simp add: era_points_def r)
  ultimately show "rw_inv cfg n ?s" using inv unfolding rw_inv_def by (auto simp: award_frame(2,3))
qed

lemma rw_inv_queue:
  assumes "rw_inv cfg n s" "rw_valid s'" "set (rw_contents s') \<subseteq> set (rw_contents s)" "distinct (map fst (rw_contents s'))"
    "RewardPointsForEra s' = RewardPointsForEra s" "BlocksAuthoredInSession s' = BlocksAuthoredInSession s"
  shows "rw_inv cfg n s'"
proof -
  have "era_points s' e = era_points s e" for e by (simp add: era_points_def assms(5))
  moreover have "fst x < n \<and> n < fst x + rw_HistoryDepth cfg \<and> era_points s (fst x) \<noteq> 0" if "x \<in> set (rw_contents s')" for x
    using assms(1,3) that unfolding rw_inv_def by (meson subsetD)
  ultimately show ?thesis using assms(1,2,4) unfolding rw_inv_def assms(5,6) by simp
qed

lemma rw_inv_block: "rw_inv cfg n s \<Longrightarrow> rw_inv cfg n (fst (rw_on_initialize cfg (s, w)))"
proof -
  assume inv: "rw_inv cfg n s"
  then have v: "rw_valid (fst (s, w))" by (simp add: rw_inv_def)
  let ?s = "fst (rw_on_initialize cfg (s, w))"
  have "distinct (map fst (rw_contents ?s)) \<and> set (rw_contents ?s) \<subseteq> set (rw_contents s)"
  proof (cases "rw_contents s")
    case Nil
    then show ?thesis using reward_hook.step_empty [OF v, of cfg] by simp
  next
    case (Cons e es)
    moreover have "distinct (map fst (rw_contents s))" using inv by (simp add: rw_inv_def)
    ultimately show ?thesis using reward_hook.step_head [of "(s, w)" e es cfg] v by auto
  qed
  then show ?thesis
    using rw_inv_queue [OF inv] reward_hook.step_valid [OF v, of cfg] process_unsent_frame [of s cfg w] v
    by (simp add: rw_on_initialize_def)
qed

lemma rw_inv_turn:
  assumes inv: "rw_inv cfg n s" and e: "rw_on_era_end cfg ev n (s, w) = (s1, w1)" and st: "rw_on_era_start cfg (n + 1) s1 = Some s2"
  shows "rw_inv cfg (n + 1) s2"
proof -
  have v: "rw_valid s" using inv by (simp add: rw_inv_def)
  note end' = rw_on_era_end_queue [OF v, of cfg ev n w, unfolded e fst_conv]
  note st' = rw_on_era_start_eq [OF end'(1), of cfg "n + 1", unfolded st]
  have c2: "rw_contents s2 = filter (\<lambda>x. \<not> fst x + rw_HistoryDepth cfg \<le> n + 1) (rw_contents s1)"
    and p2: "RewardPointsForEra s2 = (\<lambda>e. if e + rw_HistoryDepth cfg = n + 1 then era_reward_points_default else RewardPointsForEra s e)"
    and b2: "BlocksAuthoredInSession s2 = BlocksAuthoredInSession s" and v2: "rw_valid s2"
    using st' end'(2,3) by auto
  have d: "distinct (map fst (rw_contents s))" and old: "\<And>x. x \<in> set (rw_contents s) \<Longrightarrow> fst x < n \<and> era_points s (fst x) \<noteq> 0"
    using inv by (simp_all add: rw_inv_def)
  then have "n \<notin> fst ` set (rw_contents s)" by force
  then have d1: "distinct (map fst (rw_contents s1))" using end'(4) d by auto
  have m1: "fst x < n + 1 \<and> era_points s (fst x) \<noteq> 0" if x: "x \<in> set (rw_contents s1)" for x
  proof -
    have "x \<in> set (rw_contents s) \<or> fst x = n \<and> era_points s n \<noteq> 0" using end'(4) x by auto
    then show ?thesis using old [of x] by auto
  qed
  have "fst x < n + 1 \<and> n + 1 < fst x + rw_HistoryDepth cfg \<and> era_points s2 (fst x) \<noteq> 0" if "x \<in> set (rw_contents s2)" for x
  proof -
    have x: "x \<in> set (rw_contents s1)" "\<not> fst x + rw_HistoryDepth cfg \<le> n + 1" using that c2 by auto
    then have "era_points s2 (fst x) = era_points s (fst x)" by (simp add: era_points_def p2)
    then show ?thesis using x m1 [of x] by auto
  qed
  moreover have "distinct (map fst (rw_contents s2))" using d1 unfolding c2 by (rule distinct_map_filter)
  moreover have "bt_wf (individual (RewardPointsForEra s2 e)) \<and> (\<forall>v. erp_get (RewardPointsForEra s2 e) v \<le> u32_max)" for e
    using inv unfolding rw_inv_def p2 by (simp add: era_reward_points_default_def bt_get_def)
  ultimately show ?thesis using v2 b2 inv unfolding rw_inv_def by auto
qed

lemma retry_unsent_reward_era_eq:
  assumes v: "rw_valid s" and g: "rw_GovernanceOrigin cfg og"
  shows "\<exists>r. retry_unsent_reward_era cfg og era (s, w) = Some r \<and>
    (case find (\<lambda>j. fst (rw_contents s ! j) = era) [0..<length (rw_contents s)] of
       None \<Rightarrow> r = Inl RwEraNotInUnsentQueue
     | Some j \<Rightarrow>
         let (_, ts, infl) = rw_contents s ! j in
         if era_points s era = 0 then r = Inl RewardPointsPruned
         else (case send_rewards_message cfg (era_info s era infl ts) w of
            (None, _) \<Rightarrow> r = Inl RwMessageSendFailed
          | (Some i, w') \<Rightarrow> \<exists>q. r = Inr (rw_deposit (RewardsMessageRetried i era (era_points s era) infl) (s\<lparr>UnsentRewards := q\<rparr>), w') \<and>
              uq_valid q \<and> uq_contents q = remove_nth j (rw_contents s)))"
proof (cases "find (\<lambda>j. fst (rw_contents s ! j) = era) [0..<length (rw_contents s)]")
  case None
  then show ?thesis
    using g find_slot_head [OF v, of "\<lambda>(idx, _, _). idx = era"]
    by (simp add: retry_unsent_reward_era_def case_prod_unfold)
next
  case (Some j)
  then have j: "j < length (rw_contents s)" by (auto simp: find_Some_iff)
  obtain q where q: "unsent_queue_remove_slot (slot_at (UnsentRewards s) j) (UnsentRewards s) = Some q" "uq_valid q"
      "uq_contents q = remove_nth j (rw_contents s)"
    using uq_remove_slot [OF v, of j] j by (auto simp: remove_nth_def)
  have i: "eu_total_points (era_info s era a b) = era_points s era" for a b by (simp add: era_info_def)
  show ?thesis
    using g find_slot_head [OF v, of "\<lambda>(idx, _, _). idx = era"] Some q
    by (cases "send_rewards_message cfg (era_info s era (snd (snd (rw_contents s ! j))) (fst (snd (rw_contents s ! j)))) w")
      (auto simp: retry_unsent_reward_era_def case_prod_unfold rw_unsent_queue_remove_slot_def generate_info i Let_def split: option.splits)
qed

lemma rw_inv_retry:
  assumes inv: "rw_inv cfg n s" and r: "retry_unsent_reward_era cfg og era (s, w) = Some (Inr sw')"
  shows "rw_inv cfg n (fst sw')"
proof -
  have v: "rw_valid s" and g: "rw_GovernanceOrigin cfg og"
    using inv r by (auto simp: rw_inv_def retry_unsent_reward_era_def split: if_splits)
  let ?f = "find (\<lambda>j. fst (rw_contents s ! j) = era) [0..<length (rw_contents s)]"
  obtain j where f: "?f = Some j" using retry_unsent_reward_era_eq [OF v g, of era w] r by (cases ?f) auto
  then have j: "j < length (rw_contents s)" by (auto simp: find_Some_iff)
  obtain q ev where "fst sw' = rw_deposit ev (s\<lparr>UnsentRewards := q\<rparr>)" and q: "uq_valid q" "uq_contents q = remove_nth j (rw_contents s)"
    using retry_unsent_reward_era_eq [OF v g, of era w] r f
    by (auto simp: case_prod_unfold Let_def split: option.splits prod.splits if_splits)
  moreover have "remove_nth j (rw_contents s) = nths (rw_contents s) (- {j})" by (rule remove_nth_nths [OF j])
  then have "distinct (map fst (uq_contents q))" "set (uq_contents q) \<subseteq> set (rw_contents s)"
    using inv q(2) by (simp_all add: rw_inv_def nths_map [symmetric] set_nths_subset)
  ultimately show ?thesis using rw_inv_queue [OF inv, of "fst sw'"] by simp
qed

lemma rw_step_inv: "rw_step cfg x y \<Longrightarrow> rw_inv cfg (fst x) (fst (snd x)) \<Longrightarrow> rw_inv cfg (fst y) (fst (snd y))"
proof (induction rule: rw_step.induct)
  case (rw_author n s w v)
  have "RewardPointsForEra (note_block_author n v s) = RewardPointsForEra s" "UnsentRewards (note_block_author n v s) = UnsentRewards s"
    "distinct (map fst (BlocksAuthoredInSession s)) \<Longrightarrow> distinct (map fst (BlocksAuthoredInSession (note_block_author n v s)))"
    by (simp_all add: note_block_author_def Let_def distinct_update)
  then show ?case using rw_author by (simp add: rw_inv_def era_points_def)
next
  case (rw_turn ev n s w s1 w1 s2)
  then show ?case using rw_inv_turn by simp
qed (auto intro: rw_inv_award rw_inv_block rw_inv_retry)

lemma rw_reachable_inv: "rw_reachable cfg x \<Longrightarrow> rw_inv cfg (fst x) (fst (snd x))"
proof (induction rule: rw_reachable.induct)
  case (rw_genesis w)
  show ?case by (simp add: rw_inv_def rw_empty_def era_reward_points_default_def bt_get_def)
qed (blast intro: rw_step_inv)

section \<open>A configuration for the concrete instances\<close>

text \<open>
  \<open>EitherOfDiverse<EnsureRoot, GeneralAdmin>\<close>; the custom origins are numbered in the order of the enum
  \<open>custom_origins::Origin\<close>, where \<open>GeneralAdmin\<close> comes second.
\<close>

definition GeneralAdminOrRoot :: "origin \<Rightarrow> bool" where
  "GeneralAdminOrRoot og \<longleftrightarrow> ensure_root og \<or> og = OtherOrigin 1"

definition mainnet_rw_config ::
  "nat \<Rightarrow> AccountId \<Rightarrow> ('w \<Rightarrow> nat) \<Rightarrow> (AccountId \<Rightarrow> nat \<Rightarrow> 'w \<Rightarrow> inflation_mint_result option \<times> 'w) \<Rightarrow>
   (era_rewards_utils, 'm, 't, 'w) send_message \<Rightarrow> perbill_ops \<Rightarrow> ('m, 't, 'w) rw_config" where
  "mainnet_rw_config expected sovereign provider mint sm ops = \<lparr>rw_HistoryDepth = 64, BasePointsPerBlock = 320,
     BlockAuthoringWeight = 600000000, LivenessWeight = 300000000, FairShareCap = 500000000, ExpectedBlocksPerEra = expected,
     MinInflationPercent = 20, MaxInflationPercent = 100, RewardsEthereumSovereignAccount = sovereign,
     rw_GovernanceOrigin = GeneralAdminOrRoot, EraInflationProvider = provider, mint_inflation = mint, rw_SendMessage = sm, perbill = ops\<rparr>"

text \<open>Tokens are counted by the state behind the pallet; minting gives everything to the rewards account.\<close>

abbreviation rw_cfg :: "(era_rewards_utils, unit, unit, nat) send_message \<Rightarrow> (unit, unit, nat) rw_config" where
  "rw_cfg sm \<equiv> mainnet_rw_config 3600 5 (\<lambda>_. 1000000) (\<lambda>_ a w. (Some \<lparr>rewards_amount = a, treasury_amount = 0\<rparr>, w + a)) sm perbill_std"

definition sample_rw :: rw_state where
  "sample_rw = rw_empty\<lparr>BlocksAuthoredInSession := [(3, 6), (4, 4)]\<rparr>"

text \<open>One block by validator 3 in era 0, its session ended, the era ended with a failing send, the next era started.\<close>

abbreviation fail_cfg :: "(unit, unit, nat) rw_config" where
  "fail_cfg \<equiv> rw_cfg never_sends"

definition sample_awarded :: rw_state where
  "sample_awarded = award_session_performance_points fail_cfg 0 [3] [] (note_block_author 0 3 rw_empty)"

definition sample_unsent :: rw_state where
  "sample_unsent = fst (rw_on_era_end fail_cfg (sample_state 6) 0 (sample_awarded, 0))"

definition sample_next :: rw_state where
  "sample_next = the (rw_on_era_start fail_cfg 1 sample_unsent)"

lemma sample_awarded_reachable: "rw_reachable fail_cfg (0, sample_awarded, w)"
  unfolding sample_awarded_def by (rule rw_next [OF rw_next [OF rw_genesis rw_author] rw_session])

lemma sample_awarded_eq:
  "era_points sample_awarded 0 = 320" "UnsentRewards sample_awarded = uq_empty"
proof -
  let ?s = "note_block_author 0 3 rw_empty"
  have b: "BlocksAuthoredInSession ?s = [(3, 1)]" "RewardPointsForEra ?s = (\<lambda>_. era_reward_points_default)" "UnsentRewards ?s = uq_empty"
    by (simp_all add: note_block_author_def rw_empty_def blocks_authored_by_def sat_add_def u32_max_def)
  have "session_points fail_cfg 1 1 1 = 320"
    by (simp add: session_points_def max_credited_def reward_weights_eq mainnet_rw_config_def perbill_std_laws)
      (simp add: perbill_std_def ACCURACY_def sat_simps u32_max_def)
  then show "era_points sample_awarded 0 = 320"
    by (simp add: sample_awarded_def award_session_performance_points_def b sum_u32_def u32_max_def as_u32_def
        blocks_authored_by_def reward_by_ids_def era_points_def era_reward_points_default_def bt_get_def sat_add_def)
  show "UnsentRewards sample_awarded = uq_empty" by (simp add: sample_awarded_def award_frame(2) b)
qed

lemma sample_turn:
  "\<exists>w1. rw_on_era_end fail_cfg (sample_state 6) 0 (sample_awarded, 0) = (sample_unsent, w1)"
  "rw_on_era_start fail_cfg 1 sample_unsent = Some sample_next"
  "\<exists>amount. rw_contents sample_next = [(0, 0, amount)]" "\<exists>w. rw_reachable fail_cfg (1, sample_next, w)"
proof -
  show e: "\<exists>w1. rw_on_era_end fail_cfg (sample_state 6) 0 (sample_awarded, 0) = (sample_unsent, w1)"
    unfolding sample_unsent_def by (rule exI, rule prod.collapse [symmetric])
  have v: "rw_valid sample_awarded" "rw_contents sample_awarded = []" by (simp_all add: sample_awarded_eq)
  have ts: "era_start_seconds (ev_active_era (sample_state 6)) = 0"
    by (simp add: era_start_seconds_def ev_active_era_def sample_eval)
  have m: "mint_inflation fail_cfg a b c = (Some \<lparr>rewards_amount = b, treasury_amount = 0\<rparr>, c + b)"
    "rw_SendMessage fail_cfg = never_sends" for a b c
    by (simp_all add: mainnet_rw_config_def)
  define a where "a = calculate_scaled_inflation fail_cfg 0 (EraInflationProvider fail_cfg 0) sample_awarded"
  define p where "p = rw_unsent_queue_push (0, 0, a) sample_awarded"
  have "fst (rw_on_era_end fail_cfg (sample_state 6) 0 (sample_awarded, 0))
      = (if fst p then rw_deposit (RewardsMessageSendFailed 0) (snd p) else rw_deposit (RwUnsentQueueFull 0) (snd p))"
    by (simp add: rw_on_era_end_eq sample_awarded_eq m ts send_rewards_message_def a_def [symmetric] p_def [symmetric]
        split: prod.split bool.split)
  then obtain amount where c: "rw_contents sample_unsent = [(0, 0, amount)]" and vu: "rw_valid sample_unsent"
    using rw_push [OF v(1), of "(0, 0, a)"] v(2) unfolding sample_unsent_def p_def [symmetric] by auto
  have d: "rw_HistoryDepth fail_cfg = 64" by (simp add: mainnet_rw_config_def)
  show st: "rw_on_era_start fail_cfg 1 sample_unsent = Some sample_next"
    using rw_on_era_start_eq [OF vu, of fail_cfg 1] by (auto simp: sample_next_def)
  show "\<exists>amount. rw_contents sample_next = [(0, 0, amount)]"
    using rw_on_era_start_eq [OF vu, of fail_cfg 1] st c d by auto
  obtain w1 where "rw_on_era_end fail_cfg (sample_state 6) 0 (sample_awarded, 0) = (sample_unsent, w1)" using e by blast
  from rw_next [OF sample_awarded_reachable rw_turn [OF this]] st
  show "\<exists>w. rw_reachable fail_cfg (1, sample_next, w)" by auto
qed

section \<open>Properties\<close>

text \<open>
  C22. The inflation of an era lies between the minimal and the maximal percentage of the base inflation,
  grows with the number of blocks produced, reaches the maximum exactly when all expected blocks
  were produced, and is the minimum when none was.
\<close>

theorem scaled_inflation_bounds:
  assumes "perbill_laws (perbill cfg)" and "MinInflationPercent cfg \<le> MaxInflationPercent cfg" and "MaxInflationPercent cfg \<le> 100"
  shows "MinInflationPercent cfg * base div 100 \<le> calculate_scaled_inflation cfg era base s \<and>
    calculate_scaled_inflation cfg era base s \<le> MaxInflationPercent cfg * base div 100 \<and>
    (BlocksProducedInEra s era \<le> BlocksProducedInEra s' era' \<longrightarrow>
       calculate_scaled_inflation cfg era base s \<le> calculate_scaled_inflation cfg era' base s') \<and>
    (ExpectedBlocksPerEra cfg \<le> BlocksProducedInEra s era \<longrightarrow>
       calculate_scaled_inflation cfg era base s = MaxInflationPercent cfg * base div 100) \<and>
    (0 < ExpectedBlocksPerEra cfg \<and> BlocksProducedInEra s era = 0 \<longrightarrow>
       calculate_scaled_inflation cfg era base s = MinInflationPercent cfg * base div 100)"
proof -
  note b = inflation_percent_bounds [OF assms]
  have "inflation_percent cfg n \<le> 100" for n using b(2) [of n] assms(3) by simp
  then have eq: "calculate_scaled_inflation cfg era base s = inflation_percent cfg (BlocksProducedInEra s era) * base div 100" for era s
    by (simp add: calculate_scaled_inflation_eq from_percent_mul [OF assms(1)])
  show ?thesis unfolding eq using b by (auto intro!: div_le_mono mult_le_mono1)
qed

theorem scaled_inflation_bounds_witness:
  "200000 \<le> calculate_scaled_inflation (rw_cfg never_sends) 7 1000000 (rw_empty\<lparr>BlocksProducedInEra := \<lambda>_. 1800\<rparr>) \<and>
   calculate_scaled_inflation (rw_cfg never_sends) 7 1000000 (rw_empty\<lparr>BlocksProducedInEra := \<lambda>_. 1800\<rparr>) \<le> 1000000"
  using scaled_inflation_bounds [of "rw_cfg never_sends" 1000000 7 "rw_empty\<lparr>BlocksProducedInEra := \<lambda>_. 1800\<rparr>"]
  by (simp add: mainnet_rw_config_def perbill_std_laws)

text \<open>
  The points awarded in a session stay within its pool: with weights that add up to at most a
  whole, the validators together receive at most \<open>BasePointsPerBlock\<close> for each block authored (or for each
  validator, when fewer blocks than validators were authored).
\<close>

theorem session_points_within_pool:
  assumes "perbill_laws (perbill cfg)" and "BlockAuthoringWeight cfg + LivenessWeight cfg \<le> ACCURACY"
    and "distinct vals" and "distinct (map fst (BlocksAuthoredInSession s))"
    and "blocks = sum_list (map snd (BlocksAuthoredInSession s))"
  shows "(\<Sum>v \<leftarrow> filter (\<lambda>v. v \<notin> set wl) vals. session_points cfg blocks (length vals) (blocks_authored_by s v))
    \<le> BasePointsPerBlock cfg * max blocks (length vals)"
proof (rule session_pool_bound [OF assms(1,2)])
  show "length (filter (\<lambda>v. v \<notin> set wl) vals) \<le> length vals" by (rule length_filter_le)
  show "(\<Sum>v \<leftarrow> filter (\<lambda>v. v \<notin> set wl) vals. blocks_authored_by s v) \<le> blocks"
    using sum_authored_le [of "filter (\<lambda>v. v \<notin> set wl) vals" "BlocksAuthoredInSession s"] assms(3-5)
    by (simp add: blocks_authored_by_def)
qed

theorem session_points_within_pool_witness:
  "(\<Sum>v \<leftarrow> filter (\<lambda>v. v \<notin> set [9]) [3, 4, 9]. session_points (rw_cfg never_sends) 10 (length [3, 4, 9 :: AccountId]) (blocks_authored_by sample_rw v))
    \<le> BasePointsPerBlock (rw_cfg never_sends) * max 10 (length [3, 4, 9 :: AccountId])"
  by (rule session_points_within_pool)
    (simp_all add: mainnet_rw_config_def perbill_std_laws ACCURACY_def sample_rw_def)



text \<open>
  The proportional scaling of weights that exceed a whole never happens: the weights are always used as
  configured, the base weight being what is left of a whole.
\<close>

theorem weights_never_scaled:
  assumes "perbill_laws (perbill cfg)"
  shows "reward_weights cfg = (BlockAuthoringWeight cfg, LivenessWeight cfg, ACCURACY - BlockAuthoringWeight cfg - LivenessWeight cfg)"
  by (rule reward_weights_eq [OF assms])

theorem weights_never_scaled_witness:
  "reward_weights ((rw_cfg never_sends)\<lparr>BlockAuthoringWeight := 800000000, LivenessWeight := 500000000\<rparr>) = (800000000, 500000000, 0)"
  using weights_never_scaled [of "(rw_cfg never_sends)\<lparr>BlockAuthoringWeight := 800000000, LivenessWeight := 500000000\<rparr>"]
  by (simp add: mainnet_rw_config_def perbill_std_laws ACCURACY_def)

text \<open>
  C6. At the end of an era with no points nothing is minted and nothing sent. Otherwise, when the mint
  fails, nothing is sent and the pallet is unchanged; when it succeeds, a message with exactly the minted rewards
  amount and all the era's points is sent, and either delivered (the event says so, the queue is unchanged), or the
  era enters the queue with that amount, or, when the queue is full, the entry is lost and an event reports it.
\<close>

theorem era_end_outcome:
  assumes "rw_reachable cfg (n, s, w)"
  shows "let scaled = calculate_scaled_inflation cfg n (EraInflationProvider cfg w) s; ts = era_start_seconds (ev_active_era ev);
      (s', w') = rw_on_era_end cfg ev n (s, w) in
    if era_points s n = 0 then s' = s \<and> w' = w
    else case mint_inflation cfg (RewardsEthereumSovereignAccount cfg) scaled w of
      (None, w1) \<Rightarrow> s' = s \<and> w' = w1
    | (Some r, w1) \<Rightarrow>
        (case send_rewards_message cfg (era_info s n (rewards_amount r) ts) w1 of
           (Some i, w2) \<Rightarrow> w' = w2 \<and> uq_contents (UnsentRewards s') = uq_contents (UnsentRewards s) \<and>
             rw_events s' = rw_events s @ [RewardsMessageSent i n (era_points s n) (rewards_amount r)]
         | (None, w2) \<Rightarrow> w' = w2 \<and>
             (if length (uq_contents (UnsentRewards s)) < 63
              then uq_contents (UnsentRewards s') = uq_contents (UnsentRewards s) @ [(n, ts, rewards_amount r)] \<and>
                rw_events s' = rw_events s @ [RewardsMessageSendFailed n]
              else uq_contents (UnsentRewards s') = uq_contents (UnsentRewards s) \<and> rw_events s' = rw_events s @ [RwUnsentQueueFull n]))"
proof -
  have v: "rw_valid s" using rw_reachable_inv [OF assms] by (simp add: rw_inv_def)
  have ev: "rw_events (snd (rw_unsent_queue_push e s)) = rw_events s" for e
    by (simp add: rw_unsent_queue_push_def split_beta Let_def)
  show ?thesis
    using rw_push [OF v] ev unfolding Let_def rw_on_era_end_eq
    by (auto simp: rw_deposit_def split: option.splits prod.splits bool.splits) (metis fst_conv snd_conv)+
qed

theorem era_end_outcome_witness:
  "let scaled = calculate_scaled_inflation fail_cfg 0 (EraInflationProvider fail_cfg 0) sample_awarded in
   let (s', w') = rw_on_era_end fail_cfg (sample_state 6) 0 (sample_awarded, 0) in
   uq_contents (UnsentRewards s') = [(0, 0, scaled)] \<and> w' = scaled"
proof -
  have m: "mint_inflation fail_cfg a b c = (Some \<lparr>rewards_amount = b, treasury_amount = 0\<rparr>, c + b)"
    "rw_SendMessage fail_cfg = never_sends" for a b c
    by (simp_all add: mainnet_rw_config_def)
  have ts: "era_start_seconds (ev_active_era (sample_state 6)) = 0"
    by (simp add: era_start_seconds_def ev_active_era_def sample_eval)
  have "uq_contents (UnsentRewards sample_awarded) = []" by (simp add: sample_awarded_eq)
  then show ?thesis
    using era_end_outcome [OF sample_awarded_reachable [of 0], of "sample_state 6"]
    by (simp add: Let_def sample_awarded_eq m ts send_rewards_message_def split: prod.splits)
qed

text \<open>
  In every reachable state the unsent eras are pairwise different, lie strictly within the last
  \<open>HistoryDepth\<close> eras, and their points are still stored: a retry never finds them pruned. Hence at
  most \<open>HistoryDepth - 1\<close> eras wait, and an era can only be refused by the queue when all of the 63 before it
  are waiting.
\<close>

theorem unsent_eras_invariant:
  assumes "rw_reachable cfg (n, s, w)"
  shows "distinct (map fst (uq_contents (UnsentRewards s))) \<and>
    (\<forall>x \<in> set (uq_contents (UnsentRewards s)). fst x < n \<and> n < fst x + rw_HistoryDepth cfg \<and> era_points s (fst x) \<noteq> 0) \<and>
    length (uq_contents (UnsentRewards s)) \<le> rw_HistoryDepth cfg - 1"
proof -
  have inv: "rw_inv cfg n s" using rw_reachable_inv [OF assms] by simp
  let ?es = "map fst (uq_contents (UnsentRewards s))"
  have "set ?es \<subseteq> {n + 1 - rw_HistoryDepth cfg..<n}" using inv by (fastforce simp: rw_inv_def)
  then have "card (set ?es) \<le> card {n + 1 - rw_HistoryDepth cfg..<n}" by (intro card_mono) simp_all
  moreover have "card (set ?es) = length (uq_contents (UnsentRewards s))"
    using inv by (metis rw_inv_def distinct_card length_map)
  ultimately have "length (uq_contents (UnsentRewards s)) \<le> rw_HistoryDepth cfg - 1" by simp
  then show ?thesis using inv unfolding rw_inv_def by blast
qed

theorem unsent_eras_invariant_witness:
  "\<exists>amount. uq_contents (UnsentRewards sample_next) = [(0, 0, amount)] \<and> era_points sample_next 0 \<noteq> 0 \<and>
    length (uq_contents (UnsentRewards sample_next)) \<le> rw_HistoryDepth fail_cfg - 1"
proof -
  obtain w where r: "rw_reachable fail_cfg (1, sample_next, w)" using sample_turn(4) by blast
  obtain amount where c: "rw_contents sample_next = [(0, 0, amount)]" using sample_turn(3) by blast
  show ?thesis using unsent_eras_invariant [OF r] by (simp add: c)
qed

text \<open>
  C39. The start of an era always completes; it drops from the queue exactly the eras whose points have
  left the history, reporting each, and keeps the others in order.
\<close>

theorem era_start_expires:
  assumes "rw_reachable cfg (n, s, w)" and "rw_on_era_end cfg ev n (s, w) = (s1, w1)"
  shows "\<exists>s2. rw_on_era_start cfg (n + 1) s1 = Some s2 \<and>
    uq_contents (UnsentRewards s2) = filter (\<lambda>x. n + 1 < fst x + rw_HistoryDepth cfg) (uq_contents (UnsentRewards s1)) \<and>
    rw_events s2 = rw_events s1 @
      map (\<lambda>x. UnsentEraExpired (fst x)) (filter (\<lambda>x. fst x + rw_HistoryDepth cfg \<le> n + 1) (uq_contents (UnsentRewards s1)))"
proof -
  have v: "rw_valid s" using rw_reachable_inv [OF assms(1)] by (simp add: rw_inv_def)
  have v1: "rw_valid s1" using rw_on_era_end_queue(1) [OF v, of cfg ev n w] assms(2) by simp
  show ?thesis using rw_on_era_start_eq [OF v1, of cfg "n + 1"] by (auto simp: not_le)
qed

theorem era_start_expires_witness:
  "\<exists>s2. rw_on_era_start fail_cfg (0 + 1) sample_unsent = Some s2 \<and>
    uq_contents (UnsentRewards s2) = filter (\<lambda>x. 0 + 1 < fst x + rw_HistoryDepth fail_cfg) (uq_contents (UnsentRewards sample_unsent)) \<and>
    rw_events s2 = rw_events sample_unsent @
      map (\<lambda>x. UnsentEraExpired (fst x)) (filter (\<lambda>x. fst x + rw_HistoryDepth fail_cfg \<le> 0 + 1) (uq_contents (UnsentRewards sample_unsent)))"
proof -
  obtain w1 where "rw_on_era_end fail_cfg (sample_state 6) 0 (sample_awarded, 0) = (sample_unsent, w1)" using sample_turn(1) by blast
  then show ?thesis by (rule era_start_expires [OF sample_awarded_reachable])
qed

text \<open>
  C20. As long as only the hooks at the start of blocks run (within an era), the unsent era at position \<open>j\<close> of the
  queue is the one retried in the \<open>j\<close>-th following block, whatever happened to the ones before it, with the
  amount minted for it; that retry takes it out of the queue if its message is delivered and puts it back at the
  end otherwise. (At the start of an era, expired entries leave the queue undelivered.)
\<close>

theorem unsent_eras_retried_in_order:
  assumes "rw_reachable cfg (n, s, w)" and "j < length (uq_contents (UnsentRewards s))"
    and "(rw_on_initialize cfg ^^ j) (s, w) = (s', w')"
  shows "let (era, ts, amount) = uq_contents (UnsentRewards s) ! j in
    \<exists>rest. uq_contents (UnsentRewards s') = (era, ts, amount) # rest \<and>
     (case send_rewards_message cfg (era_info s era amount ts) w' of
       (Some i, w'') \<Rightarrow> \<exists>s''. rw_on_initialize cfg (s', w') = (s'', w'') \<and> uq_contents (UnsentRewards s'') = rest \<and>
           rw_events s'' = rw_events s' @ [RewardsMessageRetried i era (era_points s era) amount]
     | (None, w'') \<Rightarrow> \<exists>s''. rw_on_initialize cfg (s', w') = (s'', w'') \<and>
           uq_contents (UnsentRewards s'') = rest @ [(era, ts, amount)] \<and> rw_events s'' = rw_events s')"
proof -
  have inv: "rw_inv cfg n s" using rw_reachable_inv [OF assms(1)] by simp
  then have v: "rw_valid (fst (s, w))" by (simp add: rw_inv_def)
  obtain era ts amount where e: "rw_contents s ! j = (era, ts, amount)" by (metis prod.collapse)
  have run: "rw_inv cfg n (fst ((rw_on_initialize cfg ^^ k) (s, w))) \<and>
      RewardPointsForEra (fst ((rw_on_initialize cfg ^^ k) (s, w))) = RewardPointsForEra s" for k
  proof (induction k)
    case (Suc k)
    obtain t u where tu: "(rw_on_initialize cfg ^^ k) (s, w) = (t, u)" by (metis prod.collapse)
    then have "rw_valid t" using Suc by (simp add: rw_inv_def)
    then have "RewardPointsForEra (fst (rw_on_initialize cfg (t, u))) = RewardPointsForEra t"
      by (simp add: rw_on_initialize_def process_unsent_frame(1))
    then show ?case using Suc tu rw_inv_block [of cfg n t u] by simp
  qed (use inv in simp)
  have v': "rw_valid s'" and pts: "RewardPointsForEra s' = RewardPointsForEra s"
    using run [of j] assms(3) by (simp_all add: rw_inv_def)
  obtain rest where c: "rw_contents s' = (era, ts, amount) # rest"
    using reward_hook.run_attempts [OF v, of j cfg] assms(2,3) e by (cases "rw_contents s'") auto
  have "(era, ts, amount) \<in> set (rw_contents s)" using e assms(2) by (metis nth_mem)
  then have p: "era_points s era \<noteq> 0" using inv by (force simp: rw_inv_def)
  have gi: "generate_era_rewards_info (RewardPointsForEra s' era) era amount ts = Some (era_info s era amount ts)"
    using p generate_info [of s era amount ts] pts by simp
  have "eu_total_points (era_info s era amount ts) = era_points s era" by (simp add: era_info_def)
  then show ?thesis
    using c gi uq_drop_head [OF v'] uq_requeue_head [OF v', of "(era, ts, amount)"]
    by (auto simp: e rw_on_initialize_def process_unsent_eq [OF v'] rw_deposit_def split: option.splits prod.splits)
qed

theorem unsent_eras_retried_in_order_witness:
  "\<exists>w amount rest s''. uq_contents (UnsentRewards sample_next) = (0, 0, amount) # rest \<and>
     rw_on_initialize fail_cfg (sample_next, w) = (s'', w) \<and> uq_contents (UnsentRewards s'') = rest @ [(0, 0, amount)]"
proof -
  obtain w where r: "rw_reachable fail_cfg (1, sample_next, w)" using sample_turn(4) by blast
  obtain amount where c: "rw_contents sample_next = [(0, 0, amount)]" using sample_turn(3) by blast
  have l: "0 < length (uq_contents (UnsentRewards sample_next))" by (simp only: c) simp
  have "(rw_on_initialize fail_cfg ^^ 0) (sample_next, w) = (sample_next, w)" by simp
  moreover have "rw_SendMessage fail_cfg = never_sends" by (simp add: mainnet_rw_config_def)
  ultimately show ?thesis
    using unsent_eras_retried_in_order [OF r l, of sample_next w] c by (auto simp: send_rewards_message_def)
qed

end
