(* ===== verification/Slashes_Correct.thy ===== *)
theory Slashes_Correct
  imports Validator_Slashes
begin

text \<open>
  The properties of the external-validator-slashes pallet: what an offence report records, when slashes
  enter the queue and how the queue is worked off, what the governance calls change; and four
  behaviours that differ from what the comments beside the code promise.
\<close>

section \<open>A configuration and a state for the concrete instances\<close>

definition mainnet_sl_config :: "(string \<Rightarrow> string) \<Rightarrow> (AccountId \<Rightarrow> nat) \<Rightarrow> sl_config" where
  "mainnet_sl_config lossy twox = \<lparr>SlashDeferDuration = 0, BondingDuration = 28, MaxSlashWad = 50000000000000000,
     QueuedSlashesProcessedPerBlock = 10, sl_GovernanceOrigin = ensure_root, from_utf8_lossy = lossy,
     twox_64_concat = twox\<rparr>"

abbreviation sl_cfg :: sl_config where
  "sl_cfg \<equiv> mainnet_sl_config (\<lambda>x. x) unat"

text \<open>Era 0 is active and bonded; equivocations of validators 3 and 1 (a whitelisted one) are noted in session 0.\<close>

definition sample_sl :: sl_state where
  "sample_sl = set_kinds 0 (Some BabeEquivocation) [3, 1] (sl_on_era_start sl_cfg 0 0 0 (sl_build Enabled))"

definition sample_report :: "(AccountId \<times> AccountId list) list" where
  "sample_report = [(3, [9]), (1, [])]"

lemma sample_ev:
  "ev_active_era (sample_state 6) = \<lparr>ae_index = 0, ae_start = None\<rparr>" "era_to_session_start (sample_state 6) 0 = Some 0"
  "invulnerables (sample_state 6) = [1, 2]"
  by (simp_all add: ev_active_era_def era_to_session_start_def invulnerables_def sample_eval)

lemma sample_sl_eq:
  "sample_sl = (sl_build Enabled)\<lparr>BondedEras := [(0, 0, 0)],
     PendingOffenceKind := [(0, 3) \<mapsto> BabeEquivocation, (0, 1) \<mapsto> BabeEquivocation]\<rparr>"
  by (simp add: sample_sl_def set_kinds_def sl_on_era_start_def add_era_slashes_to_queue_def sl_build_def mainnet_sl_config_def Let_def)

lemma sample_sl_reachable: "sl_reachable sl_cfg sm (sample_sl, w)"
proof -
  let ?g = "sl_build Enabled"
  have n: "next_era ?g = 0" by (simp add: next_era_def sl_build_def)
  have "sl_reachable sl_cfg sm (sl_on_era_start sl_cfg 0 0 0 ?g, w)"
    using sl_next [OF sl_genesis sl_era [of sl_cfg sm ?g w 0 0]] n by simp
  then show ?thesis unfolding sample_sl_def by (rule sl_next) (rule sl_kinds)
qed

lemma sample_era: "slash_era_of (sample_state 6) 0 s = Some 0"
  by (simp add: slash_era_of_def sample_ev)

lemma sample_slashable:
  "slashable (sample_state 6) 0 0 sample_sl (3, f) \<longleftrightarrow> 0 < f" "\<not> slashable (sample_state 6) 0 0 sample_sl (1, f)"
  by (simp_all add: slashable_def reportable_def sample_ev era_max_def sample_sl_eq sl_build_def)

section \<open>Properties\<close>

text \<open>
  C18. In every reachable state of the pallet the unsent queue is a well-formed ring, every queued batch
  is non-empty and at most \<open>QueuedSlashesProcessedPerBlock\<close> slashes long, the bonded eras are a
  contiguous range of at most \<open>BondingDuration + 1\<close> eras ending with the latest one, and, as long
  as the counter has not saturated, no two stored slashes have the same identifier.
\<close>

theorem slashes_invariant:
  assumes "sl_reachable cfg sm (s, w)"
  shows "uq_valid (UnsentSlashes s) \<and>
    (\<forall>(era, batch) \<in> set (uq_contents (UnsentSlashes s)). batch \<noteq> [] \<and> length batch \<le> max (QueuedSlashesProcessedPerBlock cfg) 1) \<and>
    (\<exists>n. map fst (BondedEras s) = [n - 1 - BondingDuration cfg..<n]) \<and>
    (NextSlashId s < u32_max \<longrightarrow> ids_ok (NextSlashId s) (Slashes s))"
  using sl_reachable_inv [OF assms] by (auto simp: sl_inv_def)

theorem slashes_invariant_witness:
  "uq_valid (UnsentSlashes sample_sl) \<and> (\<exists>n. map fst (BondedEras sample_sl) = [n - 1 - BondingDuration sl_cfg..<n]) \<and>
   ids_ok (NextSlashId sample_sl) (Slashes sample_sl)"
proof -
  have "NextSlashId sample_sl < u32_max" by (simp add: sample_sl_eq sl_build_def u32_max_def)
  then show ?thesis using slashes_invariant [OF sample_sl_reachable [of never_sends "()"]] by blast
qed

text \<open>
  C7. A report in enabled mode adds to the due era exactly one slash for each offender whose
  kind was noted, who is not invulnerable and whose fraction exceeds the maximum recorded for the
  era, in the order of the report and with consecutive fresh identifiers; slashes of other eras stay.
\<close>

theorem on_offence_records:
  assumes "SlashingMode s = Enabled" and "slash_era_of ev session s = Some era" and "distinct (map fst offs)"
    and "NextSlashId s + length offs \<le> u32_max"
  shows "\<exists>new. let due = deferred_to cfg (ae_index (ev_active_era ev)) era; s' = on_offence cfg ev offs fs session s in
    Slashes s' = (Slashes s)(due := Slashes s due @ new) \<and>
    map (\<lambda>sl. (validator sl, percentage sl)) new
      = filter (slashable ev session era s) (map (\<lambda>((v, _), f). (v, f)) (zip offs fs)) \<and>
    map slash_id new = [NextSlashId s..<NextSlashId s + length new] \<and> NextSlashId s' = NextSlashId s + length new"
proof -
  let ?new = "offence_slashes cfg ev session era s (zip offs fs) (NextSlashId s)"
  note st = on_offence_enabled [OF assms(1-3), of cfg fs]
  have l: "length ?new \<le> length offs" "NextSlashId s + length (zip offs fs) \<le> u32_max"
    using offence_slashes_length [of cfg ev session era s "zip offs fs" "NextSlashId s"] assms(4) by auto
  then have "NextSlashId (on_offence cfg ev offs fs session s) = NextSlashId s + length ?new"
    unfolding st(3) offence_slashes_counter using assms(4) by simp
  then show ?thesis
    using st(1) offence_slashes_validators offence_slashes_ids [OF l(2)] by (intro exI [of _ ?new]) (simp add: Let_def)
qed

theorem on_offence_records_witness:
  "\<exists>new. let due = deferred_to sl_cfg (ae_index (ev_active_era (sample_state 6))) 0;
      s' = on_offence sl_cfg (sample_state 6) sample_report [500, 700] 0 sample_sl in
    Slashes s' = (Slashes sample_sl)(due := Slashes sample_sl due @ new) \<and>
    map (\<lambda>sl. (validator sl, percentage sl)) new = [(3, 500)] \<and>
    map slash_id new = [NextSlashId sample_sl..<NextSlashId sample_sl + length new] \<and>
    NextSlashId s' = NextSlashId sample_sl + length new"
proof -
  have "SlashingMode sample_sl = Enabled" "distinct (map fst sample_report)" "NextSlashId sample_sl + length sample_report \<le> u32_max"
    by (simp_all add: sample_sl_eq sl_build_def sample_report_def u32_max_def)
  moreover have "filter (slashable (sample_state 6) 0 0 sample_sl) (map (\<lambda>((v, _), f). (v, f)) (zip sample_report [500, 700])) = [(3, 500)]"
    by (simp add: sample_report_def sample_slashable)
  ultimately show ?thesis
    using on_offence_records [OF _ sample_era, of sample_sl sample_report sl_cfg "[500, 700]"] by simp
qed

text \<open>
  The recorded fraction of a validator in an era is the maximum of what it was and of what is
  reported: a report raises it to the reported fraction when that is larger, and never lowers it.
\<close>

theorem era_maximum:
  assumes "SlashingMode s = Enabled" and "slash_era_of ev session s = Some era" and "distinct (map fst offs)"
  shows "era_max (on_offence cfg ev offs fs session s) e v =
    (case report_of offs fs v of
       Some f \<Rightarrow> if e = era \<and> reportable ev session s v then max (era_max s e v) f else era_max s e v
     | None \<Rightarrow> era_max s e v)"
  by (rule on_offence_enabled(2) [OF assms])

theorem era_maximum_witness:
  "era_max (on_offence sl_cfg (sample_state 6) sample_report [500, 700] 0 sample_sl) 0 3 = 500"
proof -
  have "SlashingMode sample_sl = Enabled" "distinct (map fst sample_report)"
    by (simp_all add: sample_sl_eq sl_build_def sample_report_def)
  from era_maximum [OF this(1) sample_era this(2), of sl_cfg "[500, 700]" 0 3] show ?thesis
    by (simp add: report_of_def sample_report_def reportable_def sample_ev era_max_def sample_sl_eq sl_build_def)
qed

text \<open>
  Unless the mode is enabled, an offence changes neither the stored slashes nor the recorded maxima
  nor the counter.
\<close>

theorem no_slash_unless_enabled:
  assumes "SlashingMode s \<noteq> Enabled"
  shows "Slashes (on_offence cfg ev offs fs session s) = Slashes s \<and>
    ValidatorSlashInEra (on_offence cfg ev offs fs session s) = ValidatorSlashInEra s \<and>
    NextSlashId (on_offence cfg ev offs fs session s) = NextSlashId s"
  using on_offence_not_enabled [OF assms] by simp

theorem no_slash_unless_enabled_witness:
  "Slashes (on_offence sl_cfg (sample_state 6) sample_report [500, 700] 0 (sample_sl\<lparr>SlashingMode := LogOnly\<rparr>)) = (\<lambda>_. [])"
  using no_slash_unless_enabled [of "sample_sl\<lparr>SlashingMode := LogOnly\<rparr>" sl_cfg "sample_state 6" sample_report "[500, 700]" 0]
  by (simp add: sample_sl_eq sl_build_def)

text \<open>
  The era of an offence that predates the active era is the last bonded era that started at or
  before the offence's session: every later bonded era started after it. No era is found only
  when every bonded era started later.
\<close>

theorem slash_era_is_last_started:
  assumes "\<exists>start. era_to_session_start ev (ae_index (ev_active_era ev)) = Some start \<and> session < start"
  shows "(case slash_era_of ev session s of
      Some era \<Rightarrow> \<exists>k < length (BondedEras s). fst (BondedEras s ! k) = era \<and> fst (snd (BondedEras s ! k)) \<le> session \<and>
        (\<forall>j. k < j \<and> j < length (BondedEras s) \<longrightarrow> session < fst (snd (BondedEras s ! j)))
    | None \<Rightarrow> \<forall>b \<in> set (BondedEras s). session < fst (snd b))"
proof -
  let ?b = "BondedEras s" and ?P = "\<lambda>(_ :: EraIndex, sesh, _ :: nat). sesh \<le> session"
  have eq: "slash_era_of ev session s = map_option fst (find ?P (rev ?b))"
    using assms by (auto simp: slash_era_of_def Let_def)
  show ?thesis
  proof (cases "find ?P (rev ?b)")
    case None
    then have "\<forall>b \<in> set ?b. session < fst (snd b)" by (fastforce simp: find_None_iff not_le)
    then show ?thesis using eq None by simp
  next
    case (Some x)
    then obtain i where i: "i < length ?b" "?P (rev ?b ! i)" "x = rev ?b ! i" "\<forall>j < i. \<not> ?P (rev ?b ! j)"
      by (auto simp: find_Some_iff)
    let ?k = "length ?b - Suc i"
    have k: "?k < length ?b" "?b ! ?k = x" using i by (simp_all add: rev_nth)
    have "session < fst (snd (?b ! j))" if "?k < j" "j < length ?b" for j
    proof -
      have "length ?b - Suc j < i" using that i(1) by linarith
      then have "\<not> ?P (rev ?b ! (length ?b - Suc j))" by (rule i(4) [rule_format])
      moreover have "rev ?b ! (length ?b - Suc j) = ?b ! j" using that by (simp add: rev_nth Suc_diff_Suc)
      ultimately show ?thesis by (simp add: split_beta)
    qed
    then show ?thesis using i k by (auto simp: eq Some split_beta intro!: exI [of _ ?k])
  qed
qed

theorem slash_era_is_last_started_witness:
  "let s = (sl_build Enabled)\<lparr>BondedEras := [(0, 0, 0), (1, 6, 0), (2, 12, 0)]\<rparr>;
       ev = (sample_state 6)\<lparr>ActiveEra := Some \<lparr>ae_index = 2, ae_start = None\<rparr>, ErasStartSessionIndex := [0 \<mapsto> 0, 1 \<mapsto> 6, 2 \<mapsto> 12]\<rparr>
   in slash_era_of ev 8 s = Some 1"
  using slash_era_is_last_started [of "(sample_state 6)\<lparr>ActiveEra := Some \<lparr>ae_index = 2, ae_start = None\<rparr>,
      ErasStartSessionIndex := [0 \<mapsto> 0, 1 \<mapsto> 6, 2 \<mapsto> 12]\<rparr>" 8 "(sl_build Enabled)\<lparr>BondedEras := [(0, 0, 0), (1, 6, 0), (2, 12, 0)]\<rparr>"]
  by (simp add: Let_def slash_era_of_def ev_active_era_def era_to_session_start_def)

text \<open>
  When era \<open>n\<close> starts, the slashes waiting for it enter the unsent queue: behind the batches
  already there, cut into batches of \<open>QueuedSlashesProcessedPerBlock\<close>, each tagged with the era. If there
  is room for them, every slash is queued, in order, and none is changed.
\<close>

theorem era_start_enqueues:
  assumes "sl_reachable cfg sm (s, w)" and "n = next_era s"
    and "length (uq_contents (UnsentSlashes s)) + length (era_batches cfg n (Slashes s n)) \<le> 63"
  shows "\<exists>batches. uq_contents (UnsentSlashes (sl_on_era_start cfg n start idx s)) = uq_contents (UnsentSlashes s) @ batches \<and>
    concat (map snd batches) = Slashes s n \<and>
    (\<forall>(era, batch) \<in> set batches. era = n \<and> batch \<noteq> [] \<and> length batch \<le> max (QueuedSlashesProcessedPerBlock cfg) 1)"
proof -
  obtain m where b: "map fst (BondedEras s) = [m - 1 - BondingDuration cfg..<m]" and v: "sl_valid s"
    using sl_reachable_inv [OF assms(1)] by (auto simp: sl_inv_def)
  have m: "m = n" using next_era_eq [OF b] assms(2) by simp
  have "sl_contents (sl_on_era_start cfg n start idx s) = sl_contents s @ era_batches cfg n (Slashes s n)"
    using sl_on_era_start_eq(5) [OF b _ v, of cfg start idx] assms(3) m by simp
  moreover have "concat (map snd (era_batches cfg n (Slashes s n))) = Slashes s n"
    by (simp add: era_batches_def comp_def)
  moreover have "\<forall>(era, batch) \<in> set (era_batches cfg n (Slashes s n)). era = n \<and> batch \<noteq> [] \<and> length batch \<le> max (QueuedSlashesProcessedPerBlock cfg) 1"
    using chunks_bounds unfolding era_batches_def by fastforce
  ultimately show ?thesis by blast
qed

text \<open>A slash for era 1, and the next era started.\<close>

definition sample_slashed :: sl_state where
  "sample_slashed = on_offence sl_cfg (sample_state 6) sample_report [500, 700] 0 sample_sl"

lemma sample_slashed_reachable: "sl_reachable sl_cfg sm (sample_slashed, w)"
  unfolding sample_slashed_def by (rule sl_next [OF sample_sl_reachable sl_offence])

lemma sample_slashed_eq:
  "Slashes sample_slashed 1 = [\<lparr>validator = 3, reporters = [9], slash_id = 0, percentage = 500, confirmed = True,
     slash_offence = BabeEquivocation\<rparr>]" "BondedEras sample_slashed = [(0, 0, 0)]" "UnsentSlashes sample_slashed = uq_empty"
proof -
  have "SlashingMode sample_sl = Enabled" "distinct (map fst sample_report)"
    by (simp_all add: sample_sl_eq sl_build_def sample_report_def)
  from on_offence_enabled(1) [OF this(1) sample_era this(2), of sl_cfg "[500, 700]"]
  show "Slashes sample_slashed 1 = [\<lparr>validator = 3, reporters = [9], slash_id = 0, percentage = 500, confirmed = True,
     slash_offence = BabeEquivocation\<rparr>]"
    by (simp add: sample_slashed_def sample_report_def sample_slashable deferred_to_def mainnet_sl_config_def sample_ev
        sat_add_def u32_max_def) (simp add: sample_sl_eq sl_build_def)
  show "BondedEras sample_slashed = [(0, 0, 0)]" "UnsentSlashes sample_slashed = uq_empty"
    by (simp_all add: sample_slashed_def) (simp_all add: sample_sl_eq sl_build_def)
qed

theorem era_start_enqueues_witness:
  "\<exists>batches. uq_contents (UnsentSlashes (sl_on_era_start sl_cfg 1 6 0 sample_slashed)) = uq_contents (UnsentSlashes sample_slashed) @ batches \<and>
    concat (map snd batches) = Slashes sample_slashed 1"
proof -
  have n: "1 = next_era sample_slashed" by (simp add: next_era_def sample_slashed_eq)
  have "length (uq_contents (UnsentSlashes sample_slashed)) + length (era_batches sl_cfg 1 (Slashes sample_slashed 1)) \<le> 63"
    by (simp only: sample_slashed_eq uq_empty_simps era_batches_def length_map) (simp add: mainnet_sl_config_def)
  from era_start_enqueues [OF sample_slashed_reachable [of never_sends "()"] n this, of 6 0] show ?thesis by blast
qed

text \<open>
  C19. Whatever the outcomes of the sends, the batch at position \<open>j\<close> of the queue is the one attempted
  in the \<open>j\<close>-th following block (no batch waits behind a failing one), and a batch leaves the queue
  only in a block whose message was delivered, which is the block's event.
\<close>

theorem slash_batches_attempted_in_order:
  assumes "sl_reachable cfg sm (s, w)" and "j < length (uq_contents (UnsentSlashes s))"
    and "(sl_on_initialize cfg sm ^^ j) (s, w) = (s', w')"
  shows "\<exists>rest. uq_contents (UnsentSlashes s') = uq_contents (UnsentSlashes s) ! j # rest \<and>
    (let (era, slashes) = uq_contents (UnsentSlashes s) ! j in
     case send_slashes_message sm (map (slash_to_send_data cfg) slashes) era w' of
       (Some i, w'') \<Rightarrow> \<exists>s''. sl_on_initialize cfg sm (s', w') = (s'', w'') \<and> uq_contents (UnsentSlashes s'') = rest \<and>
           sl_events s'' = sl_events s' @ [SlashesMessageSent i]
     | (None, w'') \<Rightarrow> \<exists>s''. sl_on_initialize cfg sm (s', w') = (s'', w'') \<and>
           uq_contents (UnsentSlashes s'') = rest @ [(era, slashes)] \<and>
           sl_events s'' = sl_events s' @ [SlashesMessageSendFailed era (as_u32 (length slashes))])"
proof -
  have v: "sl_valid (fst (s, w))" using sl_reachable_inv [OF assms(1)] by (simp add: sl_inv_def)
  have v': "sl_valid s'" using slash_hook.run_valid [OF v, of j cfg sm] assms(3) by simp
  obtain era slashes where b: "sl_contents s ! j = (era, slashes)" by (metis prod.collapse)
  obtain rest where c: "sl_contents s' = (era, slashes) # rest"
    using slash_hook.run_attempts [OF v, of j cfg sm] assms(2,3) b by (cases "sl_contents s'") auto
  obtain r w'' where r: "send_slashes_message sm (map (slash_to_send_data cfg) slashes) era w' = (r, w'')" by (metis prod.collapse)
  obtain s'' where i: "sl_on_initialize cfg sm (s', w') = (s'', w'')"
    using sl_on_initialize_head(3) [OF v' c r] by (metis prod.collapse)
  show ?thesis
    using sl_on_initialize_head(2,4) [OF v' c r] b c r i by (cases r) auto
qed

lemma sample_queued:
  "sl_contents (sl_on_era_start sl_cfg 1 6 0 sample_slashed) = [(1, Slashes sample_slashed 1)]"
  "sl_reachable sl_cfg sm (sl_on_era_start sl_cfg 1 6 0 sample_slashed, w)"
proof -
  have n: "next_era sample_slashed = 1" by (simp add: next_era_def sample_slashed_eq)
  show "sl_reachable sl_cfg sm (sl_on_era_start sl_cfg 1 6 0 sample_slashed, w)"
    using sl_next [OF sample_slashed_reachable sl_era [of sl_cfg sm sample_slashed w 6 0]] n by simp
  have b: "map fst (BondedEras sample_slashed) = [0..<1]" by (simp add: sample_slashed_eq)
  have v: "sl_valid sample_slashed" by (simp add: sample_slashed_eq)
  show "sl_contents (sl_on_era_start sl_cfg 1 6 0 sample_slashed) = [(1, Slashes sample_slashed 1)]"
    using sl_on_era_start_eq(5) [OF b _ v, of sl_cfg 6 0]
    by (simp only: sample_slashed_eq uq_empty_simps era_batches_def) (simp add: mainnet_sl_config_def)
qed

theorem slash_batches_attempted_in_order_witness:
  "let s = sl_on_era_start sl_cfg 1 6 0 sample_slashed in
   \<exists>s''. sl_on_initialize sl_cfg (always_sends 77) (s, ()) = (s'', ()) \<and> uq_contents (UnsentSlashes s'') = [] \<and>
     sl_events s'' = sl_events s @ [SlashesMessageSent 77]"
proof -
  define s where "s = sl_on_era_start sl_cfg 1 6 0 sample_slashed"
  have c: "sl_contents s = [(1, Slashes sample_slashed 1)]" unfolding s_def by (rule sample_queued(1))
  have r: "sl_reachable sl_cfg (always_sends 77) (s, ())" unfolding s_def by (rule sample_queued(2))
  have l: "0 < length (sl_contents s)" by (simp only: c) simp
  have "(sl_on_initialize sl_cfg (always_sends 77) ^^ 0) (s, ()) = (s, ())" by simp
  from slash_batches_attempted_in_order [OF r l this] show ?thesis
    unfolding s_def [symmetric] Let_def by (simp add: c send_slashes_message_def)
qed

text \<open>
  \<open>cancel_deferred_slash\<close> succeeds exactly for the root origin, an era after the active one and within
  the deferral, and a non-empty strictly increasing list of positions all within the era's slashes; it
  then removes the slashes at these positions, keeps the others in order, and changes nothing else.
\<close>

theorem cancel_removes_exactly:
  "cancel_deferred_slash cfg ev og era is s = Inr s' \<longleftrightarrow>
     og = RootOrigin \<and> ae_index (ev_active_era ev) < era \<and>
     era \<le> sat_add32 (ae_index (ev_active_era ev)) (sat_add32 (SlashDeferDuration cfg) 1) \<and>
     is \<noteq> [] \<and> sorted_wrt (<) is \<and> set is \<subseteq> {..<length (Slashes s era)} \<and>
     s' = s\<lparr>Slashes := (Slashes s)(era := nths (Slashes s era) (- set is))\<rparr>" (is "?l \<longleftrightarrow> ?r")
proof
  assume l: ?l
  note acc = cancel_deferred_slash_accepted [OF l]
  show ?r using acc l by (auto simp: cancel_deferred_slash_def Let_def ensure_root_def split: if_splits)
next
  assume r: ?r
  then have "is ! (length is - 1) < length (Slashes s era)" by (metis last_conv_nth last_in_set lessThan_iff subsetD)
  moreover have "fold remove_nth (rev is) (Slashes s era) = nths (Slashes s era) (- set is)"
    using r foldr_remove_nth [of "is" "Slashes s era"] by (auto simp: foldr_conv_fold)
  ultimately show ?l
    using r by (simp add: cancel_deferred_slash_def Let_def ensure_root_def is_sorted_and_unique_iff)
qed

text \<open>
  The amount sent for a slash never exceeds \<open>MaxSlashWad\<close>; for a fraction \<open>p\<close> of a billion it is
  \<open>p * MaxSlashWad / 10^9\<close> rounded down (when the product fits into 128 bits), so the full fraction sends
  the full amount; a larger fraction never sends less.
\<close>

theorem wad_of_percentage:
  "sd_wad_to_slash (slash_to_send_data cfg sl) \<le> MaxSlashWad cfg \<and>
   (percentage sl \<le> ACCURACY \<and> ACCURACY * MaxSlashWad cfg \<le> u128_max \<longrightarrow>
      sd_wad_to_slash (slash_to_send_data cfg sl) = percentage sl * MaxSlashWad cfg div ACCURACY) \<and>
   (percentage sl \<le> percentage sl' \<longrightarrow>
      sd_wad_to_slash (slash_to_send_data cfg sl) \<le> sd_wad_to_slash (slash_to_send_data cfg sl'))"
proof -
  let ?M = "MaxSlashWad cfg"
  have wad: "sd_wad_to_slash (slash_to_send_data cfg x) = min (sat_mul128 (percentage x) ?M div ACCURACY) ?M" for x
    by (simp add: slash_to_send_data_def Let_def checked_div_def ACCURACY_def)
  have "min (sat_mul128 (percentage sl) ?M div ACCURACY) ?M = percentage sl * ?M div ACCURACY"
    if p: "percentage sl \<le> ACCURACY" "ACCURACY * ?M \<le> u128_max"
  proof -
    have "percentage sl * ?M \<le> ACCURACY * ?M" using p(1) by simp
    then have e: "sat_mul128 (percentage sl) ?M = percentage sl * ?M" using p(2) le_trans sat_mul_exact by blast
    have "percentage sl * ?M div ACCURACY \<le> ACCURACY * ?M div ACCURACY" using p(1) by (intro div_le_mono) simp
    then show ?thesis unfolding e by (simp add: ACCURACY_def)
  qed
  moreover have "min (sat_mul128 (percentage sl) ?M div ACCURACY) ?M \<le> min (sat_mul128 (percentage sl') ?M div ACCURACY) ?M"
    if "percentage sl \<le> percentage sl'"
    using div_le_mono [OF sat_mul_mono [OF that order_refl, of u128_max ?M], of ACCURACY] by auto
  ultimately show ?thesis unfolding wad by simp
qed

theorem wad_of_percentage_witness:
  "let sl = \<lparr>validator = 3, reporters = [], slash_id = 0, percentage = 100000000, confirmed = True, slash_offence = LivenessOffence\<rparr>
   in sd_wad_to_slash (slash_to_send_data sl_cfg sl) = 5000000000000000"
  using wad_of_percentage [of sl_cfg "\<lparr>validator = 3, reporters = [], slash_id = 0, percentage = 100000000, confirmed = True,
    slash_offence = LivenessOffence\<rparr>"]
  by (simp add: mainnet_sl_config_def ACCURACY_def u128_max_def)

text \<open>One offender reported.\<close>

lemma single_report:
  fixes cfg :: sl_config and reps :: "AccountId list" and k :: offence_kind
  assumes "SlashingMode s = Enabled" and "slash_era_of ev session s = Some era" and "v \<notin> set (invulnerables ev)"
    and "era_max s era v < f"
  defines "due \<equiv> deferred_to cfg (ae_index (ev_active_era ev)) era"
    and "s' \<equiv> on_offence cfg ev [(v, reps)] [f] session (set_kinds session (Some k) [v] s)"
  shows "map (\<lambda>x. (validator x, percentage x)) (Slashes s' due) = map (\<lambda>x. (validator x, percentage x)) (Slashes s due) @ [(v, f)]"
    "era_max s' era v = f" "SlashingMode s' = Enabled" "slash_era_of ev session s' = Some era"
proof -
  let ?s = "set_kinds session (Some k) [v] s"
  have k [simp]: "SlashingMode ?s = SlashingMode s" "slash_era_of ev session ?s = slash_era_of ev session s"
      "era_max ?s e u = era_max s e u" "Slashes ?s = Slashes s" "PendingOffenceKind ?s (session, v) = Some k" for e u
    by (simp_all add: set_kinds_def slash_era_of_def era_max_def Let_def)
  have r: "reportable ev session ?s v" using assms(3) by (simp add: reportable_def)
  note st = on_offence_enabled [of ?s ev session era "[(v, reps)]" cfg "[f]", folded s'_def due_def]
  show "map (\<lambda>x. (validator x, percentage x)) (Slashes s' due) = map (\<lambda>x. (validator x, percentage x)) (Slashes s due) @ [(v, f)]"
    using st(1) assms(1-4) r by (simp add: slashable_def)
  show "era_max s' era v = f" using st(2) assms(1-4) r by (simp add: report_of_def)
  show "SlashingMode s' = Enabled" using assms(1) by (simp add: s'_def)
  have "BondedEras s' = BondedEras s" by (simp add: s'_def set_kinds_def)
  then show "slash_era_of ev session s' = Some era" using assms(2) by (simp only: slash_era_of_def)
qed

text \<open>
  Two reports of one validator in the same era, the second with a larger fraction, leave two slashes
  for the due era, with both fractions in full: the amounts add up, although the recorded
  fraction is the maximum.
\<close>

theorem repeated_offences_accumulate:
  assumes "SlashingMode s = Enabled" and "slash_era_of ev session s = Some era" and "v \<notin> set (invulnerables ev)"
    and "era_max s era v < f1" and "f1 < f2"
  shows "let due = deferred_to cfg (ae_index (ev_active_era ev)) era;
      s1 = on_offence cfg ev [(v, r1)] [f1] session (set_kinds session (Some k1) [v] s);
      s2 = on_offence cfg ev [(v, r2)] [f2] session (set_kinds session (Some k2) [v] s1)
    in map (\<lambda>x. (validator x, percentage x)) (Slashes s2 due)
         = map (\<lambda>x. (validator x, percentage x)) (Slashes s due) @ [(v, f1), (v, f2)] \<and> era_max s2 era v = f2"
proof -
  define s1 where "s1 = on_offence cfg ev [(v, r1)] [f1] session (set_kinds session (Some k1) [v] s)"
  note a = single_report [OF assms(1-4), of cfg r1 k1, folded s1_def]
  have "era_max s1 era v < f2" using a(2) assms(5) by simp
  from single_report [OF a(3,4) assms(3) this, of cfg r2 k2] a(1) show ?thesis
    unfolding Let_def s1_def [symmetric] by simp
qed

theorem repeated_offences_accumulate_witness:
  "let s1 = on_offence sl_cfg (sample_state 6) [(3, [])] [500] 0 (set_kinds 0 (Some BabeEquivocation) [3] sample_sl);
       s2 = on_offence sl_cfg (sample_state 6) [(3, [])] [700] 0 (set_kinds 0 (Some GrandpaEquivocation) [3] s1)
   in map (\<lambda>x. (validator x, percentage x)) (Slashes s2 1) = [(3, 500), (3, 700)] \<and> era_max s2 0 3 = 700"
proof -
  have h: "SlashingMode sample_sl = Enabled" "(3 :: AccountId) \<notin> set (invulnerables (sample_state 6))" "era_max sample_sl 0 3 < 500"
    "Slashes sample_sl 1 = []"
    by (simp_all add: sample_sl_eq sl_build_def sample_ev era_max_def)
  have d: "deferred_to sl_cfg (ae_index (ev_active_era (sample_state 6))) 0 = 1"
    by (simp add: deferred_to_def sample_ev mainnet_sl_config_def sat_add_def u32_max_def)
  show ?thesis
    using repeated_offences_accumulate [OF h(1) sample_era h(2,3), of 700 sl_cfg "[]" BabeEquivocation "[]" GrandpaEquivocation]
    unfolding d by (simp add: h(4) [unfolded One_nat_def] Let_def)
qed

text \<open>The starts of several eras.\<close>

definition start_eras :: "sl_config \<Rightarrow> (EraIndex \<times> SessionIndex \<times> nat) list \<Rightarrow> sl_state \<Rightarrow> sl_state" where
  "start_eras cfg eras s = fold (\<lambda>(n, start, idx). sl_on_era_start cfg n start idx) eras s"

text \<open>Two states that differ only in slashes of eras up to \<open>a\<close> and in data the queue does not depend on.\<close>

definition same_from :: "EraIndex \<Rightarrow> sl_state \<Rightarrow> sl_state \<Rightarrow> bool" where
  "same_from a s t \<longleftrightarrow> UnsentSlashes s = UnsentSlashes t \<and> BondedEras s = BondedEras t \<and> (\<forall>n > a. Slashes s n = Slashes t n)"

lemma enqueue_same: "UnsentSlashes s = UnsentSlashes t \<Longrightarrow>
    UnsentSlashes (snd (enqueue_batches n bs k s)) = UnsentSlashes (snd (enqueue_batches n bs k t))"
  by (induction bs arbitrary: k s t) (simp_all add: sl_unsent_queue_push_def split_beta Let_def split: bool.split)

lemma add_same: "same_from a s t \<Longrightarrow> a < n \<Longrightarrow> same_from a (add_era_slashes_to_queue cfg n s) (add_era_slashes_to_queue cfg n t)"
  using enqueue_same [of s t n "chunks (max (QueuedSlashesProcessedPerBlock cfg) 1) (Slashes t n)" 0]
  by (auto simp: same_from_def) (auto simp: add_era_slashes_to_queue_def Let_def split_beta)

lemma prune_same: "same_from a s t \<Longrightarrow>
    same_from a (fold (\<lambda>(e, _, _). prune_era cfg e) ps s) (fold (\<lambda>(e, _, _). prune_era cfg e) ps t)"
  by (induction ps arbitrary: s t) (auto simp: same_from_def prune_era_def)

lemma bonded_same: "same_from a s t \<Longrightarrow> same_from a (s\<lparr>BondedEras := b\<rparr>) (t\<lparr>BondedEras := b\<rparr>)"
    "same_from a s t \<Longrightarrow> same_from a (s\<lparr>BondedEras := b, historical_pruned := h\<rparr>) (t\<lparr>BondedEras := b, historical_pruned := h'\<rparr>)"
  by (simp_all add: same_from_def)

lemma era_start_same:
  assumes "same_from a s t" and "a < n"
  shows "same_from a (sl_on_era_start cfg n start idx s) (sl_on_era_start cfg n start idx t)"
proof -
  have b: "BondedEras s = BondedEras t" using assms(1) by (simp add: same_from_def)
  show ?thesis
    unfolding sl_on_era_start_def Let_def b
    by (rule add_same [OF _ assms(2)]) (simp add: bonded_same prune_same assms(1) del: take_append drop_append fold_append split: list.split prod.split)
qed

lemma start_eras_same: "same_from a s t \<Longrightarrow> \<forall>(n, _, _) \<in> set eras. a < n \<Longrightarrow> same_from a (start_eras cfg eras s) (start_eras cfg eras t)"
  unfolding start_eras_def by (induction eras arbitrary: s t) (auto simp: era_start_same)

text \<open>
  With no deferral, a slash injected for an era before the active one is stored under an era that has
  already started: however many eras start afterwards, the queue is what it would be without the
  injection, so the slash is never sent.
\<close>

theorem injected_slash_never_sent:
  assumes "force_inject_slash cfg ev og era who pct kind s = Inr s'" and "SlashDeferDuration cfg = 0"
    and "era < ae_index (ev_active_era ev)" and "\<forall>(n, _, _) \<in> set eras. ae_index (ev_active_era ev) < n"
  shows "(\<exists>sl \<in> set (Slashes s' (sat_add32 era 1)). validator sl = who \<and> percentage sl = pct \<and> confirmed sl) \<and>
    UnsentSlashes (start_eras cfg eras s') = UnsentSlashes (start_eras cfg eras s)"
proof -
  have e: "sat_add32 (sat_add32 era 0) 1 = sat_add32 era 1" by (simp add: sat_add_def)
  note acc = force_inject_slash_accepted(4) [OF assms(1), unfolded assms(2) e]
  have "sat_add32 era 1 \<le> ae_index (ev_active_era ev)" using assms(3) by (simp add: sat_add_def)
  then have "same_from (ae_index (ev_active_era ev)) s' s" unfolding acc by (simp add: same_from_def)
  from start_eras_same [OF this assms(4), of cfg] show ?thesis
    by (simp add: same_from_def) (simp add: acc)
qed

theorem injected_slash_never_sent_witness:
  "let ev = (sample_state 6)\<lparr>ActiveEra := Some \<lparr>ae_index = 3, ae_start = None\<rparr>\<rparr> in
   \<exists>s'. force_inject_slash sl_cfg ev RootOrigin 0 3 500 LivenessOffence sample_sl = Inr s' \<and>
     UnsentSlashes (start_eras sl_cfg [(4, 24, 0), (5, 30, 0)] s') = UnsentSlashes (start_eras sl_cfg [(4, 24, 0), (5, 30, 0)] sample_sl)"
proof -
  let ?ev = "(sample_state 6)\<lparr>ActiveEra := Some \<lparr>ae_index = 3, ae_start = None\<rparr>\<rparr>"
  have a: "ae_index (ev_active_era ?ev) = 3" "era_to_session_start ?ev 0 = Some 0"
    using sample_ev(2) by (simp_all add: ev_active_era_def era_to_session_start_def)
  have "era_max sample_sl 0 3 < 500" by (simp add: sample_sl_eq sl_build_def era_max_def)
  then obtain s' where "force_inject_slash sl_cfg ?ev RootOrigin 0 3 500 LivenessOffence sample_sl = Inr s'"
    by (simp add: force_inject_slash_def Let_def a compute_slash_eq ensure_root_def)
  then show ?thesis
    using injected_slash_never_sent [of sl_cfg ?ev RootOrigin 0 3 500 LivenessOffence sample_sl s' "[(4, 24, 0), (5, 30, 0)]"]
    by (simp add: Let_def a mainnet_sl_config_def)
qed

text \<open>Every offender handled has its noted kind taken, whatever is done with it.\<close>

lemma offence_fold_pending:
  "PendingOffenceKind (snd (fold (offence_step cfg ev session era) xs (i, s))) =
     (\<lambda>(sesh, v). if sesh = session \<and> v \<in> fst ` fst ` set xs then None else PendingOffenceKind s (sesh, v))"
proof (induction xs arbitrary: i s)
  case (Cons x xs)
  obtain v reps f where x: "x = ((v, reps), f)" by (metis prod.collapse)
  obtain i1 s1 where r: "offence_step cfg ev session era x (i, s) = (i1, s1)" by (metis prod.collapse)
  then have "PendingOffenceKind s1 = (PendingOffenceKind s)((session, v) := None)"
    unfolding x by (auto simp: offence_step_def compute_slash_eq Let_def split: option.splits if_splits)
  then show ?case using Cons.IH [of i1 s1] r x by (auto simp: fun_eq_iff)
qed (auto simp: fun_eq_iff)

lemma on_offence_pending:
  assumes "SlashingMode s \<noteq> Disabled" "slash_era_of ev session s = Some era" "length offs \<le> length fs"
  shows "PendingOffenceKind (on_offence cfg ev offs fs session s) =
    (\<lambda>(sesh, v). if sesh = session \<and> v \<in> fst ` set offs then None else PendingOffenceKind s (sesh, v))"
proof -
  have "fst ` fst ` set (zip offs fs) = fst ` set offs"
    using assms(3) by (metis list.set_map map_fst_zip_take min.absorb1 take_all order_refl)
  then show ?thesis
    using assms offence_fold_pending [of cfg ev session era "zip offs fs" "NextSlashId s" s]
    by (simp add: on_offence_def split_beta)
qed

lemma set_kinds_pending:
  "PendingOffenceKind (set_kinds sesh k vs s) (sesh, u) = (if u \<in> set vs then k else PendingOffenceKind s (sesh, u))"
proof -
  have "fold (\<lambda>v m. m((sesh, v) := k)) vs m (sesh, u) = (if u \<in> set vs then k else m (sesh, u))"
    for m :: "SessionIndex \<times> AccountId \<rightharpoonup> offence_kind"
    by (induction vs arbitrary: m) auto
  then show ?thesis by (simp add: set_kinds_def)
qed

lemma slash_era_found:
  assumes "(e, start, idx) \<in> set (BondedEras s)" "start \<le> session"
  shows "\<exists>era. slash_era_of ev session s = Some era"
proof -
  have "find (\<lambda>(_, sesh, _). sesh \<le> session) (rev (BondedEras s)) \<noteq> None"
    using assms by (auto simp: find_None_iff)
  then show ?thesis by (auto simp: slash_era_of_def Let_def)
qed

text \<open>
  While slashing is not disabled, no noted offence kind outlives its report: the offences pallet
  either rejects the report without changing anything, or hands all its offenders to the handler, and
  in both cases no kind is left for them.
\<close>

theorem report_consumes_kinds:
  assumes "SlashingMode s \<noteq> Disabled" and "BondedEras s = (e, start, idx) # bs" and "start \<le> session_index off"
    and inner: "\<And>s w. inner reps off (s, w) = (False, s, w) \<or>
      (\<exists>offs fs. inner reps off (s, w) = (True, on_offence cfg ev offs fs (session_index off) s, w) \<and>
        set (offenders off) \<subseteq> fst ` set offs \<and> length offs \<le> length fs)"
    and "v \<in> set (offenders off)"
  shows "PendingOffenceKind (fst (snd (report_offence kind inner reps off (s, w)))) (session_index off, v) = None"
proof -
  let ?s = "set_kinds (session_index off) (Some kind) (offenders off) s"
  have b: "SlashingMode ?s = SlashingMode s" "BondedEras ?s = BondedEras s" by (simp_all add: set_kinds_def)
  obtain era where era: "slash_era_of ev (session_index off) ?s = Some era"
    using slash_era_found [of e start idx ?s] assms(2,3) b by auto
  have "PendingOffenceKind (on_offence cfg ev offs fs (session_index off) ?s) (session_index off, v) = None"
    if "set (offenders off) \<subseteq> fst ` set offs" "length offs \<le> length fs" for offs fs
    using that assms(1,5) b on_offence_pending [OF _ era that(2), of cfg] by auto
  then show ?thesis
    using inner [of ?s w] assms(2,3,5) by (auto simp: report_offence_def Let_def set_kinds_pending)
qed

theorem report_consumes_kinds_witness:
  "let off = \<lparr>session_index = 0, offenders = [7]\<rparr>;
       inner = \<lambda>reps off sw. (True, on_offence sl_cfg (sample_state 6) [(7, [])] [500] (session_index off) (fst sw), snd sw)
   in PendingOffenceKind (fst (snd (report_offence BabeEquivocation inner [] off (sample_sl, ())))) (0, 7) = None"
  unfolding Let_def
  using report_consumes_kinds [of sample_sl 0 0 0 "[]" "\<lparr>session_index = 0, offenders = [7]\<rparr>"
      "\<lambda>reps off sw. (True, on_offence sl_cfg (sample_state 6) [(7, [])] [500] (session_index off) (fst sw), snd sw)" "[]"
      sl_cfg "sample_state 6" 7 BabeEquivocation "()"]
  by (force simp: sample_sl_eq sl_build_def)

text \<open>
  While slashing is disabled, a successful report leaves the noted offence kinds behind: the handler
  returns before it takes them.
\<close>

theorem disabled_mode_keeps_kinds:
  assumes "SlashingMode s = Disabled" and "BondedEras s = (e, start, idx) # bs" and "start \<le> session_index off"
    and inner: "\<And>s w. inner reps off (s, w) = (True, on_offence cfg ev offs fs (session_index off) s, w)"
    and "v \<in> set (offenders off)"
  shows "\<exists>s' w'. report_offence kind inner reps off (s, w) = (True, s', w') \<and> PendingOffenceKind s' (session_index off, v) = Some kind"
proof -
  have b: "SlashingMode (set_kinds sesh k vs s) = SlashingMode s" for sesh k vs by (simp add: set_kinds_def)
  show ?thesis
    using assms(1-3,5) b by (auto simp: report_offence_def Let_def inner on_offence_def set_kinds_pending)
qed

theorem disabled_mode_keeps_kinds_witness:
  "let off = \<lparr>session_index = 0, offenders = [7]\<rparr>;
       inner = \<lambda>reps off sw. (True, on_offence sl_cfg (sample_state 6) [(7, [])] [500] (session_index off) (fst sw), snd sw)
   in \<exists>s' w'. report_offence BabeEquivocation inner [] off (sample_sl\<lparr>SlashingMode := Disabled\<rparr>, ()) = (True, s', w') \<and>
     PendingOffenceKind s' (0, 7) = Some BabeEquivocation"
  unfolding Let_def
  using disabled_mode_keeps_kinds [of "sample_sl\<lparr>SlashingMode := Disabled\<rparr>" 0 0 0 "[]" "\<lparr>session_index = 0, offenders = [7]\<rparr>"
      "\<lambda>reps off sw. (True, on_offence sl_cfg (sample_state 6) [(7, [])] [500] (session_index off) (fst sw), snd sw)" "[]"
      sl_cfg "sample_state 6" "[(7, [])]" "[500]" 7 BabeEquivocation "()"]
  by (simp add: sample_sl_eq)

end
