(* ===== verification/Submission_Adapters.thy ===== *)
theory Submission_Adapters
  imports Outbound_Queue Rewards_Correct Slashes_Correct "HOL-Library.Multiset"
begin

text \<open>
  What the runtime plugs into the rewards and slashes pallets (\<open>runtime/common/src\<close>): the per-era
  inflation and its minting (\<open>inflation.rs\<close>), and the adapters that turn an era's points and a
  batch of slashes into outbound messages for the service manager contract
  (\<open>rewards_adapter.rs\<close>, \<open>slashes_adapter.rs\<close>), with the mainnet configuration of both.

  Minting, transfers and ABI encoding are parameters. The lemmas show how inflation is split and
  distributed without loss, and what becomes of the two messages at the outbound queue's size
  limit.
\<close>

section \<open>Inflation\<close>

definition MILLISECONDS_PER_YEAR :: nat where "MILLISECONDS_PER_YEAR = 31557600000"

definition eras_per_year :: "nat \<Rightarrow> nat" where
  "eras_per_year millisecs_per_era = MILLISECONDS_PER_YEAR div millisecs_per_era"

definition era_inflation :: "nat \<Rightarrow> nat \<Rightarrow> nat \<Rightarrow> nat \<Rightarrow> nat" where
  "era_inflation annual_amount sessions_per_era blocks_per_session millisecs_per_block =
     (if annual_amount = 0 then 0
      else let millisecs_per_era =
                 sat_mul128 (sat_mul128 sessions_per_era blocks_per_session) millisecs_per_block in
        if millisecs_per_era = 0 then 0
        else if eras_per_year millisecs_per_era = 0 then 0
        else annual_amount div eras_per_year millisecs_per_era)"

text \<open>
  \<open>mint_into\<close> of the balances pallet: whether it succeeded, and the state. A failed second mint
  does not undo the first.
\<close>

record 'w inflation_config =
  ic_perbill :: perbill_ops
  TreasuryProportion :: perbill
  ic_TreasuryAccount :: AccountId
  mint_into :: "AccountId \<Rightarrow> nat \<Rightarrow> 'w \<Rightarrow> bool \<times> 'w"

definition handler_mint_inflation ::
  "'w inflation_config \<Rightarrow> AccountId \<Rightarrow> nat \<Rightarrow> 'w \<Rightarrow> inflation_mint_result option \<times> 'w" where
  "handler_mint_inflation cfg rewards_account total_amount w =
     (if total_amount = 0 then (None, w)
      else
        let treasury = pb_mul_floor (ic_perbill cfg) (TreasuryProportion cfg) total_amount;
            rewards = sat_sub total_amount treasury;
            (ok1, w1) = (if rewards \<noteq> 0 then mint_into cfg rewards_account rewards w else (True, w))
        in
          if \<not> ok1 then (None, w1)
          else let (ok2, w2) = (if treasury \<noteq> 0 then mint_into cfg (ic_TreasuryAccount cfg) treasury w1
                                else (True, w1)) in
            if \<not> ok2 then (None, w2)
            else (Some \<lparr>rewards_amount = rewards, treasury_amount = treasury\<rparr>, w2))"

section \<open>The rewards adapter\<close>

datatype rewards_adapter_error = InvalidMultiplier | MultiplicationOverflow | DivisionByZero

definition SUBMIT_REWARDS_GAS_LIMIT :: u64 where "SUBMIT_REWARDS_GAS_LIMIT = 2000000"

definition REWARDS_DESCRIPTION :: string where
  "REWARDS_DESCRIPTION = ''DataHaven validator rewards''"

definition MAX_UINT96 :: nat where "MAX_UINT96 = 2 ^ 96 - 1"

text \<open>The Solidity struct \<open>OperatorDirectedRewardsSubmission\<close>.\<close>

record rewards_submission =
  rs_strategies :: "(H160 \<times> 96 word) list"
  rs_token :: H160
  rs_operator_rewards :: "(H160 \<times> 256 word) list"
  rs_start_timestamp :: nat
  rs_duration :: nat
  rs_description :: string

record 'w rewards_submission_config =
  ra_validate :: "outbound_msg \<Rightarrow> send_error + outbound_msg"
  ra_deliver :: "outbound_msg \<Rightarrow> 'w \<Rightarrow> (send_error + H256) \<times> 'w"
  strategies_and_multipliers :: "(H160 \<times> nat) list"
  rewards_duration :: nat
  whave_token_address :: H160
  ra_service_manager_address :: H160
  rewards_agent_origin :: H256
  handle_remainder :: "nat \<Rightarrow> 'w \<Rightarrow> 'w"
  abi_submit_rewards :: "rewards_submission \<Rightarrow> byte list"

fun points_loop ::
  "nat \<Rightarrow> nat \<Rightarrow> (H160 \<times> nat) list \<Rightarrow> (H160 \<times> nat) list \<Rightarrow> nat \<Rightarrow>
     rewards_adapter_error + (H160 \<times> nat) list \<times> nat" where
  "points_loop total_points inflation [] rewards distributed = Inr (rewards, distributed)"
| "points_loop total_points inflation ((operator, pts) # points) rewards distributed =
     (case checked_mul128 pts inflation of
        None \<Rightarrow> Inl MultiplicationOverflow
      | Some product \<Rightarrow>
          (case checked_div product total_points of
             None \<Rightarrow> Inl DivisionByZero
           | Some amount \<Rightarrow>
               if 0 < amount
               then points_loop total_points inflation points (rewards @ [(operator, amount)])
                      (sat_add128 distributed amount)
               else points_loop total_points inflation points rewards distributed))"

definition points_to_rewards ::
  "(H160 \<times> nat) list \<Rightarrow> nat \<Rightarrow> nat \<Rightarrow> rewards_adapter_error + (H160 \<times> nat) list \<times> nat" where
  "points_to_rewards points total_points inflation =
     (case points_loop total_points inflation points [] 0 of
        Inl e \<Rightarrow> Inl e
      | Inr (rewards, distributed) \<Rightarrow>
          Inr (sort_key fst rewards, sat_sub inflation distributed))"

text \<open>
  The two limbs of the multiplier are its low and high 64 bits; together they are the multiplier
  itself when it is below \<open>2 ^ 96\<close>.
\<close>

definition encode_rewards_calldata ::
  "(rewards_submission \<Rightarrow> byte list) \<Rightarrow> H160 \<Rightarrow> (H160 \<times> nat) list \<Rightarrow> (H160 \<times> nat) list \<Rightarrow> nat \<Rightarrow> nat \<Rightarrow>
     string \<Rightarrow> rewards_adapter_error + byte list" where
  "encode_rewards_calldata abi token strategies operator_rewards start_timestamp duration description =
     (if \<exists>x\<in>set strategies. MAX_UINT96 < snd x then Inl InvalidMultiplier
      else Inr (abi
        \<lparr>rs_strategies = map (\<lambda>(s, mult). (s, word_of_nat mult)) strategies, rs_token = token,
         rs_operator_rewards = map (\<lambda>(op, amount). (op, word_of_nat amount)) operator_rewards,
         rs_start_timestamp = start_timestamp, rs_duration = duration,
         rs_description = description\<rparr>))"

definition from_low_u64_be :: "nat \<Rightarrow> H256" where
  "from_low_u64_be n = word_of_nat n"

definition build_rewards_message ::
  "'w rewards_submission_config \<Rightarrow> era_rewards_utils \<Rightarrow> 'w \<Rightarrow> outbound_msg option \<times> 'w" where
  "build_rewards_message C utils w =
     (let service_manager = ra_service_manager_address C; token = whave_token_address C in
      if service_manager = 0 then (None, w)
      else if token = 0 then (None, w)
      else case points_to_rewards (eu_individual_points utils) (eu_total_points utils)
                  (eu_inflation_amount utils) of
        Inl _ \<Rightarrow> (None, w)
      | Inr (operator_rewards, remainder) \<Rightarrow>
          if operator_rewards = [] then (None, w)
          else let w = (if 0 < remainder then handle_remainder C remainder w else w);
                   strategies = sort_key fst (strategies_and_multipliers C)
               in case encode_rewards_calldata (abi_submit_rewards C) token strategies operator_rewards
                         (eu_era_start_timestamp utils) (rewards_duration C) REWARDS_DESCRIPTION of
                    Inl _ \<Rightarrow> (None, w)
                  | Inr calldata \<Rightarrow>
                      (Some \<lparr>om_origin = rewards_agent_origin C,
                             om_id = from_low_u64_be (eu_era_index utils), om_fee = 0,
                             om_commands = [CallContract service_manager calldata
                                              SUBMIT_REWARDS_GAS_LIMIT 0]\<rparr>, w))"

text \<open>The pallets drop the reason of a failed send.\<close>

definition ok :: "'e + 'a \<Rightarrow> 'a option" where
  "ok r = (case r of Inl _ \<Rightarrow> None | Inr x \<Rightarrow> Some x)"

definition rewards_adapter ::
  "'w rewards_submission_config \<Rightarrow> (era_rewards_utils, outbound_msg, outbound_msg, 'w) send_message" where
  "rewards_adapter C =
     \<lparr>sm_build = build_rewards_message C,
      sm_validate = (\<lambda>message _. ok (ra_validate C message)),
      sm_deliver = (\<lambda>ticket w. case ra_deliver C ticket w of (r, w) \<Rightarrow> (ok r, w))\<rparr>"

section \<open>The slashes adapter\<close>

definition SLASH_VALIDATORS_GAS_LIMIT :: u64 where "SLASH_VALIDATORS_GAS_LIMIT = 1000000"

record slashing_request =
  sr_operator :: H160
  sr_strategies :: "H160 list"
  sr_wads_to_slash :: "256 word list"
  sr_description :: string

record 'w slashes_submission_config =
  sa_validate :: "outbound_msg \<Rightarrow> send_error + outbound_msg"
  sa_deliver :: "outbound_msg \<Rightarrow> 'w \<Rightarrow> (send_error + H256) \<times> 'w"
  sa_service_manager_address :: H160
  slashes_agent_origin :: H256
  sa_strategies :: "H160 list"
  abi_slash_validators :: "slashing_request list \<Rightarrow> byte list"

definition slashing_request_of :: "H160 list \<Rightarrow> slash_data \<Rightarrow> slashing_request" where
  "slashing_request_of strategies d =
     \<lparr>sr_operator = sd_validator d, sr_strategies = strategies,
      sr_wads_to_slash = replicate (length strategies) (word_of_nat (sd_wad_to_slash d)),
      sr_description = sd_description d\<rparr>"

definition encode_slashing_request ::
  "(slashing_request list \<Rightarrow> byte list) \<Rightarrow> slash_data list \<Rightarrow> H160 list \<Rightarrow> byte list" where
  "encode_slashing_request abi slashes strategies = abi (map (slashing_request_of strategies) slashes)"

definition build_slashes_message ::
  "'w slashes_submission_config \<Rightarrow> slash_data list \<times> EraIndex \<Rightarrow> outbound_msg option" where
  "build_slashes_message C d =
     (case d of (slashes, era) \<Rightarrow>
        let calldata = encode_slashing_request (abi_slash_validators C) slashes (sa_strategies C);
            command = CallContract (sa_service_manager_address C) calldata SLASH_VALIDATORS_GAS_LIMIT 0
        in Some \<lparr>om_origin = slashes_agent_origin C, om_id = from_low_u64_be era, om_fee = 0,
                 om_commands = [command]\<rparr>)"

definition slashes_adapter ::
  "'w slashes_submission_config \<Rightarrow> (outbound_msg, outbound_msg, 'w) slashes_sender" where
  "slashes_adapter C =
     \<lparr>sm_build = (\<lambda>d w. (build_slashes_message C d, w)),
      sm_validate = (\<lambda>message _. ok (sa_validate C message)),
      sm_deliver = (\<lambda>ticket w. case sa_deliver C ticket w of (r, w) \<Rightarrow> (ok r, w))\<rparr>"

section \<open>Mainnet configuration\<close>

text \<open>
  The dynamic parameters the two adapters read, the accounts, and the balances pallet's transfer
  (\<^term>\<open>None\<close> is an error).
\<close>

record adapter_params =
  DatahavenServiceManagerAddress :: H160
  WHAVETokenAddress :: H160
  AgentOrigin :: H256
  RewardsStrategiesAndMultipliers :: "(H160 \<times> nat) list"
  RewardsDuration :: nat
  ExternalValidatorRewardsAccount :: AccountId
  TreasuryAccount :: AccountId

record 'x chain =
  ch_balances :: "AccountId \<Rightarrow> nat"
  ch_outbound :: "'x oq_state"

type_synonym 'x transfer = "AccountId \<Rightarrow> AccountId \<Rightarrow> nat \<Rightarrow> 'x chain \<Rightarrow> 'x chain option"

definition mainnet_strategies_and_multipliers :: "adapter_params \<Rightarrow> (H160 \<times> nat) list" where
  "mainnet_strategies_and_multipliers ps =
     filter (\<lambda>(s, _). s \<noteq> 0) (RewardsStrategiesAndMultipliers ps)"

definition mainnet_handle_remainder ::
  "adapter_params \<Rightarrow> 'x transfer \<Rightarrow> nat \<Rightarrow> 'x chain \<Rightarrow> 'x chain" where
  "mainnet_handle_remainder ps transfer remainder w =
     (case transfer (ExternalValidatorRewardsAccount ps) (TreasuryAccount ps) remainder w of
        None \<Rightarrow> w | Some w' \<Rightarrow> w')"

definition chain_deliver ::
  "('p, 'x) oq_config \<Rightarrow> outbound_msg \<Rightarrow> 'x chain \<Rightarrow> (send_error + H256) \<times> 'x chain" where
  "chain_deliver oq ticket w =
     (case oq_deliver oq ticket (ch_outbound w) of (r, q) \<Rightarrow> (r, w\<lparr>ch_outbound := q\<rparr>))"

definition mainnet_rewards_config ::
  "adapter_params \<Rightarrow> ('p, 'x) oq_config \<Rightarrow> 'x transfer \<Rightarrow> (rewards_submission \<Rightarrow> byte list) \<Rightarrow>
     'x chain rewards_submission_config" where
  "mainnet_rewards_config ps oq transfer abi =
     \<lparr>ra_validate = oq_validate oq, ra_deliver = chain_deliver oq,
      strategies_and_multipliers = mainnet_strategies_and_multipliers ps,
      rewards_duration = RewardsDuration ps, whave_token_address = WHAVETokenAddress ps,
      ra_service_manager_address = DatahavenServiceManagerAddress ps,
      rewards_agent_origin = AgentOrigin ps,
      handle_remainder = mainnet_handle_remainder ps transfer, abi_submit_rewards = abi\<rparr>"

definition mainnet_slash_strategies :: "adapter_params \<Rightarrow> H160 list" where
  "mainnet_slash_strategies ps = sort (map fst (RewardsStrategiesAndMultipliers ps))"

definition mainnet_slashes_config ::
  "adapter_params \<Rightarrow> ('p, 'x) oq_config \<Rightarrow> (slashing_request list \<Rightarrow> byte list) \<Rightarrow>
     'x chain slashes_submission_config" where
  "mainnet_slashes_config ps oq abi =
     \<lparr>sa_validate = oq_validate oq, sa_deliver = chain_deliver oq,
      sa_service_manager_address = DatahavenServiceManagerAddress ps,
      slashes_agent_origin = AgentOrigin ps, sa_strategies = mainnet_slash_strategies ps,
      abi_slash_validators = abi\<rparr>"

section \<open>Lemmas\<close>

text \<open>The amount of one operator.\<close>

definition reward_of :: "nat \<Rightarrow> nat \<Rightarrow> H160 \<times> nat \<Rightarrow> H160 \<times> nat" where
  "reward_of tot infl x = (fst x, snd x * infl div tot)"

lemma points_loop_eq:
  assumes "0 < tot" and "\<forall>x\<in>set points. snd x * infl \<le> u128_max" and "d \<le> u128_max"
  shows "points_loop tot infl points rs d =
    Inr (rs @ filter (\<lambda>x. 0 < snd x) (map (reward_of tot infl) points),
         min u128_max (d + sum_list (map (\<lambda>x. snd x * infl div tot) points)))"
  using assms(2,3)
proof (induction points arbitrary: rs d)
  case Nil
  then show ?case by simp
next
  case (Cons x points)
  obtain op pts where x: "x = (op, pts)" by (cases x)
  let ?a = "pts * infl div tot"
  have "points_loop tot infl points r (sat_add128 d ?a) = Inr (r @ filter (\<lambda>x. 0 < snd x)
      (map (reward_of tot infl) points), min u128_max (d + ?a + sum_list (map (\<lambda>x. snd x * infl div tot) points)))" for r
    using Cons.IH [of "sat_add128 d ?a" r] Cons.prems by (auto simp: sat_simps min_def)
  then show ?case
    using Cons.IH [of d rs] Cons.prems assms(1) x
    by (auto simp: sat_simps reward_of_def [of tot infl "(op, pts)"] add.assoc)
qed

lemma sum_mod_bound:
  "xs \<noteq> [] \<Longrightarrow> 0 < (t::nat) \<Longrightarrow> (\<Sum>x\<leftarrow>xs. f x mod t) < length xs * t"
proof (induction xs rule: list_nonempty_induct)
  case (cons x xs)
  have "f x mod t < t" using cons.prems by simp
  with cons show ?case by simp
qed simp

lemma sum_div_mod: "t * (\<Sum>x\<leftarrow>xs. f x div t) + (\<Sum>x\<leftarrow>xs. f x mod t) = (\<Sum>x\<leftarrow>xs. (f x :: nat))"
proof (induction xs)
  case (Cons x xs)
  have "f x = t * (f x div t) + f x mod t" by simp
  with Cons show ?case by (simp add: distrib_left)
qed simp

lemma distributed_bounds:
  fixes points :: "('a \<times> nat) list" and infl tot :: nat
  assumes "0 < tot" and "sum_list (map snd points) = tot"
  defines "D \<equiv> sum_list (map (\<lambda>x. snd x * infl div tot) points)"
  shows "D \<le> infl" and "infl - D < length points"
proof -
  have ne: "points \<noteq> []" using assms by auto
  have "tot * D + (\<Sum>x\<leftarrow>points. snd x * infl mod tot) = tot * infl"
    using sum_div_mod [of tot "\<lambda>x. snd x * infl" points] assms(2)
    by (simp add: D_def sum_list_mult_const)
  then have eq: "(\<Sum>x\<leftarrow>points. snd x * infl mod tot) = tot * infl - tot * D" and le: "tot * D \<le> tot * infl"
    by linarith+
  show "D \<le> infl" using le assms(1) by simp
  have "tot * (infl - D) < length points * tot"
    using sum_mod_bound [OF ne assms(1), of "\<lambda>x. snd x * infl"] eq by (simp add: diff_mult_distrib2)
  then show "infl - D < length points" using assms(1) by (simp add: mult.commute)
qed

lemma sum_filter_pos: "sum_list (map snd (filter (\<lambda>x. 0 < snd x) xs)) = sum_list (map snd (xs :: ('a \<times> nat) list))"
  by (induction xs) auto

lemma points_to_rewards_eq:
  assumes "0 < tot" and "sum_list (map snd points) = tot" and "infl \<le> u128_max"
    and "\<forall>x\<in>set points. snd x * infl \<le> u128_max"
  shows "points_to_rewards points tot infl =
    Inr (sort_key fst (filter (\<lambda>x. 0 < snd x) (map (reward_of tot infl) points)),
         infl - sum_list (map (\<lambda>x. snd x * infl div tot) points))"
proof -
  have "points_loop tot infl points [] 0 =
      Inr (filter (\<lambda>x. 0 < snd x) (map (reward_of tot infl) points),
           min u128_max (sum_list (map (\<lambda>x. snd x * infl div tot) points)))"
    using points_loop_eq [OF assms(1,4), of 0 "[]"] by simp
  moreover have "sum_list (map (\<lambda>x. snd x * infl div tot) points) \<le> u128_max"
    using distributed_bounds(1) [OF assms(1,2), of infl] assms(3) by linarith
  ultimately show ?thesis by (simp add: points_to_rewards_def sat_simps min_absorb2)
qed

lemma length_sort_key: "length (sort_key f xs) = length xs"
  by (metis mset_sort size_mset)

text \<open>
  Documented sizes of the encodings. A call's ABI encoding is a 4-byte selector and 32-byte words:
  a dynamic argument takes an offset word, an array a length word and its elements, a string a
  length word and its bytes padded to whole words. A SCALE encoding contains the call data it
  encodes.
\<close>

definition words_of_string :: "string \<Rightarrow> nat" where
  "words_of_string str = (length str + 31) div 32"

definition abi_rewards_size :: "(rewards_submission \<Rightarrow> byte list) \<Rightarrow> bool" where
  "abi_rewards_size abi \<longleftrightarrow> (\<forall>sub. length (abi sub) = 4 + 32 * (10 + 2 * length (rs_strategies sub) +
     2 * length (rs_operator_rewards sub) + words_of_string (rs_description sub)))"

definition abi_slashes_size :: "(slashing_request list \<Rightarrow> byte list) \<Rightarrow> bool" where
  "abi_slashes_size abi \<longleftrightarrow> (\<forall>rs. length (abi rs) = 4 + 32 * (2 + (\<Sum>r\<leftarrow>rs. 8 +
     length (sr_strategies r) + length (sr_wads_to_slash r) + words_of_string (sr_description r))))"

definition scale_holds_calldata :: "('p, 'w) oq_config \<Rightarrow> bool" where
  "scale_holds_calldata oq \<longleftrightarrow> (\<forall>m target data gas val.
     CallContract target data gas val \<in> set (om_commands m) \<longrightarrow> length data \<le> length (scale_encode oq m))"

lemma oversized_call:
  assumes "scale_holds_calldata oq" and "MaxMessagePayloadSize oq \<le> length data"
    and "om_commands m = [CallContract target data gas val]"
  shows "oq_validate oq m = Inl MessageTooLarge"
proof -
  have "length data \<le> length (scale_encode oq m)"
    using assms(1,3) unfolding scale_holds_calldata_def by fastforce
  with assms(2) show ?thesis by (simp add: oq_validate_def)
qed

lemma sum_list_const_le: "(\<And>x. x \<in> set xs \<Longrightarrow> c \<le> f x) \<Longrightarrow> c * length xs \<le> (\<Sum>x\<leftarrow>xs. (f x :: nat))"
  by (induction xs) force+

section \<open>Sample configuration\<close>

text \<open>Encoders of exactly the documented sizes, without contents.\<close>

definition sample_abi_rewards :: "rewards_submission \<Rightarrow> byte list" where
  "sample_abi_rewards sub = replicate (4 + 32 * (10 + 2 * length (rs_strategies sub) +
     2 * length (rs_operator_rewards sub) + words_of_string (rs_description sub))) 0"

definition sample_abi_slashes :: "slashing_request list \<Rightarrow> byte list" where
  "sample_abi_slashes rs = replicate (4 + 32 * (2 + (\<Sum>r\<leftarrow>rs. 8 +
     length (sr_strategies r) + length (sr_wads_to_slash r) + words_of_string (sr_description r)))) 0"

fun calldata_size :: "command \<Rightarrow> nat" where
  "calldata_size (CallContract _ data _ _) = length data"
| "calldata_size _ = 0"

definition sized_oq :: "(unit, nat store_world) oq_config" where
  "sized_oq = sample_oq\<lparr>scale_encode :=
     (\<lambda>m. replicate (80 + sum_list (map (\<lambda>c. 50 + calldata_size c) (om_commands m))) 0)\<rparr>"

definition sample_params :: adapter_params where
  "sample_params = \<lparr>DatahavenServiceManagerAddress = 1, WHAVETokenAddress = 2, AgentOrigin = 3,
     RewardsStrategiesAndMultipliers = [(5, 1), (4, 2)], RewardsDuration = 86400,
     ExternalValidatorRewardsAccount = 10, TreasuryAccount = 11\<rparr>"

definition sample_transfer :: "'x transfer" where
  "sample_transfer a b n w =
     (if ch_balances w a < n then None
      else Some (w\<lparr>ch_balances := (\<lambda>c. if c = a then ch_balances w a - n
                                     else if c = b then ch_balances w b + n else ch_balances w c)\<rparr>))"

definition sample_chain :: "nat store_world chain" where
  "sample_chain = \<lparr>ch_balances = (\<lambda>_. 100), ch_outbound = oq_genesis sample_world\<rparr>"

definition sample_utils :: "nat \<Rightarrow> era_rewards_utils" where
  "sample_utils n = \<lparr>eu_era_index = 3, eu_era_start_timestamp = 0, eu_total_points = n,
     eu_individual_points = map (\<lambda>i. (word_of_nat i, 1)) [0..<n], eu_inflation_amount = 100\<rparr>"

lemma sample_sizes:
  "abi_rewards_size sample_abi_rewards" "abi_slashes_size sample_abi_slashes"
  "scale_holds_calldata sized_oq"
proof -
  have "length data \<le> sum_list (map (\<lambda>c. 50 + calldata_size c) cs)"
    if "CallContract target data gas val \<in> set cs" for target data gas val cs
    using member_le_sum_list [of "50 + length data" "map (\<lambda>c. 50 + calldata_size c) cs"]
      image_eqI [of _ "\<lambda>c. 50 + calldata_size c", OF _ that] by simp
  then show "scale_holds_calldata sized_oq"
    unfolding scale_holds_calldata_def sized_oq_def by (simp add: trans_le_add2)
qed (simp_all add: abi_rewards_size_def abi_slashes_size_def sample_abi_rewards_def sample_abi_slashes_def)

section \<open>Properties\<close>

text \<open>
  Distribution of an era's rewards: with the total of the points as documented and no
  product above \<open>u128\<close>, \<open>points_to_rewards\<close> succeeds; the operators come sorted by address, each
  with the rounded-down share of its points and only if that is positive, the amounts and the
  remainder add up to exactly the inflation, and the remainder is smaller than the number of
  operators.
\<close>

theorem rewards_fully_distributed:
  assumes "0 < tot" and "sum_list (map snd points) = tot" and "infl \<le> u128_max"
    and "\<forall>x\<in>set points. snd x * infl \<le> u128_max"
  shows "\<exists>rs remainder. points_to_rewards points tot infl = Inr (rs, remainder) \<and> sorted (map fst rs) \<and>
    mset rs = mset (filter (\<lambda>x. 0 < snd x) (map (\<lambda>(op, p). (op, p * infl div tot)) points)) \<and>
    sum_list (map snd rs) + remainder = infl \<and> remainder < length points"
proof -
  let ?rs = "filter (\<lambda>x. 0 < snd x) (map (reward_of tot infl) points)"
  have m: "map (reward_of tot infl) points = map (\<lambda>(op, p). (op, p * infl div tot)) points"
    by (simp add: reward_of_def case_prod_unfold)
  have "sum_list (map snd (sort_key fst ?rs)) = sum_list (map snd ?rs)"
    by (simp flip: sum_mset_sum_list)
  also have "\<dots> = sum_list (map (\<lambda>x. snd x * infl div tot) points)"
    unfolding sum_filter_pos by (simp add: reward_of_def comp_def)
  finally have "sum_list (map snd (sort_key fst ?rs)) = sum_list (map (\<lambda>x. snd x * infl div tot) points)" .
  then show ?thesis
    using points_to_rewards_eq [OF assms] distributed_bounds [OF assms(1,2), of infl]
    by (simp add: m)
qed

theorem rewards_fully_distributed_witness:
  "\<exists>rs remainder. points_to_rewards [(7, 1), (2, 2), (9, 0)] 3 100 = Inr (rs, remainder) \<and>
    sorted (map fst rs) \<and> mset rs = mset [(7, 33), (2, 66)] \<and> sum_list (map snd rs) + remainder = 100"
  using rewards_fully_distributed [of 3 "[(7, 1), (2, 2), (9, 0)]" 100]
  by (fastforce simp: u128_max_def)

text \<open>
  Rewards of an era with 27 or more rewarded operators are never sent: with the documented
  encoding sizes the message exceeds the queue's payload limit of 2048 bytes, so every attempt
  fails, while each attempt again moves the remainder from the rewards account to the treasury.
\<close>

theorem many_operators_never_rewarded:
  fixes transfer :: "'x transfer" and oq :: "('p, 'x) oq_config"
  assumes "abi_rewards_size abi" and "scale_holds_calldata oq" and "MaxMessagePayloadSize oq = 2048"
    and "DatahavenServiceManagerAddress ps \<noteq> 0" and "WHAVETokenAddress ps \<noteq> 0"
    and "\<forall>x\<in>set (RewardsStrategiesAndMultipliers ps). snd x \<le> MAX_UINT96"
    and points: "points_to_rewards (eu_individual_points utils) (eu_total_points utils)
      (eu_inflation_amount utils) = Inr (rs, remainder)" and "27 \<le> length rs"
  shows "send_via (rewards_adapter (mainnet_rewards_config ps oq transfer abi)) utils w =
    (None, if 0 < remainder then mainnet_handle_remainder ps transfer remainder w else w)"
proof -
  define C where "C = mainnet_rewards_config ps oq transfer abi"
  let ?w = "if 0 < remainder then mainnet_handle_remainder ps transfer remainder w else w"
  have fits: "\<not> (\<exists>x\<in>set (sort_key fst (strategies_and_multipliers C)). MAX_UINT96 < snd x)"
    using assms(6) by (auto simp: C_def mainnet_rewards_config_def mainnet_strategies_and_multipliers_def)
  have ne: "rs \<noteq> []" using assms(8) by auto
  define sub where "sub = \<lparr>rs_strategies = map (\<lambda>(s, mult). (s, word_of_nat mult))
       (sort_key fst (strategies_and_multipliers C)), rs_token = WHAVETokenAddress ps,
     rs_operator_rewards = map (\<lambda>(op, amount). (op, word_of_nat amount)) rs,
     rs_start_timestamp = eu_era_start_timestamp utils, rs_duration = rewards_duration C,
     rs_description = REWARDS_DESCRIPTION\<rparr>"
  define m where "m = \<lparr>om_origin = rewards_agent_origin C, om_id = from_low_u64_be (eu_era_index utils),
     om_fee = 0, om_commands = [CallContract (DatahavenServiceManagerAddress ps) (abi sub) SUBMIT_REWARDS_GAS_LIMIT 0]\<rparr>"
  have addr: "ra_service_manager_address C = DatahavenServiceManagerAddress ps"
      "whave_token_address C = WHAVETokenAddress ps" "abi_submit_rewards C = abi"
      "handle_remainder C = mainnet_handle_remainder ps transfer"
    by (simp_all add: C_def mainnet_rewards_config_def)
  have build: "build_rewards_message C utils w = (Some m, ?w)"
    using assms(4,5) points fits ne
    by (simp add: build_rewards_message_def encode_rewards_calldata_def Let_def addr m_def sub_def)
  have "2048 \<le> length (abi sub)"
    using assms(1,8) unfolding abi_rewards_size_def by (simp add: sub_def)
  then have "oq_validate oq m = Inl MessageTooLarge"
    using assms(2,3) by (intro oversized_call) (simp_all add: m_def)
  then show ?thesis
    using build by (simp add: send_via_def rewards_adapter_def C_def mainnet_rewards_config_def ok_def)
qed

theorem many_operators_never_rewarded_witness:
  "send_via (rewards_adapter (mainnet_rewards_config sample_params sized_oq sample_transfer sample_abi_rewards))
     (sample_utils 30) sample_chain =
   (None, mainnet_handle_remainder sample_params sample_transfer 10 sample_chain)"
proof -
  let ?ps = "map (\<lambda>i. (word_of_nat i :: H160, 1 :: nat)) [0..<30]"
  have eq: "points_to_rewards ?ps 30 100 = Inr (sort_key fst (map (reward_of 30 100) ?ps), 10)"
    using points_to_rewards_eq [of 30 ?ps 100]
    by (simp add: u128_max_def comp_def sum_list_triv reward_of_def)
  have "send_via (rewards_adapter (mainnet_rewards_config sample_params sized_oq sample_transfer sample_abi_rewards))
     (sample_utils 30) sample_chain = (None, if 0 < (10::nat) then mainnet_handle_remainder sample_params
       sample_transfer 10 sample_chain else sample_chain)"
    by (rule many_operators_never_rewarded [OF sample_sizes(1,3),
          where rs = "sort_key fst (map (reward_of 30 100) ?ps)" and remainder = 10])
      (use eq in \<open>simp_all add: length_sort_key sample_params_def sized_oq_def sample_oq_def
         sample_utils_def MAX_UINT96_def\<close>)
  then show ?thesis by simp
qed

text \<open>
  A batch of eight or more slashes is never sent: with the documented encoding sizes its
  message exceeds the queue's payload limit of 2048 bytes, although a batch may hold ten.
\<close>

theorem large_slash_batch_never_sent:
  fixes oq :: "('p, 'x) oq_config"
  assumes "abi_slashes_size abi" and "scale_holds_calldata oq" and "MaxMessagePayloadSize oq = 2048"
    and "8 \<le> length slashes"
  shows "send_slashes_message (slashes_adapter (mainnet_slashes_config ps oq abi)) slashes era w = (None, w)"
proof -
  let ?rs = "map (slashing_request_of (mainnet_slash_strategies ps)) slashes"
  have "8 * length ?rs \<le> (\<Sum>r\<leftarrow>?rs. 8 + length (sr_strategies r) + length (sr_wads_to_slash r) +
      words_of_string (sr_description r))"
    by (rule sum_list_const_le) simp
  then have "2048 \<le> length (abi ?rs)"
    using assms(1,4) unfolding abi_slashes_size_def by simp
  then have "oq_validate oq (the (build_slashes_message (mainnet_slashes_config ps oq abi) (slashes, era))) =
      Inl MessageTooLarge"
    using assms(2,3)
    by (intro oversized_call) (auto simp: build_slashes_message_def encode_slashing_request_def
        mainnet_slashes_config_def Let_def)
  then show ?thesis
    by (simp add: send_slashes_message_def send_via_def slashes_adapter_def build_slashes_message_def
        Let_def ok_def mainnet_slashes_config_def)
qed

theorem large_slash_batch_never_sent_witness:
  "QueuedSlashesProcessedPerBlock (mainnet_sl_config (\<lambda>str. str) unat) = 10 \<and>
   send_slashes_message (slashes_adapter (mainnet_slashes_config sample_params sized_oq sample_abi_slashes))
     (replicate 10 \<lparr>sd_validator = 1, sd_wad_to_slash = 5, sd_description = ''x''\<rparr>) 3 sample_chain
   = (None, sample_chain)"
  using large_slash_batch_never_sent [OF sample_sizes(2,3), of "replicate 10
      \<lparr>sd_validator = 1, sd_wad_to_slash = 5, sd_description = ''x''\<rparr>" sample_params 3 sample_chain]
  by (simp add: sized_oq_def sample_oq_def mainnet_sl_config_def)

text \<open>
  The rewards message and every slashes message of an era carry the same origin and id.
\<close>

theorem era_messages_share_id:
  assumes "build_rewards_message (mainnet_rewards_config ps oq transfer abi) utils w = (Some m, w')"
    and "build_slashes_message (mainnet_slashes_config ps oq abi') (slashes, eu_era_index utils) = Some m'"
  shows "om_id m = om_id m' \<and> om_origin m = om_origin m'"
  using assms
  by (auto simp: build_rewards_message_def build_slashes_message_def mainnet_rewards_config_def
      mainnet_slashes_config_def Let_def split: if_splits sum.splits)

text \<open>
  Linear inflation: over the eras of a year the per-era amounts add up to the annual amount
  except for a rounding loss of less than one unit per era.
\<close>

theorem yearly_inflation:
  assumes "sessions * blocks \<le> u128_max" and "sessions * blocks * millis \<le> u128_max"
    and "0 < sessions * blocks * millis" and "sessions * blocks * millis \<le> MILLISECONDS_PER_YEAR"
  shows "let n = eras_per_year (sessions * blocks * millis) in
    era_inflation annual sessions blocks millis * n \<le> annual \<and>
    annual < (era_inflation annual sessions blocks millis + 1) * n"
proof -
  define n where "n = eras_per_year (sessions * blocks * millis)"
  have "0 < n" using assms by (simp add: n_def eras_per_year_def div_greater_zero_iff)
  moreover have "era_inflation annual sessions blocks millis = annual div n"
    using assms \<open>0 < n\<close> by (auto simp: era_inflation_def sat_simps n_def Let_def min_absorb1)
  ultimately show ?thesis
    unfolding Let_def n_def [symmetric] using dividend_less_div_times [of n annual] by simp
qed

theorem yearly_inflation_witness:
  "eras_per_year (6 * 600 * 6000) = 1461 \<and>
   era_inflation 500000000 6 600 6000 * 1461 \<le> 500000000 \<and>
   500000000 < (era_inflation 500000000 6 600 6000 + 1) * 1461"
  using yearly_inflation [of 6 600 6000 500000000]
  by (simp add: u128_max_def MILLISECONDS_PER_YEAR_def eras_per_year_def)

text \<open>
  Minting an era's inflation: on success the treasury receives the rounded-down proportion and
  the rewards account the rest, nothing is lost; and when only the treasury's mint fails, the
  handler reports an error although the rewards have been minted.
\<close>

theorem inflation_split:
  assumes "perbill_laws (ic_perbill cfg)"
    and "0 < TreasuryProportion cfg * amount div ACCURACY" and "TreasuryProportion cfg * amount div ACCURACY < amount"
    and "mint_into cfg acct (amount - TreasuryProportion cfg * amount div ACCURACY) w = (True, w1)"
  shows "let treasury = TreasuryProportion cfg * amount div ACCURACY in
    handler_mint_inflation cfg acct amount w =
    (case mint_into cfg (ic_TreasuryAccount cfg) treasury w1 of
       (True, w2) \<Rightarrow> (Some \<lparr>rewards_amount = amount - treasury, treasury_amount = treasury\<rparr>, w2)
     | (False, w2) \<Rightarrow> (None, w2))"
  using assms
  by (auto simp: handler_mint_inflation_def perbill_lawsD(1) sat_simps Let_def split: prod.split bool.split)

text \<open>A balances state whose treasury cannot be minted to.\<close>

definition sample_inflation :: "bool \<Rightarrow> (AccountId \<Rightarrow> nat) inflation_config" where
  "sample_inflation treasury_ok = \<lparr>ic_perbill = perbill_std, TreasuryProportion = 200000000, ic_TreasuryAccount = 11,
     mint_into = (\<lambda>a n b. if a = 11 \<and> \<not> treasury_ok then (False, b) else (True, b(a := b a + n)))\<rparr>"

theorem inflation_split_witness:
  "handler_mint_inflation (sample_inflation True) 10 1000 (\<lambda>_. 0) =
     (Some \<lparr>rewards_amount = 800, treasury_amount = 200\<rparr>, (\<lambda>_. 0)(10 := 800, 11 := 200)) \<and>
   handler_mint_inflation (sample_inflation False) 10 1000 (\<lambda>_. 0) = (None, (\<lambda>_. 0)(10 := 800))"
  using inflation_split [of "sample_inflation True" 1000 10 "\<lambda>_. 0" "(\<lambda>_. 0)(10 := 800)"]
    inflation_split [of "sample_inflation False" 1000 10 "\<lambda>_. 0" "(\<lambda>_. 0)(10 := 800)"]
  by (simp add: sample_inflation_def perbill_std_laws ACCURACY_def)

end
