(* ===== verification/Beacon_Types.thy ===== *)
theory Beacon_Types
  imports Bridge_Types Merkle_Tree
begin

text \<open>
  The data of the Ethereum beacon client: forks, headers, committees, execution payloads and
  updates (\<open>primitives/snowbridge/beacon/src\<close>: \<open>types.rs\<close>, \<open>updates.rs\<close>), their conversion to
  SSZ containers (\<open>ssz.rs\<close>, \<open>bits.rs\<close>), aggregate signatures (\<open>bls.rs\<close>), and receipt proofs over
  Merkle-Patricia nodes (\<open>receipt.rs\<close>, \<open>primitives/snowbridge/ethereum/src\<close>: \<open>mpt.rs\<close>,
  \<open>receipt.rs\<close>, \<open>log.rs\<close>).

  SSZ hashing, the curve operations and the RLP reader are third-party: they are the records
  \<open>ssz\<close>, \<open>bls\<close> and \<open>rlp\<close> of functions. Slots and indices are natural numbers. A fixed-size byte
  array is a byte list.

  The lemmas show what an accepted receipt proof consists of: a chain of nodes, each containing
  the hash of the next one, from the receipts root down to the node that holds the receipt.
\<close>

unbundle bit_operations_syntax

section \<open>Forks, headers and committees\<close>

record fork =
  fork_version :: "byte list"
  fork_epoch :: nat

record fork_versions =
  fv_genesis :: fork
  fv_altair :: fork
  fv_bellatrix :: fork
  fv_capella :: fork
  fv_deneb :: fork
  fv_electra :: fork
  fv_fulu :: fork

record fork_data =
  fd_current_version :: "byte list"
  fd_genesis_validators_root :: "byte list"

record signing_data =
  sd_object_root :: H256
  sd_domain :: H256

record beacon_header =
  slot :: nat
  proposer_index :: nat
  parent_root :: H256
  state_root :: H256
  body_root :: H256

record sync_committee =
  sc_pubkeys :: "byte list list"
  sc_aggregate_pubkey :: "byte list"

record 'k sync_committee_prepared =
  scp_root :: H256
  scp_pubkeys :: "'k list"
  scp_aggregate_pubkey :: 'k

record sync_aggregate =
  sync_committee_bits :: "byte list"
  sync_committee_signature :: "byte list"

record compact_beacon_state =
  cbs_slot :: nat
  cbs_block_roots_root :: H256

section \<open>Execution payloads\<close>

record execution_payload_header =
  eph_parent_hash :: H256
  eph_fee_recipient :: H160
  eph_state_root :: H256
  eph_receipts_root :: H256
  eph_logs_bloom :: "byte list"
  eph_prev_randao :: H256
  eph_block_number :: u64
  eph_gas_limit :: u64
  eph_gas_used :: u64
  eph_timestamp :: u64
  eph_extra_data :: "byte list"
  eph_base_fee_per_gas :: "256 word"
  eph_block_hash :: H256
  eph_transactions_root :: H256
  eph_withdrawals_root :: H256

record deneb_execution_payload_header = execution_payload_header +
  eph_blob_gas_used :: u64
  eph_excess_blob_gas :: u64

datatype versioned_execution_payload_header =
    Capella execution_payload_header
  | Deneb deneb_execution_payload_header

fun receipts_root :: "versioned_execution_payload_header \<Rightarrow> H256" where
  "receipts_root (Capella h) = eph_receipts_root h"
| "receipts_root (Deneb h) = eph_receipts_root h"

fun vep_block_hash :: "versioned_execution_payload_header \<Rightarrow> H256" where
  "vep_block_hash (Capella h) = eph_block_hash h"
| "vep_block_hash (Deneb h) = eph_block_hash h"

fun vep_block_number :: "versioned_execution_payload_header \<Rightarrow> u64" where
  "vep_block_number (Capella h) = eph_block_number h"
| "vep_block_number (Deneb h) = eph_block_number h"

section \<open>Updates and proofs\<close>

record checkpoint_update =
  cu_header :: beacon_header
  cu_current_sync_committee :: sync_committee
  cu_current_sync_committee_branch :: "H256 list"
  cu_validators_root :: H256
  cu_block_roots_root :: H256
  cu_block_roots_branch :: "H256 list"

record next_sync_committee_update =
  next_sync_committee :: sync_committee
  next_sync_committee_branch :: "H256 list"

record update =
  attested_header :: beacon_header
  u_sync_aggregate :: sync_aggregate
  signature_slot :: nat
  u_next_sync_committee_update :: "next_sync_committee_update option"
  finalized_header :: beacon_header
  finality_branch :: "H256 list"
  block_roots_root :: H256
  block_roots_branch :: "H256 list"

record ancestry_proof =
  header_branch :: "H256 list"
  finalized_block_root :: H256

record execution_proof =
  xp_header :: beacon_header
  xp_ancestry_proof :: "ancestry_proof option"
  xp_execution_header :: versioned_execution_payload_header
  xp_execution_branch :: "H256 list"

record inclusion_proof =
  receipt_proof :: "byte list list \<times> byte list list"
  ip_execution_proof :: execution_proof

section \<open>SSZ containers\<close>

record ssz_payload_header =
  sph_parent_hash :: "byte list"
  sph_fee_recipient :: "byte list"
  sph_state_root :: "byte list"
  sph_receipts_root :: "byte list"
  sph_logs_bloom :: "byte list"
  sph_prev_randao :: "byte list"
  sph_block_number :: u64
  sph_gas_limit :: u64
  sph_gas_used :: u64
  sph_timestamp :: u64
  sph_extra_data :: "byte list"
  sph_base_fee_per_gas :: "256 word"
  sph_block_hash :: "byte list"
  sph_transactions_root :: "byte list"
  sph_withdrawals_root :: "byte list"

datatype ssz_object =
    SSZBeaconBlockHeader nat nat "byte list" "byte list" "byte list"
  | SSZSyncCommittee "byte list list" "byte list"
  | SSZForkData "byte list" "byte list"
  | SSZSigningData "byte list" "byte list"
  | SSZExecutionPayloadHeader ssz_payload_header
  | SSZDenebExecutionPayloadHeader ssz_payload_header u64 u64

text \<open>
  \<open>ssz_rs\<close>: the root of a container, the size-checked vector and list types (\<^term>\<open>None\<close> is the
  serialization error), and the bits of a deserialized bit vector.
\<close>

record ssz =
  hash_tree_root :: "ssz_object \<Rightarrow> H256 option"
  vector_try_from :: "nat \<Rightarrow> byte list \<Rightarrow> byte list option"
  list_try_from :: "nat \<Rightarrow> byte list \<Rightarrow> byte list option"
  bitvector_iter :: "byte list \<Rightarrow> bool list"

definition FEE_RECIPIENT_SIZE :: nat where "FEE_RECIPIENT_SIZE = 20"
definition EXTRA_DATA_SIZE :: nat where "EXTRA_DATA_SIZE = 32"
definition LOGS_BLOOM_SIZE :: nat where "LOGS_BLOOM_SIZE = 256"

definition header_root :: "ssz \<Rightarrow> beacon_header \<Rightarrow> H256 option" where
  "header_root z h = hash_tree_root z
     (SSZBeaconBlockHeader (slot h) (proposer_index h) (be_bytes (parent_root h))
        (be_bytes (state_root h)) (be_bytes (body_root h)))"

definition committee_root :: "ssz \<Rightarrow> sync_committee \<Rightarrow> H256 option" where
  "committee_root z sc = hash_tree_root z (SSZSyncCommittee (sc_pubkeys sc) (sc_aggregate_pubkey sc))"

definition fork_data_root :: "ssz \<Rightarrow> fork_data \<Rightarrow> H256 option" where
  "fork_data_root z fd = hash_tree_root z (SSZForkData (fd_current_version fd) (fd_genesis_validators_root fd))"

definition signing_data_root :: "ssz \<Rightarrow> signing_data \<Rightarrow> H256 option" where
  "signing_data_root z sd = hash_tree_root z (SSZSigningData (be_bytes (sd_object_root sd)) (be_bytes (sd_domain sd)))"

text \<open>The fields that the two versions share are converted alike; two of them are checked for their size.\<close>

definition ssz_payload :: "ssz \<Rightarrow> 'a execution_payload_header_scheme \<Rightarrow> ssz_payload_header option" where
  "ssz_payload z h =
     (case vector_try_from z LOGS_BLOOM_SIZE (eph_logs_bloom h) of
        None \<Rightarrow> None
      | Some bloom \<Rightarrow>
          (case list_try_from z EXTRA_DATA_SIZE (eph_extra_data h) of
             None \<Rightarrow> None
           | Some extra \<Rightarrow> Some
               \<lparr>sph_parent_hash = be_bytes (eph_parent_hash h),
                sph_fee_recipient = h160_bytes (eph_fee_recipient h),
                sph_state_root = be_bytes (eph_state_root h),
                sph_receipts_root = be_bytes (eph_receipts_root h),
                sph_logs_bloom = bloom,
                sph_prev_randao = be_bytes (eph_prev_randao h),
                sph_block_number = eph_block_number h,
                sph_gas_limit = eph_gas_limit h,
                sph_gas_used = eph_gas_used h,
                sph_timestamp = eph_timestamp h,
                sph_extra_data = extra,
                sph_base_fee_per_gas = eph_base_fee_per_gas h,
                sph_block_hash = be_bytes (eph_block_hash h),
                sph_transactions_root = be_bytes (eph_transactions_root h),
                sph_withdrawals_root = be_bytes (eph_withdrawals_root h)\<rparr>))"

fun payload_root :: "ssz \<Rightarrow> versioned_execution_payload_header \<Rightarrow> H256 option" where
  "payload_root z (Capella h) =
     (case ssz_payload z h of None \<Rightarrow> None | Some p \<Rightarrow> hash_tree_root z (SSZExecutionPayloadHeader p))"
| "payload_root z (Deneb h) =
     (case ssz_payload z h of
        None \<Rightarrow> None
      | Some p \<Rightarrow> hash_tree_root z
          (SSZDenebExecutionPayloadHeader p (eph_blob_gas_used h) (eph_excess_blob_gas h)))"

definition decompress_sync_committee_bits :: "ssz \<Rightarrow> byte list \<Rightarrow> nat list" where
  "decompress_sync_committee_bits z input = map (\<lambda>bit. of_bool (bit = True)) (bitvector_iter z input)"

section \<open>Aggregate signatures\<close>

datatype bls_error =
  InvalidSignature | InvalidPublicKey | InvalidAggregatePublicKeys | SignatureVerificationFailed

text \<open>\<open>milagro_bls\<close>: \<open>'k\<close> is a public key, \<open>'a\<close> an aggregate key and \<open>'s\<close> an aggregate signature.\<close>

record ('k, 'a, 's) bls =
  key_from_bytes_unchecked :: "byte list \<Rightarrow> 'k option"
  default_key :: 'k
  aggregate_signature_from_bytes :: "byte list \<Rightarrow> 's option"
  into_aggregate :: "'k list \<Rightarrow> 'a option"
  from_public_key :: "'k \<Rightarrow> 'a"
  point_sub :: "'a \<Rightarrow> 'a \<Rightarrow> 'a"
  verify_pre_aggregated :: "'s \<Rightarrow> byte list \<Rightarrow> 'a \<Rightarrow> bool"

definition prepare_milagro_pubkey :: "('k, 'a, 's) bls \<Rightarrow> byte list \<Rightarrow> bls_error + 'k" where
  "prepare_milagro_pubkey B pubkey =
     (case key_from_bytes_unchecked B pubkey of None \<Rightarrow> Inl InvalidPublicKey | Some k \<Rightarrow> Inr k)"

fun prepare_g1_pubkeys :: "('k, 'a, 's) bls \<Rightarrow> byte list list \<Rightarrow> bls_error + 'k list" where
  "prepare_g1_pubkeys B [] = Inr []"
| "prepare_g1_pubkeys B (p # ps) =
     (case prepare_milagro_pubkey B p of
        Inl e \<Rightarrow> Inl e
      | Inr k \<Rightarrow> (case prepare_g1_pubkeys B ps of Inl e \<Rightarrow> Inl e | Inr ks \<Rightarrow> Inr (k # ks)))"

definition prepare_aggregate_pubkey :: "('k, 'a, 's) bls \<Rightarrow> 'k list \<Rightarrow> bls_error + 'a" where
  "prepare_aggregate_pubkey B pubkeys =
     (case into_aggregate B pubkeys of None \<Rightarrow> Inl InvalidPublicKey | Some a \<Rightarrow> Inr a)"

definition prepare_aggregate_pubkey_from_absent :: "('k, 'a, 's) bls \<Rightarrow> 'k \<Rightarrow> 'k list \<Rightarrow> bls_error + 'a" where
  "prepare_aggregate_pubkey_from_absent B aggregate_key absent_pubkeys =
     (let aggregate_pubkey = from_public_key B aggregate_key in
      if absent_pubkeys \<noteq> []
      then case prepare_aggregate_pubkey B absent_pubkeys of
             Inl e \<Rightarrow> Inl e
           | Inr absent_aggregate_key \<Rightarrow> Inr (point_sub B aggregate_pubkey absent_aggregate_key)
      else Inr aggregate_pubkey)"

definition prepare_aggregate_signature :: "('k, 'a, 's) bls \<Rightarrow> byte list \<Rightarrow> bls_error + 's" where
  "prepare_aggregate_signature B signature =
     (case aggregate_signature_from_bytes B signature of None \<Rightarrow> Inl InvalidSignature | Some s \<Rightarrow> Inr s)"

definition fast_aggregate_verify_pre_aggregated :: "('k, 'a, 's) bls \<Rightarrow> 's \<Rightarrow> 'a \<Rightarrow> H256 \<Rightarrow> bls_error + unit" where
  "fast_aggregate_verify_pre_aggregated B agg_sig aggregate_key message =
     (if verify_pre_aggregated B agg_sig (be_bytes message) aggregate_key then Inr ()
      else Inl SignatureVerificationFailed)"

definition fast_aggregate_verify ::
  "('k, 'a, 's) bls \<Rightarrow> 'k \<Rightarrow> 'k list \<Rightarrow> H256 \<Rightarrow> byte list \<Rightarrow> bls_error + unit" where
  "fast_aggregate_verify B aggregate_pubkey absent_pubkeys message signature =
     (case prepare_aggregate_signature B signature of
        Inl e \<Rightarrow> Inl e
      | Inr agg_sig \<Rightarrow>
          (case prepare_aggregate_pubkey_from_absent B aggregate_pubkey absent_pubkeys of
             Inl e \<Rightarrow> Inl e
           | Inr agg_key \<Rightarrow> fast_aggregate_verify_pre_aggregated B agg_sig agg_key message))"

text \<open>
  The prepared committee. Every caller has hashed the committee before, so that \<open>expect\<close> on its
  root does not panic.
\<close>

definition sync_committee_prepared_try_from ::
  "ssz \<Rightarrow> ('k, 'a, 's) bls \<Rightarrow> sync_committee \<Rightarrow> bls_error + 'k sync_committee_prepared" where
  "sync_committee_prepared_try_from z B sc =
     (case prepare_g1_pubkeys B (sc_pubkeys sc) of
        Inl e \<Rightarrow> Inl e
      | Inr g1_pubkeys \<Rightarrow>
          (let sync_committee_root = the (committee_root z sc) in
           case prepare_milagro_pubkey B (sc_aggregate_pubkey sc) of
             Inl e \<Rightarrow> Inl e
           | Inr k \<Rightarrow> Inr \<lparr>scp_root = sync_committee_root, scp_pubkeys = g1_pubkeys, scp_aggregate_pubkey = k\<rparr>))"

definition sync_committee_prepared_default :: "('k, 'a, 's) bls \<Rightarrow> nat \<Rightarrow> 'k sync_committee_prepared" where
  "sync_committee_prepared_default B committee_size =
     \<lparr>scp_root = 0, scp_pubkeys = replicate committee_size (default_key B), scp_aggregate_pubkey = default_key B\<rparr>"

section \<open>Receipt proofs\<close>

text \<open>
  \<open>rlp\<close>: a reader over raw bytes. Values and lists are decoded by type; \<^term>\<open>None\<close> is a decoder
  error, except that the iteration over something that is no list is empty.
\<close>

record rlp =
  item_count :: "byte list \<Rightarrow> nat option"
  rlp_iter :: "byte list \<Rightarrow> byte list list"
  is_data :: "byte list \<Rightarrow> bool"
  is_list :: "byte list \<Rightarrow> bool"
  rlp_data :: "byte list \<Rightarrow> byte list option"
  val_bytes :: "byte list \<Rightarrow> byte list option"
  val_u64 :: "byte list \<Rightarrow> u64 option"
  val_bloom :: "byte list \<Rightarrow> byte list option"
  val_h160 :: "byte list \<Rightarrow> H160 option"
  list_h256 :: "byte list \<Rightarrow> H256 list option"
  list_logs :: "(byte list \<Rightarrow> event_log option) \<Rightarrow> byte list \<Rightarrow> event_log list option"

record receipt =
  post_state_or_status :: "byte list"
  cumulative_gas_used :: u64
  r_bloom :: "byte list"
  r_logs :: "event_log list"

definition contains_log :: "receipt \<Rightarrow> event_log \<Rightarrow> bool" where
  "contains_log r l = list_ex (\<lambda>l'. l' = l) (r_logs r)"

definition log_decode :: "rlp \<Rightarrow> byte list \<Rightarrow> event_log option" where
  "log_decode R bytes =
     (case rlp_iter R bytes of
        a # t # d # _ \<Rightarrow>
          do { address \<leftarrow> val_h160 R a; topics \<leftarrow> list_h256 R t; data \<leftarrow> rlp_data R d;
               Some \<lparr>log_address = address, log_topics = topics, log_data = data\<rparr> }
      | _ \<Rightarrow> None)"

definition receipt_decode_list :: "rlp \<Rightarrow> byte list \<Rightarrow> receipt option" where
  "receipt_decode_list R bytes =
     (case rlp_iter R bytes of
        p # g # b # l # _ \<Rightarrow>
          do { status \<leftarrow> val_bytes R p; gas \<leftarrow> val_u64 R g; bloom \<leftarrow> val_bloom R b;
               logs \<leftarrow> list_logs R (log_decode R) l;
               Some \<lparr>post_state_or_status = status, cumulative_gas_used = gas, r_bloom = bloom, r_logs = logs\<rparr> }
      | _ \<Rightarrow> None)"

definition receipt_decode :: "rlp \<Rightarrow> byte list \<Rightarrow> receipt option" where
  "receipt_decode R bytes =
     (if is_data R bytes
      then case bytes of
             t # payload \<Rightarrow>
               if t = 1 \<or> t = 2
               then if is_list R payload then receipt_decode_list R payload else None
               else None
           | [] \<Rightarrow> None
      else if is_list R bytes then receipt_decode_list R bytes
      else None)"

datatype mpt_node = FullNode "H256 option list" | ShortNode "byte list" "byte list"

definition h256_of_bytes :: "byte list \<Rightarrow> H256" where
  "h256_of_bytes bs = foldl (\<lambda>a b. push_bit 8 a OR ucast b) 0 bs"

fun full_node_children :: "rlp \<Rightarrow> byte list list \<Rightarrow> H256 option list option" where
  "full_node_children R [] = Some []"
| "full_node_children R (item # items) =
     do { v \<leftarrow> val_bytes R item;
          c \<leftarrow> (if length v = 0 then Some None
                else if length v = 32 then Some (Some (h256_of_bytes v))
                else None);
          cs \<leftarrow> full_node_children R items;
          Some (c # cs) }"

definition full_node_decode :: "rlp \<Rightarrow> byte list \<Rightarrow> mpt_node option" where
  "full_node_decode R bytes = map_option FullNode (full_node_children R (rlp_iter R bytes))"

definition short_node_decode :: "rlp \<Rightarrow> byte list \<Rightarrow> (byte list \<times> byte list) option" where
  "short_node_decode R bytes =
     (case rlp_iter R bytes of
        k # v # _ \<Rightarrow> do { key \<leftarrow> val_bytes R k; val \<leftarrow> val_bytes R v; Some (key, val) }
      | _ \<Rightarrow> None)"

definition node_try_from :: "rlp \<Rightarrow> byte list \<Rightarrow> mpt_node option" where
  "node_try_from R bytes =
     (case item_count R bytes of
        None \<Rightarrow> None
      | Some n \<Rightarrow>
          if n = 2 then map_option (\<lambda>(k, v). ShortNode k v) (short_node_decode R bytes)
          else if n = 17 then full_node_decode R bytes
          else None)"

fun contains_hash :: "mpt_node \<Rightarrow> H256 \<Rightarrow> bool" where
  "contains_hash (FullNode children) h = list_ex (\<lambda>c. Some h = c) children"
| "contains_hash (ShortNode _ v) h = (v = be_bytes h)"

fun merkle_proof_fold :: "rlp \<Rightarrow> hasher \<Rightarrow> H256 \<Rightarrow> byte list list \<Rightarrow> H256 option" where
  "merkle_proof_fold R keccak acc [] = Some acc"
| "merkle_proof_fold R keccak acc (x # xs) =
     (case node_try_from R x of
        None \<Rightarrow> None
      | Some node \<Rightarrow> if contains_hash node acc then merkle_proof_fold R keccak (keccak x) xs else None)"

definition apply_merkle_proof :: "rlp \<Rightarrow> hasher \<Rightarrow> byte list list \<Rightarrow> (H256 \<times> byte list) option" where
  "apply_merkle_proof R keccak nodes =
     (case rev nodes of
        [] \<Rightarrow> None
      | first_bytes # rest \<Rightarrow>
          do { (_, val) \<leftarrow> short_node_decode R first_bytes;
               final_hash \<leftarrow> merkle_proof_fold R keccak (keccak first_bytes) rest;
               Some (final_hash, val) })"

definition verify_receipt_proof :: "rlp \<Rightarrow> hasher \<Rightarrow> H256 \<Rightarrow> byte list list \<Rightarrow> receipt option option" where
  "verify_receipt_proof R keccak root nodes =
     (case apply_merkle_proof R keccak nodes of
        Some (root', data) \<Rightarrow> if root' = root then Some (receipt_decode R data) else None
      | None \<Rightarrow> None)"

section \<open>Lemmas\<close>

text \<open>A path: every node contains the hash of the next one, and the last one holds \<open>val\<close>.\<close>

fun trie_path :: "rlp \<Rightarrow> hasher \<Rightarrow> byte list list \<Rightarrow> byte list \<Rightarrow> bool" where
  "trie_path R keccak [] val = False"
| "trie_path R keccak [x] val = (\<exists>key. short_node_decode R x = Some (key, val))"
| "trie_path R keccak (x # y # ys) val =
     ((\<exists>node. node_try_from R x = Some node \<and> contains_hash node (keccak y)) \<and> trie_path R keccak (y # ys) val)"

lemma merkle_proof_fold_path:
  "merkle_proof_fold R keccak (keccak y) xs = Some root \<Longrightarrow> trie_path R keccak (y # ys) val \<Longrightarrow>
   trie_path R keccak (rev xs @ y # ys) val \<and> root = keccak (hd (rev xs @ y # ys))"
proof (induction xs arbitrary: y ys)
  case (Cons x xs)
  then have "merkle_proof_fold R keccak (keccak x) xs = Some root" "trie_path R keccak (x # y # ys) val"
    by (auto split: option.splits if_splits)
  from Cons.IH [OF this] show ?case by simp
qed simp

lemma apply_merkle_proof_path:
  assumes "apply_merkle_proof R keccak nodes = Some (root, val)"
  shows "trie_path R keccak nodes val \<and> root = keccak (hd nodes)"
proof -
  obtain y xs where nodes: "rev nodes = y # xs"
    using assms by (auto simp: apply_merkle_proof_def split: list.splits)
  then have nodes': "nodes = rev xs @ [y]" by (metis rev.simps(2) rev_rev_ident)
  have "merkle_proof_fold R keccak (keccak y) xs = Some root" "\<exists>key. short_node_decode R y = Some (key, val)"
    using assms nodes by (auto simp: apply_merkle_proof_def split: bind_splits)
  then show ?thesis using merkle_proof_fold_path [of R keccak y xs root "[]" val] nodes' by simp
qed

lemma verify_receipt_proof_path:
  assumes "verify_receipt_proof R keccak root nodes = Some (Some r)"
  shows "\<exists>val. trie_path R keccak nodes val \<and> keccak (hd nodes) = root \<and> receipt_decode R val = Some r"
  using assms apply_merkle_proof_path [of R keccak nodes]
  by (auto simp: verify_receipt_proof_def split: option.splits if_splits)

lemma prepare_g1_pubkeys_length: "prepare_g1_pubkeys B ps = Inr ks \<Longrightarrow> length ks = length ps"
  by (induction ps arbitrary: ks) (auto split: sum.splits)

end
