(* ===== verification/Beacon_Primitives.thy ===== *)
theory Beacon_Primitives
  imports Merkle_Tree
begin

text \<open>
  Building blocks of the Ethereum beacon client: Merkle branches of SSZ trees
  (\<open>primitives/snowbridge/beacon/src/merkle_proof.rs\<close>) and the ring-buffer map
  (\<open>primitives/snowbridge/core/src/ringbuffer.rs\<close>).

  The hash function is a parameter (the client passes SHA-256). The lemmas show that branch verification accepts the branches of a tree and, where the hash does not
  collide, only the leaf at the claimed position; and that the ring-buffer map keeps exactly the
  most recent entries.
\<close>

unbundle bit_operations_syntax

section \<open>Merkle branches\<close>

definition generalized_index_bit :: "nat \<Rightarrow> nat \<Rightarrow> bool" where
  "generalized_index_bit index position \<longleftrightarrow> 0 < index AND push_bit position 1"

fun merkle_root_loop :: "hasher \<Rightarrow> nat \<Rightarrow> nat \<Rightarrow> H256 \<Rightarrow> H256 list \<Rightarrow> H256" where
  "merkle_root_loop sha index i val [] = val"
| "merkle_root_loop sha index i val (node # nodes) =
     merkle_root_loop sha index (i + 1)
       (if generalized_index_bit index i then sha (be_bytes node @ be_bytes val)
        else sha (be_bytes val @ be_bytes node)) nodes"

definition compute_merkle_root :: "hasher \<Rightarrow> H256 \<Rightarrow> H256 list \<Rightarrow> nat \<Rightarrow> H256" where
  "compute_merkle_root sha leaf nodes index = merkle_root_loop sha index 0 leaf nodes"

definition verify_merkle_branch :: "hasher \<Rightarrow> H256 \<Rightarrow> H256 list \<Rightarrow> nat \<Rightarrow> nat \<Rightarrow> H256 \<Rightarrow> bool" where
  "verify_merkle_branch sha leaf branch index depth root =
     (if length branch \<noteq> depth then False else root = compute_merkle_root sha leaf branch index)"

text \<open>\<open>checked_ilog2\<close>; the panic on zero is excluded statically.\<close>

fun generalized_index_length :: "nat \<Rightarrow> nat" where
  "generalized_index_length n = (if n < 2 then 0 else Suc (generalized_index_length (n div 2)))"

declare generalized_index_length.simps [simp del]

definition subtree_index :: "nat \<Rightarrow> nat" where
  "subtree_index g = g mod 2 ^ generalized_index_length g"

subsection \<open>The reference tree\<close>

text \<open>A perfect binary tree over \<open>2 ^ d\<close> chunks, row by row; left and right child keep their order.\<close>

fun pair_row :: "hasher \<Rightarrow> H256 list \<Rightarrow> H256 list" where
  "pair_row sha (a # b # xs) = sha (be_bytes a @ be_bytes b) # pair_row sha xs"
| "pair_row sha xs = []"

fun chunk_root :: "hasher \<Rightarrow> nat \<Rightarrow> H256 list \<Rightarrow> H256" where
  "chunk_root sha 0 xs = xs ! 0"
| "chunk_root sha (Suc d) xs = chunk_root sha d (pair_row sha xs)"

definition neighbour :: "nat \<Rightarrow> nat" where
  "neighbour i = (if even i then i + 1 else i - 1)"

fun chunk_branch :: "hasher \<Rightarrow> nat \<Rightarrow> H256 list \<Rightarrow> nat \<Rightarrow> H256 list" where
  "chunk_branch sha 0 xs i = []"
| "chunk_branch sha (Suc d) xs i = xs ! neighbour i # chunk_branch sha d (pair_row sha xs) (i div 2)"

text \<open>The buffers hashed for the tree and along a branch.\<close>

fun pair_buffers :: "H256 list \<Rightarrow> byte list set" where
  "pair_buffers (a # b # xs) = insert (be_bytes a @ be_bytes b) (pair_buffers xs)"
| "pair_buffers _ = {}"

fun chunk_buffers :: "hasher \<Rightarrow> nat \<Rightarrow> H256 list \<Rightarrow> byte list set" where
  "chunk_buffers sha 0 xs = {}"
| "chunk_buffers sha (Suc d) xs = pair_buffers xs \<union> chunk_buffers sha d (pair_row sha xs)"

definition branch_buffer :: "nat \<Rightarrow> H256 \<Rightarrow> H256 \<Rightarrow> byte list" where
  "branch_buffer index val node = (if odd index then be_bytes node @ be_bytes val else be_bytes val @ be_bytes node)"

fun branch_buffers :: "hasher \<Rightarrow> nat \<Rightarrow> H256 \<Rightarrow> H256 list \<Rightarrow> byte list set" where
  "branch_buffers sha index val [] = {}"
| "branch_buffers sha index val (node # nodes) =
     insert (branch_buffer index val node) (branch_buffers sha (index div 2) (sha (branch_buffer index val node)) nodes)"

subsection \<open>Lemmas\<close>

lemma generalized_index_bit_odd: "generalized_index_bit index i \<longleftrightarrow> odd (index div 2 ^ i)"
proof -
  have "index AND push_bit i 1 = push_bit i (of_bool (bit index i))"
    by (rule bit_eqI) (auto simp: bit_simps)
  then show ?thesis by (simp add: generalized_index_bit_def bit_iff_odd)
qed

lemma merkle_root_loop_shift:
  "merkle_root_loop sha index (Suc i) val nodes = merkle_root_loop sha (index div 2) i val nodes"
  by (induction nodes arbitrary: i val) (simp_all add: generalized_index_bit_odd div_mult2_eq)

lemma compute_merkle_root_simps:
  "compute_merkle_root sha val [] index = val"
  "compute_merkle_root sha val (node # nodes) index =
     compute_merkle_root sha (sha (branch_buffer index val node)) nodes (index div 2)"
  by (simp_all add: compute_merkle_root_def merkle_root_loop_shift generalized_index_bit_odd
      branch_buffer_def)

lemma length_pair_row: "length (pair_row sha xs) = length xs div 2"
  by (induction sha xs rule: pair_row.induct) auto

lemma pair_row_nth:
  assumes "i < length xs" and "even (length xs)"
  shows "pair_row sha xs ! (i div 2) = sha (branch_buffer i (xs ! i) (xs ! neighbour i)) \<and>
    branch_buffer i (xs ! i) (xs ! neighbour i) \<in> pair_buffers xs"
  using assms
proof (induction xs arbitrary: i rule: induct_list012)
  case (3 a b xs)
  consider "i = 0" | "i = 1" | j where "i = Suc (Suc j)" by (metis One_nat_def not0_implies_Suc)
  then show ?case
  proof cases
    case (3 j)
    then show ?thesis
      using "3.IH"(1) [of j] "3.prems" by (cases j) (auto simp: branch_buffer_def neighbour_def)
  qed (auto simp: branch_buffer_def neighbour_def)
qed auto

lemma branch_buffer_inject:
  "branch_buffer i a b = branch_buffer i c d \<Longrightarrow> a = c"
  by (auto simp: branch_buffer_def split: if_splits)

lemma chunk_branch_root:
  "length xs = 2 ^ d \<Longrightarrow> i < 2 ^ d \<Longrightarrow> compute_merkle_root sha (xs ! i) (chunk_branch sha d xs i) i = chunk_root sha d xs"
proof (induction d arbitrary: xs i)
  case (Suc d)
  then have "compute_merkle_root sha (pair_row sha xs ! (i div 2)) (chunk_branch sha d (pair_row sha xs) (i div 2)) (i div 2)
      = chunk_root sha d (pair_row sha xs)"
    by (intro Suc.IH) (auto simp: length_pair_row)
  then show ?case
    using Suc.prems pair_row_nth [of i xs sha] by (simp add: compute_merkle_root_simps)
qed (simp add: compute_merkle_root_simps)

lemma length_chunk_branch: "length (chunk_branch sha d xs i) = d"
  by (induction d arbitrary: xs i) auto

lemma branch_position:
  assumes "length xs = 2 ^ d" and "i < 2 ^ d" and "length branch = d"
    and "compute_merkle_root sha leaf branch i = chunk_root sha d xs"
    and "inj_on sha (chunk_buffers sha d xs \<union> branch_buffers sha i leaf branch)"
  shows "leaf = xs ! i"
  using assms
proof (induction d arbitrary: xs i leaf branch)
  case (Suc d)
  then obtain node nodes where branch: "branch = node # nodes" by (cases branch) auto
  let ?x = "branch_buffer i leaf node" and ?y = "branch_buffer i (xs ! i) (xs ! neighbour i)"
  have row: "pair_row sha xs ! (i div 2) = sha ?y" "?y \<in> pair_buffers xs"
    using pair_row_nth [of i xs sha] Suc.prems(1,2) by auto
  have "sha ?x = pair_row sha xs ! (i div 2)"
  proof (rule Suc.IH)
    show "inj_on sha (chunk_buffers sha d (pair_row sha xs) \<union> branch_buffers sha (i div 2) (sha ?x) nodes)"
      using Suc.prems(5) branch by (auto elim!: inj_on_subset)
  qed (use Suc.prems branch in \<open>auto simp: length_pair_row compute_merkle_root_simps\<close>)
  with row have "?x = ?y"
    using Suc.prems(5) branch by (intro inj_onD [OF Suc.prems(5)]) auto
  then show ?case by (rule branch_buffer_inject)
qed (simp add: compute_merkle_root_simps)

text \<open>Two branches at the same index with the same root are for the same leaf, unless the hash collides on their buffers.\<close>

lemma branches_agree:
  assumes "length branch = length branch'"
    and "compute_merkle_root sha leaf branch i = compute_merkle_root sha leaf' branch' i"
    and "inj_on sha (branch_buffers sha i leaf branch \<union> branch_buffers sha i leaf' branch')"
  shows "leaf = leaf'"
  using assms
proof (induction branch branch' arbitrary: leaf leaf' i rule: list_induct2)
  case (Cons x xs y ys)
  let ?x = "branch_buffer i leaf x" and ?y = "branch_buffer i leaf' y"
  have "inj_on sha (branch_buffers sha (i div 2) (sha ?x) xs \<union> branch_buffers sha (i div 2) (sha ?y) ys)"
    using Cons.prems(2) by (rule inj_on_subset) auto
  then have "sha ?x = sha ?y" using Cons.IH Cons.prems(1) by (simp add: compute_merkle_root_simps)
  then have "?x = ?y" by (rule inj_onD [OF Cons.prems(2)]) auto
  then show ?case by (rule branch_buffer_inject)
qed (simp add: compute_merkle_root_simps)

lemma compute_merkle_root_mod:
  "compute_merkle_root sha leaf branch (index mod 2 ^ length branch) = compute_merkle_root sha leaf branch index"
proof (induction branch arbitrary: leaf index)
  case (Cons node nodes)
  have eq: "index mod 2 ^ Suc (length nodes) = 2 * (index div 2 mod 2 ^ length nodes) + index mod 2"
    by (simp add: mod_mult2_eq)
  have "(index mod 2 ^ Suc (length nodes)) div 2 = (index div 2) mod 2 ^ length nodes"
    unfolding eq by simp
  moreover have "odd (index mod 2 ^ Suc (length nodes)) = odd index" unfolding eq by simp
  ultimately show ?case using Cons by (simp add: compute_merkle_root_simps branch_buffer_def)
qed (simp add: compute_merkle_root_simps)

section \<open>The ring-buffer map\<close>

text \<open>Three storage items: the current index, the key stored under each index, and the entries.\<close>

record ('k, 'v) ring_map =
  rm_index :: nat
  rm_mapping :: "nat \<rightharpoonup> 'k"
  rm_entries :: "'k \<rightharpoonup> 'v"

definition rm_empty :: "('k, 'v) ring_map" where
  "rm_empty = \<lparr>rm_index = 0, rm_mapping = Map.empty, rm_entries = Map.empty\<rparr>"

definition rm_insert :: "nat \<Rightarrow> 'k \<Rightarrow> 'v \<Rightarrow> ('k, 'v) ring_map \<Rightarrow> ('k, 'v) ring_map" where
  "rm_insert bound k v r =
     (let current_index = (if bound \<le> rm_index r + 1 then 0 else rm_index r + 1);
          entries = (case rm_mapping r current_index of
                       Some older_key \<Rightarrow> (rm_entries r)(older_key := None)
                     | None \<Rightarrow> rm_entries r)
      in \<lparr>rm_index = current_index, rm_mapping = (rm_mapping r)(current_index \<mapsto> k),
          rm_entries = entries(k \<mapsto> v)\<rparr>)"

definition rm_contains_key :: "'k \<Rightarrow> ('k, 'v) ring_map \<Rightarrow> bool" where
  "rm_contains_key k r \<longleftrightarrow> rm_entries r k \<noteq> None"

definition rm_get :: "'k \<Rightarrow> ('k, 'v) ring_map \<Rightarrow> 'v option" where
  "rm_get k r = rm_entries r k"

text \<open>The insertion of a list of entries, first to last.\<close>

definition rm_inserts :: "nat \<Rightarrow> ('k \<times> 'v) list \<Rightarrow> ('k, 'v) ring_map \<Rightarrow> ('k, 'v) ring_map" where
  "rm_inserts bound kvs r = foldl (\<lambda>r (k, v). rm_insert bound k v r) r kvs"

subsection \<open>Lemmas\<close>

lemma rm_get_insert: "rm_get k (rm_insert bound k v r) = Some v"
  by (simp add: rm_get_def rm_insert_def Let_def)

text \<open>The number of entries never exceeds the bound, whatever is inserted.\<close>

definition rm_ok :: "nat \<Rightarrow> ('k, 'v) ring_map \<Rightarrow> bool" where
  "rm_ok bound r \<longleftrightarrow> rm_index r < bound \<and> dom (rm_mapping r) \<subseteq> {..<bound} \<and>
     dom (rm_entries r) \<subseteq> ran (rm_mapping r)"

lemma rm_ok_empty: "0 < bound \<Longrightarrow> rm_ok bound rm_empty"
  by (simp add: rm_ok_def rm_empty_def)

lemma rm_ok_insert:
  assumes "rm_ok bound r"
  shows "rm_ok bound (rm_insert bound k v r)"
proof -
  let ?i = "if bound \<le> rm_index r + 1 then 0 else rm_index r + 1"
  have "?i < bound" using assms by (auto simp: rm_ok_def)
  moreover have "dom (rm_entries (rm_insert bound k v r)) \<subseteq> ran (rm_mapping (rm_insert bound k v r))"
  proof
    fix x assume x: "x \<in> dom (rm_entries (rm_insert bound k v r))"
    show "x \<in> ran (rm_mapping (rm_insert bound k v r))"
    proof (cases "x = k")
      case False
      then have "x \<in> dom (rm_entries r)" "rm_mapping r ?i \<noteq> Some x"
        using x by (auto simp: rm_insert_def Let_def split: option.splits if_splits)
      then obtain j where j: "rm_mapping r j = Some x"
        using assms by (auto simp: rm_ok_def ran_def)
      with \<open>rm_mapping r ?i \<noteq> Some x\<close> have "j \<noteq> ?i" by metis
      with j have "rm_mapping (rm_insert bound k v r) j = Some x" by (simp add: rm_insert_def Let_def)
      then show ?thesis by (auto simp: ran_def)
    qed (auto simp: rm_insert_def Let_def ran_def)
  qed
  ultimately show ?thesis using assms by (auto simp: rm_ok_def rm_insert_def Let_def)
qed

lemma rm_ok_card: "rm_ok bound r \<Longrightarrow> finite (dom (rm_entries r)) \<and> card (dom (rm_entries r)) \<le> bound"
proof -
  assume ok: "rm_ok bound r"
  have ran: "ran (rm_mapping r) = (\<lambda>i. the (rm_mapping r i)) ` dom (rm_mapping r)"
    by (force simp: ran_def dom_def)
  have fin: "finite (dom (rm_mapping r))" "card (dom (rm_mapping r)) \<le> bound"
    using ok finite_subset card_mono [of "{..<bound}" "dom (rm_mapping r)"] by (auto simp: rm_ok_def)
  have "finite (ran (rm_mapping r))" "card (ran (rm_mapping r)) \<le> bound"
    using fin card_image_le [OF fin(1), of "\<lambda>i. the (rm_mapping r i)"] unfolding ran by auto
  then show ?thesis
    using ok finite_subset card_mono [of "ran (rm_mapping r)" "dom (rm_entries r)"] by (auto simp: rm_ok_def)
qed

text \<open>
  The ring after inserting a list with distinct keys: insertion number \<open>m\<close> (from one) sits at
  index \<open>m mod bound\<close> until it is overwritten.
\<close>

definition ring_of :: "nat \<Rightarrow> ('k \<times> 'v) list \<Rightarrow> ('k, 'v) ring_map \<Rightarrow> bool" where
  "ring_of B kvs r \<longleftrightarrow> rm_index r = length kvs mod B \<and>
     (\<forall>m. 1 \<le> m \<and> m \<le> length kvs \<and> length kvs < m + B \<longrightarrow> rm_mapping r (m mod B) = Some (fst (kvs ! (m - 1)))) \<and>
     (length kvs < B \<longrightarrow> (\<forall>j. j = 0 \<or> length kvs < j \<longrightarrow> rm_mapping r j = None)) \<and>
     rm_entries r = map_of (drop (length kvs - B) kvs)"

lemma ring_next_index:
  assumes "0 < B"
  shows "(if B \<le> n mod B + 1 then 0 else n mod B + 1) = Suc n mod B"
proof -
  have "n mod B < B" using assms by simp
  then show ?thesis by (auto simp: mod_Suc)
qed

lemma mod_window_neq:
  assumes "m \<le> n" and "Suc n < m + B"
  shows "m mod B \<noteq> Suc n mod (B::nat)"
proof
  assume "m mod B = Suc n mod B"
  then have "B dvd Suc n - m" using assms(1) by (metis le_SucI mod_eq_dvd_iff_nat)
  then have "B \<le> Suc n - m" using assms by (intro dvd_imp_le) auto
  with assms show False by arith
qed

lemma map_of_snoc: "fst x \<notin> fst ` set xs \<Longrightarrow> map_of (xs @ [x]) = (map_of xs)(fst x \<mapsto> snd x)"
  by (cases x) (simp add: map_add_upd_left dom_map_of_conv_image_fst)

lemma map_of_tail:
  assumes "distinct (map fst (x # xs))"
  shows "(map_of (x # xs))(fst x := None) = map_of xs"
proof -
  have "map_of xs (fst x) = None" using assms by (simp add: map_of_eq_None_iff)
  then show ?thesis by (auto simp: fun_eq_iff)
qed

lemma ring_of_insert:
  assumes ring: "ring_of B kvs r" and B: "0 < B" and dist: "distinct (map fst (kvs @ [(k, v)]))"
  shows "ring_of B (kvs @ [(k, v)]) (rm_insert B k v r)"
proof -
  let ?n = "length kvs" and ?i = "Suc (length kvs) mod B"
  have index: "rm_index r = ?n mod B" using ring by (simp add: ring_of_def)
  have i: "(if B \<le> rm_index r + 1 then 0 else rm_index r + 1) = ?i"
    unfolding index by (rule ring_next_index [OF B])
  have entries: "(case rm_mapping r ?i of Some old \<Rightarrow> (rm_entries r)(old := None) | None \<Rightarrow> rm_entries r) =
      map_of (drop (Suc ?n - B) kvs)"
  proof (cases "?n < B")
    case True
    then have "rm_mapping r ?i = None"
      using ring by (cases "Suc ?n = B") (auto simp: ring_of_def)
    with True ring show ?thesis by (simp add: ring_of_def)
  next
    case False
    define m where "m = Suc ?n - B"
    have "m mod B = ?i" using False by (simp add: m_def le_mod_geq)
    moreover have m: "1 \<le> m" "m \<le> ?n" "?n < m + B" using False B by (auto simp: m_def)
    ultimately have map: "rm_mapping r ?i = Some (fst (kvs ! (m - 1)))"
      using ring unfolding ring_of_def by metis
    have drop: "drop (?n - B) kvs = kvs ! (m - 1) # drop m kvs"
      using Cons_nth_drop_Suc [of "m - 1" kvs] m False by (simp add: m_def Suc_diff_le)
    have "distinct (map fst (drop (?n - B) kvs))" using dist by (simp add: drop_map [symmetric])
    then show ?thesis
      using map_of_tail [of "kvs ! (m - 1)" "drop m kvs"] ring map drop by (simp add: ring_of_def m_def)
  qed
  have "k \<notin> fst ` set (drop (Suc ?n - B) kvs)" using dist by (auto dest: in_set_dropD)
  then have "map_of (drop (Suc ?n - B) (kvs @ [(k, v)])) = (map_of (drop (Suc ?n - B) kvs))(k \<mapsto> v)"
    using map_of_snoc [of "(k, v)" "drop (Suc ?n - B) kvs"] B by simp
  moreover have "rm_mapping (rm_insert B k v r) = (rm_mapping r)(?i \<mapsto> k)" "rm_index (rm_insert B k v r) = ?i"
      "rm_entries (rm_insert B k v r) = (map_of (drop (Suc ?n - B) kvs))(k \<mapsto> v)"
    using i entries by (simp_all add: rm_insert_def Let_def)
  moreover have "((rm_mapping r)(?i \<mapsto> k)) (m mod B) = Some (fst ((kvs @ [(k, v)]) ! (m - 1)))"
    if "1 \<le> m" "m \<le> Suc ?n" "Suc ?n < m + B" for m
    using ring that mod_window_neq [of m ?n B] by (cases "m = Suc ?n") (auto simp: ring_of_def nth_append)
  ultimately show ?thesis
    using ring by (auto simp: ring_of_def)
qed

lemma ring_of_inserts:
  assumes "0 < B" and "distinct (map fst kvs)"
  shows "ring_of B kvs (rm_inserts B kvs rm_empty)"
  using assms(2)
proof (induction kvs rule: rev_induct)
  case Nil
  then show ?case by (simp add: ring_of_def rm_inserts_def rm_empty_def)
next
  case (snoc x kvs)
  then show ?case
    using ring_of_insert [of B kvs "rm_inserts B kvs rm_empty" "fst x" "snd x"] assms(1)
    by (simp add: rm_inserts_def case_prod_unfold)
qed

section \<open>Properties\<close>

text \<open>
  SSZ branches: the branch of a chunk verifies against the root of the tree at the chunk's
  index, and if the hash does not collide on the buffers of the tree and of a presented branch,
  an accepted branch at an index is for the chunk at exactly this index.
\<close>

theorem merkle_branch_binds_position:
  assumes "length xs = 2 ^ d" and "i < 2 ^ d"
    and "inj_on sha (chunk_buffers sha d xs \<union> branch_buffers sha i leaf branch)"
  shows "verify_merkle_branch sha (xs ! i) (chunk_branch sha d xs i) i d (chunk_root sha d xs) \<and>
    (verify_merkle_branch sha leaf branch i d (chunk_root sha d xs) \<longrightarrow> leaf = xs ! i)"
  using chunk_branch_root [OF assms(1,2)] length_chunk_branch branch_position [OF assms(1,2) _ _ assms(3)]
  by (auto simp: verify_merkle_branch_def split: if_splits)

lemma sample_pairs:
  "toy_hash (be_bytes 1 @ be_bytes 2) = 66" "toy_hash (be_bytes 3 @ be_bytes 4) = 68"
  "toy_hash (be_bytes 66 @ be_bytes 68) = 132"
  by (simp_all add: toy_hash_def be_bytes_def upt_rec)

theorem merkle_branch_binds_position_witness:
  "verify_merkle_branch toy_hash 3 [4, 66] 2 2 132 \<and> chunk_root toy_hash 2 [1, 2, 3, 4] = 132 \<and>
   (3 :: H256) = [1, 2, 3, 4] ! 2"
proof -
  have eval: "chunk_root toy_hash 2 [1, 2, 3, 4] = 132"
      "chunk_branch toy_hash 2 [1, 2, 3, 4] 2 = [4, 66]"
      "chunk_buffers toy_hash 2 [1, 2, 3, 4] \<union> branch_buffers toy_hash 2 3 [4, 66] =
        {be_bytes 1 @ be_bytes 2, be_bytes 3 @ be_bytes 4, be_bytes 66 @ be_bytes 68}"
    by (auto simp: numeral_2_eq_2 sample_pairs neighbour_def branch_buffer_def)
  have "inj_on toy_hash {be_bytes 1 @ be_bytes 2, be_bytes 3 @ be_bytes 4, be_bytes 66 @ be_bytes 68}"
    by (simp add: inj_on_def sample_pairs)
  then have inj: "inj_on toy_hash (chunk_buffers toy_hash 2 [1, 2, 3, 4] \<union> branch_buffers toy_hash 2 3 [4, 66])"
    by (simp only: eval)
  show ?thesis
    using merkle_branch_binds_position [OF _ _ inj] eval by simp
qed

text \<open>
  The ring-buffer map refines a window over the insertions: after inserting any list of entries
  with distinct keys, exactly the last \<open>bound\<close> of them are present, each with its value.
\<close>

theorem ring_map_keeps_latest:
  assumes "0 < bound" and "distinct (map fst kvs)"
  shows "rm_entries (rm_inserts bound kvs rm_empty) = map_of (drop (length kvs - bound) kvs)"
  using ring_of_inserts [OF assms] by (simp add: ring_of_def)

theorem ring_map_keeps_latest_witness:
  "rm_entries (rm_inserts 2 [(1 :: nat, ''a''), (2, ''b''), (3, ''c'')] rm_empty) = map_of [(2, ''b''), (3, ''c'')]"
  using ring_map_keeps_latest [of 2 "[(1 :: nat, ''a''), (2, ''b''), (3, ''c'')]"] by simp

text \<open>
  A key that is inserted again is dropped when its older slot is reused: here key 1, inserted
  again after key 2, is gone while key 2 is still present.
\<close>

lemma reinserted_key_lost:
  "rm_get 1 (rm_inserts 3 [(1 :: nat, ''a''), (2, ''b''), (1, ''c''), (3, ''d'')] rm_empty) = None"
  "rm_get 2 (rm_inserts 3 [(1 :: nat, ''a''), (2, ''b''), (1, ''c''), (3, ''d'')] rm_empty) = Some ''b''"
  by (simp_all add: rm_inserts_def rm_insert_def rm_get_def rm_empty_def)

end
