(* ===== verification/Ethereum_Client.thy ===== *)
theory Ethereum_Client
  imports Beacon_Types Beacon_Primitives
begin

text \<open>
  The Ethereum beacon light client, \<open>pallets/ethereum-client/src\<close>: checkpoint and update
  processing (\<open>lib.rs\<close>, \<open>functions.rs\<close>, \<open>config\<close>) and the verification of event logs against
  finalized headers (\<open>impls.rs\<close>).

  The storage is the record \<open>ec_state\<close>; the three items of the ring buffer of finalized states are
  one \<open>ring_map\<close>. A storage value whose absence the code tests (\<open>NextSyncCommittee\<close>) is an option.
  The dispatchables are transactional: an error is \<^term>\<open>Inl\<close> and leaves no state.

  The lemmas show what an accepted update has passed, that with committees that sign only headers of the chain
  an accepted update is one of the chain, that the finalized slot moves forward by at most one historical window, and
  that an accepted log is in a receipt under a finalized header.
\<close>

section \<open>Constants\<close>

definition SLOTS_PER_EPOCH :: nat where "SLOTS_PER_EPOCH = 32"
definition EPOCHS_PER_SYNC_COMMITTEE_PERIOD :: nat where "EPOCHS_PER_SYNC_COMMITTEE_PERIOD = 256"
definition SYNC_COMMITTEE_SIZE :: nat where "SYNC_COMMITTEE_SIZE = 512"
definition SLOTS_PER_HISTORICAL_ROOT :: nat where "SLOTS_PER_HISTORICAL_ROOT = 8192"
definition BLOCK_ROOT_AT_INDEX_DEPTH :: nat where "BLOCK_ROOT_AT_INDEX_DEPTH = 13"
definition DOMAIN_SYNC_COMMITTEE :: "byte list" where "DOMAIN_SYNC_COMMITTEE = [7, 0, 0, 0]"

definition altair_BLOCK_ROOTS_INDEX :: nat where "altair_BLOCK_ROOTS_INDEX = 37"
definition altair_FINALIZED_ROOT_INDEX :: nat where "altair_FINALIZED_ROOT_INDEX = 105"
definition altair_CURRENT_SYNC_COMMITTEE_INDEX :: nat where "altair_CURRENT_SYNC_COMMITTEE_INDEX = 54"
definition altair_NEXT_SYNC_COMMITTEE_INDEX :: nat where "altair_NEXT_SYNC_COMMITTEE_INDEX = 55"
definition EXECUTION_HEADER_INDEX :: nat where "EXECUTION_HEADER_INDEX = 25"
definition electra_BLOCK_ROOTS_INDEX :: nat where "electra_BLOCK_ROOTS_INDEX = 69"
definition electra_FINALIZED_ROOT_INDEX :: nat where "electra_FINALIZED_ROOT_INDEX = 169"
definition electra_CURRENT_SYNC_COMMITTEE_INDEX :: nat where "electra_CURRENT_SYNC_COMMITTEE_INDEX = 86"
definition electra_NEXT_SYNC_COMMITTEE_INDEX :: nat where "electra_NEXT_SYNC_COMMITTEE_INDEX = 87"

definition MaxFinalizedHeadersToKeep :: nat where
  "MaxFinalizedHeadersToKeep = EPOCHS_PER_SYNC_COMMITTEE_PERIOD * 20"

section \<open>Functions\<close>

definition compute_period :: "nat \<Rightarrow> nat" where
  "compute_period s = s div SLOTS_PER_EPOCH div EPOCHS_PER_SYNC_COMMITTEE_PERIOD"

definition compute_epoch :: "nat \<Rightarrow> nat \<Rightarrow> nat" where
  "compute_epoch s slots_per_epoch = s div slots_per_epoch"

definition sync_committee_sum :: "nat list \<Rightarrow> nat" where
  "sync_committee_sum bits = foldl (\<lambda>acc x. acc + x) 0 bits"

section \<open>Configuration and state\<close>

datatype ec_error =
    SkippedSyncCommitteePeriod
  | SyncCommitteeUpdateRequired
  | IrrelevantUpdate
  | NotBootstrapped
  | SyncCommitteeParticipantsNotSupermajority
  | InvalidHeaderMerkleProof
  | InvalidSyncCommitteeMerkleProof
  | InvalidExecutionHeaderProof
  | InvalidAncestryMerkleProof
  | InvalidBlockRootsRootMerkleProof
  | InvalidFinalizedHeaderGap
  | HeaderNotFinalized
  | BlockBodyHashTreeRootFailed
  | HeaderHashTreeRootFailed
  | SyncCommitteeHashTreeRootFailed
  | SigningRootHashTreeRootFailed
  | ForkDataHashTreeRootFailed
  | ExpectedFinalizedHeaderNotStored
  | BLSPreparePublicKeysFailed
  | BLSVerificationFailed bls_error
  | InvalidUpdateSlot
  | InvalidSyncCommitteeUpdate
  | ExecutionHeaderTooFarBehind
  | ExecutionHeaderSkippedBlock
  | EcHalted
  | EcBadOrigin

datatype ec_event =
    BeaconHeaderImported H256 nat
  | SyncCommitteeUpdated nat
  | EcOperatingModeChanged basic_operating_mode

datatype pays = PaysYes | PaysNo

text \<open>\<open>ec_error_str\<close> is the conversion of a dispatch error to its static text.\<close>

record ('k, 'a, 's) ec_config =
  ForkVersions :: fork_versions
  FreeHeadersInterval :: nat
  ec_ssz :: ssz
  ec_bls :: "('k, 'a, 's) bls"
  ec_rlp :: rlp
  sha2_256 :: hasher
  keccak_256 :: hasher
  ec_error_str :: "ec_error \<Rightarrow> string"

record 'k ec_state =
  InitialCheckpointRoot :: H256
  LatestFinalizedBlockRoot :: H256
  FinalizedBeaconState :: "(H256, compact_beacon_state) ring_map"
  ValidatorsRoot :: H256
  CurrentSyncCommittee :: "'k sync_committee_prepared"
  NextSyncCommittee :: "'k sync_committee_prepared option"
  LatestSyncCommitteeUpdatePeriod :: nat
  ec_OperatingMode :: basic_operating_mode
  ec_events :: "ec_event list"

definition ec_genesis :: "('k, 'a, 's) ec_config \<Rightarrow> 'k ec_state" where
  "ec_genesis cfg =
     \<lparr>InitialCheckpointRoot = 0, LatestFinalizedBlockRoot = 0, FinalizedBeaconState = rm_empty,
      ValidatorsRoot = 0,
      CurrentSyncCommittee = sync_committee_prepared_default (ec_bls cfg) SYNC_COMMITTEE_SIZE,
      NextSyncCommittee = None, LatestSyncCommitteeUpdatePeriod = 0,
      ec_OperatingMode = BasicNormal, ec_events = []\<rparr>"

abbreviation finalized_state :: "H256 \<Rightarrow> 'k ec_state \<Rightarrow> compact_beacon_state option" where
  "finalized_state root s \<equiv> rm_get root (FinalizedBeaconState s)"

abbreviation latest_finalized_state :: "'k ec_state \<Rightarrow> compact_beacon_state option" where
  "latest_finalized_state s \<equiv> finalized_state (LatestFinalizedBlockRoot s) s"

definition next_sync_committee_get :: "('k, 'a, 's) ec_config \<Rightarrow> 'k ec_state \<Rightarrow> 'k sync_committee_prepared" where
  "next_sync_committee_get cfg s =
     (case NextSyncCommittee s of
        Some c \<Rightarrow> c
      | None \<Rightarrow> sync_committee_prepared_default (ec_bls cfg) SYNC_COMMITTEE_SIZE)"

definition ec_deposit :: "ec_event \<Rightarrow> 'k ec_state \<Rightarrow> 'k ec_state" where
  "ec_deposit e s = s\<lparr>ec_events := ec_events s @ [e]\<rparr>"

section \<open>Generalized indices and forks\<close>

definition finalized_root_gindex_at_slot :: "nat \<Rightarrow> fork_versions \<Rightarrow> nat" where
  "finalized_root_gindex_at_slot sl fv =
     (if fork_epoch (fv_electra fv) \<le> compute_epoch sl SLOTS_PER_EPOCH then electra_FINALIZED_ROOT_INDEX
      else altair_FINALIZED_ROOT_INDEX)"

definition current_sync_committee_gindex_at_slot :: "nat \<Rightarrow> fork_versions \<Rightarrow> nat" where
  "current_sync_committee_gindex_at_slot sl fv =
     (if fork_epoch (fv_electra fv) \<le> compute_epoch sl SLOTS_PER_EPOCH then electra_CURRENT_SYNC_COMMITTEE_INDEX
      else altair_CURRENT_SYNC_COMMITTEE_INDEX)"

definition next_sync_committee_gindex_at_slot :: "nat \<Rightarrow> fork_versions \<Rightarrow> nat" where
  "next_sync_committee_gindex_at_slot sl fv =
     (if fork_epoch (fv_electra fv) \<le> compute_epoch sl SLOTS_PER_EPOCH then electra_NEXT_SYNC_COMMITTEE_INDEX
      else altair_NEXT_SYNC_COMMITTEE_INDEX)"

definition block_roots_gindex_at_slot :: "nat \<Rightarrow> fork_versions \<Rightarrow> nat" where
  "block_roots_gindex_at_slot sl fv =
     (if fork_epoch (fv_electra fv) \<le> compute_epoch sl SLOTS_PER_EPOCH then electra_BLOCK_ROOTS_INDEX
      else altair_BLOCK_ROOTS_INDEX)"

definition execution_header_gindex :: nat where
  "execution_header_gindex = EXECUTION_HEADER_INDEX"

definition select_fork_version :: "fork_versions \<Rightarrow> nat \<Rightarrow> byte list" where
  "select_fork_version fv epoch =
     (if fork_epoch (fv_fulu fv) \<le> epoch then fork_version (fv_fulu fv)
      else if fork_epoch (fv_electra fv) \<le> epoch then fork_version (fv_electra fv)
      else if fork_epoch (fv_deneb fv) \<le> epoch then fork_version (fv_deneb fv)
      else if fork_epoch (fv_capella fv) \<le> epoch then fork_version (fv_capella fv)
      else if fork_epoch (fv_bellatrix fv) \<le> epoch then fork_version (fv_bellatrix fv)
      else if fork_epoch (fv_altair fv) \<le> epoch then fork_version (fv_altair fv)
      else fork_version (fv_genesis fv))"

definition compute_fork_version :: "('k, 'a, 's) ec_config \<Rightarrow> nat \<Rightarrow> byte list" where
  "compute_fork_version cfg epoch = select_fork_version (ForkVersions cfg) epoch"

section \<open>Signing roots\<close>

definition compute_fork_data_root :: "('k, 'a, 's) ec_config \<Rightarrow> byte list \<Rightarrow> H256 \<Rightarrow> ec_error + H256" where
  "compute_fork_data_root cfg current_version genesis_validators_root =
     (case fork_data_root (ec_ssz cfg)
             \<lparr>fd_current_version = current_version,
              fd_genesis_validators_root = be_bytes genesis_validators_root\<rparr> of
        None \<Rightarrow> Inl ForkDataHashTreeRootFailed
      | Some r \<Rightarrow> Inr r)"

definition compute_domain ::
  "('k, 'a, 's) ec_config \<Rightarrow> byte list \<Rightarrow> byte list \<Rightarrow> H256 \<Rightarrow> ec_error + H256" where
  "compute_domain cfg domain_type version genesis_validators_root =
     (case compute_fork_data_root cfg version genesis_validators_root of
        Inl e \<Rightarrow> Inl e
      | Inr fdr \<Rightarrow> Inr (h256_of_bytes (domain_type @ take 28 (be_bytes fdr))))"

definition compute_signing_root :: "('k, 'a, 's) ec_config \<Rightarrow> beacon_header \<Rightarrow> H256 \<Rightarrow> ec_error + H256" where
  "compute_signing_root cfg header domain =
     (case header_root (ec_ssz cfg) header of
        None \<Rightarrow> Inl HeaderHashTreeRootFailed
      | Some r \<Rightarrow>
          (case signing_data_root (ec_ssz cfg) \<lparr>sd_object_root = r, sd_domain = domain\<rparr> of
             None \<Rightarrow> Inl SigningRootHashTreeRootFailed
           | Some hash_root \<Rightarrow> Inr hash_root))"

definition signing_root :: "('k, 'a, 's) ec_config \<Rightarrow> beacon_header \<Rightarrow> H256 \<Rightarrow> nat \<Rightarrow> ec_error + H256" where
  "signing_root cfg header validators_root sig_slot =
     (let version = compute_fork_version cfg (compute_epoch sig_slot SLOTS_PER_EPOCH) in
      case compute_domain cfg DOMAIN_SYNC_COMMITTEE version validators_root of
        Inl e \<Rightarrow> Inl e
      | Inr domain \<Rightarrow> compute_signing_root cfg header domain)"

definition sync_committee_participation_is_supermajority :: "nat list \<Rightarrow> bool" where
  "sync_committee_participation_is_supermajority bits \<longleftrightarrow> length bits * 2 \<le> sync_committee_sum bits * 3"

definition find_pubkeys :: "nat list \<Rightarrow> 'k list \<Rightarrow> bool \<Rightarrow> 'k list" where
  "find_pubkeys bits pubkeys participant = map snd (filter (\<lambda>(bit, _). bit = of_bool participant) (zip bits pubkeys))"

section \<open>Checkpoints\<close>

definition store_validators_root :: "H256 \<Rightarrow> 'k ec_state \<Rightarrow> 'k ec_state" where
  "store_validators_root r s = s\<lparr>ValidatorsRoot := r\<rparr>"

definition store_finalized_header ::
  "('k, 'a, 's) ec_config \<Rightarrow> beacon_header \<Rightarrow> H256 \<Rightarrow> 'k ec_state \<Rightarrow> ec_error + 'k ec_state" where
  "store_finalized_header cfg header brr s =
     (case header_root (ec_ssz cfg) header of
        None \<Rightarrow> Inl HeaderHashTreeRootFailed
      | Some hr \<Rightarrow> Inr (ec_deposit (BeaconHeaderImported hr (slot header))
          (s\<lparr>FinalizedBeaconState := rm_insert MaxFinalizedHeadersToKeep hr
                \<lparr>cbs_slot = slot header, cbs_block_roots_root = brr\<rparr> (FinalizedBeaconState s),
             LatestFinalizedBlockRoot := hr\<rparr>)))"

definition process_checkpoint_update ::
  "('k, 'a, 's) ec_config \<Rightarrow> checkpoint_update \<Rightarrow> 'k ec_state \<Rightarrow> ec_error + 'k ec_state" where
  "process_checkpoint_update cfg u s =
     (case committee_root (ec_ssz cfg) (cu_current_sync_committee u) of
        None \<Rightarrow> Inl SyncCommitteeHashTreeRootFailed
      | Some sync_committee_root \<Rightarrow>
          (let sync_committee_gindex = current_sync_committee_gindex_at_slot (slot (cu_header u)) (ForkVersions cfg) in
           if \<not> verify_merkle_branch (sha2_256 cfg) sync_committee_root (cu_current_sync_committee_branch u)
                (subtree_index sync_committee_gindex) (generalized_index_length sync_committee_gindex)
                (state_root (cu_header u))
           then Inl InvalidSyncCommitteeMerkleProof
           else case header_root (ec_ssz cfg) (cu_header u) of
             None \<Rightarrow> Inl HeaderHashTreeRootFailed
           | Some hr \<Rightarrow>
               (let block_roots_gindex = block_roots_gindex_at_slot (slot (cu_header u)) (ForkVersions cfg) in
                if \<not> verify_merkle_branch (sha2_256 cfg) (cu_block_roots_root u) (cu_block_roots_branch u)
                     (subtree_index block_roots_gindex) (generalized_index_length block_roots_gindex)
                     (state_root (cu_header u))
                then Inl InvalidBlockRootsRootMerkleProof
                else case sync_committee_prepared_try_from (ec_ssz cfg) (ec_bls cfg) (cu_current_sync_committee u) of
                  Inl _ \<Rightarrow> Inl BLSPreparePublicKeysFailed
                | Inr prepared \<Rightarrow>
                    store_finalized_header cfg (cu_header u) (cu_block_roots_root u)
                      (store_validators_root (cu_validators_root u)
                        (s\<lparr>CurrentSyncCommittee := prepared, NextSyncCommittee := None,
                           InitialCheckpointRoot := hr\<rparr>)))))"

section \<open>Updates\<close>

definition verify_update :: "('k, 'a, 's) ec_config \<Rightarrow> update \<Rightarrow> 'k ec_state \<Rightarrow> ec_error + unit" where
  "verify_update cfg u s =
     (let participation = decompress_sync_committee_bits (ec_ssz cfg) (sync_committee_bits (u_sync_aggregate u)) in
      if \<not> sync_committee_participation_is_supermajority participation
      then Inl SyncCommitteeParticipantsNotSupermajority
      else if \<not> (slot (attested_header u) < signature_slot u \<and> slot (finalized_header u) \<le> slot (attested_header u))
      then Inl InvalidUpdateSlot
      else case latest_finalized_state s of
        None \<Rightarrow> Inl NotBootstrapped
      | Some latest \<Rightarrow>
     (let store_period = compute_period (cbs_slot latest);
          signature_period = compute_period (signature_slot u) in
      if \<not> (if NextSyncCommittee s \<noteq> None
             then store_period \<le> signature_period \<and> signature_period \<le> store_period + 1
             else signature_period = store_period)
      then Inl SkippedSyncCommitteePeriod
      else
     (let update_attested_period = compute_period (slot (attested_header u));
          update_finalized_period = compute_period (slot (finalized_header u));
          update_has_next_sync_committee =
            (NextSyncCommittee s = None \<and>
             (u_next_sync_committee_update u \<noteq> None \<and> update_attested_period = store_period)) in
      if \<not> (cbs_slot latest < slot (attested_header u) \<or> update_has_next_sync_committee)
      then Inl IrrelevantUpdate
      else if \<not> slot (finalized_header u) \<le> sat_add u64_max (cbs_slot latest) SLOTS_PER_HISTORICAL_ROOT
      then Inl InvalidFinalizedHeaderGap
      else let finalized_root_gindex = finalized_root_gindex_at_slot (slot (attested_header u)) (ForkVersions cfg) in
      case header_root (ec_ssz cfg) (finalized_header u) of
        None \<Rightarrow> Inl HeaderHashTreeRootFailed
      | Some fbr \<Rightarrow>
      if \<not> verify_merkle_branch (sha2_256 cfg) fbr (finality_branch u)
            (subtree_index finalized_root_gindex) (generalized_index_length finalized_root_gindex)
            (state_root (attested_header u))
      then Inl InvalidHeaderMerkleProof
      else let block_roots_gindex = block_roots_gindex_at_slot (slot (finalized_header u)) (ForkVersions cfg) in
      if \<not> verify_merkle_branch (sha2_256 cfg) (block_roots_root u) (block_roots_branch u)
            (subtree_index block_roots_gindex) (generalized_index_length block_roots_gindex)
            (state_root (finalized_header u))
      then Inl InvalidBlockRootsRootMerkleProof
      else case
       (case u_next_sync_committee_update u of
          Some n \<Rightarrow>
            (case committee_root (ec_ssz cfg) (next_sync_committee n) of
               None \<Rightarrow> Inl SyncCommitteeHashTreeRootFailed
             | Some sync_committee_root \<Rightarrow>
                 if update_attested_period = store_period \<and> NextSyncCommittee s \<noteq> None \<and>
                    sync_committee_root \<noteq> scp_root (next_sync_committee_get cfg s)
                 then Inl InvalidSyncCommitteeUpdate
                 else let gindex = next_sync_committee_gindex_at_slot (slot (attested_header u)) (ForkVersions cfg) in
                   if verify_merkle_branch (sha2_256 cfg) sync_committee_root (next_sync_committee_branch n)
                        (subtree_index gindex) (generalized_index_length gindex) (state_root (attested_header u))
                   then Inr () else Inl InvalidSyncCommitteeMerkleProof)
        | None \<Rightarrow>
            if update_finalized_period = store_period then Inr () else Inl SyncCommitteeUpdateRequired) of
        Inl e \<Rightarrow> Inl e
      | Inr _ \<Rightarrow>
     (let sync_committee = (if signature_period = store_period then CurrentSyncCommittee s
                            else next_sync_committee_get cfg s);
          absent_pubkeys = find_pubkeys participation (scp_pubkeys sync_committee) False in
      case signing_root cfg (attested_header u) (ValidatorsRoot s) (signature_slot u) of
        Inl e \<Rightarrow> Inl e
      | Inr sroot \<Rightarrow>
          (case fast_aggregate_verify (ec_bls cfg) (scp_aggregate_pubkey sync_committee) absent_pubkeys sroot
                  (sync_committee_signature (u_sync_aggregate u)) of
             Inl e \<Rightarrow> Inl (BLSVerificationFailed e)
           | Inr _ \<Rightarrow> Inr ())))))"

definition check_refundable :: "('k, 'a, 's) ec_config \<Rightarrow> update \<Rightarrow> nat \<Rightarrow> 'k ec_state \<Rightarrow> pays" where
  "check_refundable cfg u latest_slot s =
     (let update_period = compute_period (slot (finalized_header u));
          latest_free_update_period = LatestSyncCommitteeUpdatePeriod s;
          refundable = (NextSyncCommittee s = None \<or> latest_free_update_period < update_period) in
      if u_next_sync_committee_update u \<noteq> None \<and> refundable then PaysNo
      else if sat_add u64_max latest_slot (FreeHeadersInterval cfg) \<le> slot (finalized_header u) then PaysNo
      else PaysYes)"

definition apply_update ::
  "('k, 'a, 's) ec_config \<Rightarrow> update \<Rightarrow> 'k ec_state \<Rightarrow> ec_error + (pays \<times> 'k ec_state)" where
  "apply_update cfg u s =
     (case latest_finalized_state s of
        None \<Rightarrow> Inl NotBootstrapped
      | Some latest \<Rightarrow>
     (let pays_fee = check_refundable cfg u (cbs_slot latest) s in
      case
       (case u_next_sync_committee_update u of
          None \<Rightarrow> Inr s
        | Some n \<Rightarrow>
           (let store_period = compute_period (cbs_slot latest);
                update_finalized_period = compute_period (slot (finalized_header u)) in
            case sync_committee_prepared_try_from (ec_ssz cfg) (ec_bls cfg) (next_sync_committee n) of
              Inl _ \<Rightarrow> Inl BLSPreparePublicKeysFailed
            | Inr prepared \<Rightarrow>
               (case
                 (if NextSyncCommittee s = None
                  then if update_finalized_period \<noteq> store_period then Inl InvalidSyncCommitteeUpdate
                       else Inr (s\<lparr>NextSyncCommittee := Some prepared\<rparr>)
                  else if update_finalized_period = store_period + 1
                  then Inr (s\<lparr>CurrentSyncCommittee := next_sync_committee_get cfg s,
                              NextSyncCommittee := Some prepared\<rparr>)
                  else Inr s) of
                  Inl e \<Rightarrow> Inl e
                | Inr s1 \<Rightarrow>
                    Inr (ec_deposit (SyncCommitteeUpdated update_finalized_period)
                          (s1\<lparr>LatestSyncCommitteeUpdatePeriod := update_finalized_period\<rparr>))))) of
        Inl e \<Rightarrow> Inl e
      | Inr s2 \<Rightarrow>
          if cbs_slot latest < slot (finalized_header u)
          then case store_finalized_header cfg (finalized_header u) (block_roots_root u) s2 of
                 Inl e \<Rightarrow> Inl e
               | Inr s3 \<Rightarrow> Inr (pays_fee, s3)
          else Inr (pays_fee, s2)))"

definition process_update ::
  "('k, 'a, 's) ec_config \<Rightarrow> update \<Rightarrow> 'k ec_state \<Rightarrow> ec_error + (pays \<times> 'k ec_state)" where
  "process_update cfg u s =
     (case verify_update cfg u s of Inl e \<Rightarrow> Inl e | Inr _ \<Rightarrow> apply_update cfg u s)"

section \<open>Dispatchables\<close>

definition force_checkpoint ::
  "('k, 'a, 's) ec_config \<Rightarrow> origin \<Rightarrow> checkpoint_update \<Rightarrow> 'k ec_state \<Rightarrow> ec_error + 'k ec_state" where
  "force_checkpoint cfg og u s =
     (if ensure_root og then process_checkpoint_update cfg u s else Inl EcBadOrigin)"

definition ec_submit ::
  "('k, 'a, 's) ec_config \<Rightarrow> origin \<Rightarrow> update \<Rightarrow> 'k ec_state \<Rightarrow> ec_error + (pays \<times> 'k ec_state)" where
  "ec_submit cfg og u s =
     (case og of
        SignedOrigin _ \<Rightarrow> if is_halted (ec_OperatingMode s) then Inl EcHalted else process_update cfg u s
      | _ \<Rightarrow> Inl EcBadOrigin)"

definition ec_set_operating_mode :: "origin \<Rightarrow> basic_operating_mode \<Rightarrow> 'k ec_state \<Rightarrow> ec_error + 'k ec_state" where
  "ec_set_operating_mode og mode s =
     (if ensure_root og then Inr (ec_deposit (EcOperatingModeChanged mode) (s\<lparr>ec_OperatingMode := mode\<rparr>))
      else Inl EcBadOrigin)"

section \<open>Verification of event logs\<close>

text \<open>A \<open>Result<(), E>\<close> is the error, or \<^term>\<open>None\<close>.\<close>

definition verify_receipt_inclusion ::
  "('k, 'a, 's) ec_config \<Rightarrow> H256 \<Rightarrow> byte list list \<Rightarrow> verification_error + receipt" where
  "verify_receipt_inclusion cfg rroot nodes =
     (case verify_receipt_proof (ec_rlp cfg) (keccak_256 cfg) rroot nodes of
        None \<Rightarrow> Inl InvalidProof
      | Some None \<Rightarrow> Inl InvalidProof
      | Some (Some r) \<Rightarrow> Inr r)"

definition verify_ancestry_proof ::
  "('k, 'a, 's) ec_config \<Rightarrow> H256 \<Rightarrow> nat \<Rightarrow> H256 list \<Rightarrow> H256 \<Rightarrow> 'k ec_state \<Rightarrow> ec_error option" where
  "verify_ancestry_proof cfg block_root block_slot block_root_proof fin_root s =
     (case finalized_state fin_root s of
        None \<Rightarrow> Some ExpectedFinalizedHeaderNotStored
      | Some st \<Rightarrow>
          if \<not> block_slot < cbs_slot st then Some HeaderNotFinalized
          else let index_in_array = block_slot mod SLOTS_PER_HISTORICAL_ROOT;
                   leaf_index = SLOTS_PER_HISTORICAL_ROOT + index_in_array in
            if verify_merkle_branch (sha2_256 cfg) block_root block_root_proof leaf_index
                 BLOCK_ROOT_AT_INDEX_DEPTH (cbs_block_roots_root st)
            then None else Some InvalidAncestryMerkleProof)"

definition verify_execution_proof ::
  "('k, 'a, 's) ec_config \<Rightarrow> execution_proof \<Rightarrow> 'k ec_state \<Rightarrow> ec_error option" where
  "verify_execution_proof cfg xp s =
     (case latest_finalized_state s of
        None \<Rightarrow> Some NotBootstrapped
      | Some latest \<Rightarrow>
      if \<not> slot (xp_header xp) \<le> cbs_slot latest then Some HeaderNotFinalized
      else case header_root (ec_ssz cfg) (xp_header xp) of
        None \<Rightarrow> Some HeaderHashTreeRootFailed
      | Some beacon_block_root \<Rightarrow>
      (case
        (case xp_ancestry_proof xp of
           Some ap \<Rightarrow> verify_ancestry_proof cfg beacon_block_root (slot (xp_header xp)) (header_branch ap)
                        (finalized_block_root ap) s
         | None \<Rightarrow>
             (case finalized_state beacon_block_root s of
                None \<Rightarrow> Some ExpectedFinalizedHeaderNotStored
              | Some st \<Rightarrow>
                  if slot (xp_header xp) \<noteq> cbs_slot st then Some ExpectedFinalizedHeaderNotStored else None)) of
         Some e \<Rightarrow> Some e
       | None \<Rightarrow>
           (case payload_root (ec_ssz cfg) (xp_execution_header xp) of
              None \<Rightarrow> Some BlockBodyHashTreeRootFailed
            | Some execution_header_root \<Rightarrow>
                if verify_merkle_branch (sha2_256 cfg) execution_header_root (xp_execution_branch xp)
                     (subtree_index execution_header_gindex) (generalized_index_length execution_header_gindex)
                     (body_root (xp_header xp))
                then None else Some InvalidExecutionHeaderProof)))"

definition ec_verify ::
  "('k, 'a, 's) ec_config \<Rightarrow> event_log \<Rightarrow> inclusion_proof \<Rightarrow> 'k ec_state \<Rightarrow> verification_error option" where
  "ec_verify cfg lg ip s =
     (case verify_execution_proof cfg (ip_execution_proof ip) s of
        Some e \<Rightarrow> Some (InvalidExecutionProof (ec_error_str cfg e))
      | None \<Rightarrow>
          (case verify_receipt_inclusion cfg (receipts_root (xp_execution_header (ip_execution_proof ip)))
                  (snd (receipt_proof ip)) of
             Inl e \<Rightarrow> Some e
           | Inr r \<Rightarrow>
               if \<not> log_validate lg then Some InvalidLog
               else if \<not> contains_log r lg then Some LogNotFound
               else None))"

section \<open>The transition system\<close>

datatype ec_call =
    ForceCheckpoint origin checkpoint_update
  | SubmitUpdate origin update
  | SetMode origin basic_operating_mode

text \<open>A call that fails is rolled back.\<close>

definition ec_exec :: "('k, 'a, 's) ec_config \<Rightarrow> 'k ec_state \<Rightarrow> ec_call \<Rightarrow> 'k ec_state" where
  "ec_exec cfg s call =
     (case call of
        ForceCheckpoint og u \<Rightarrow> (case force_checkpoint cfg og u s of Inl _ \<Rightarrow> s | Inr s' \<Rightarrow> s')
      | SubmitUpdate og u \<Rightarrow> (case ec_submit cfg og u s of Inl _ \<Rightarrow> s | Inr (_, s') \<Rightarrow> s')
      | SetMode og m \<Rightarrow> (case ec_set_operating_mode og m s of Inl _ \<Rightarrow> s | Inr s' \<Rightarrow> s'))"

definition ec_run :: "('k, 'a, 's) ec_config \<Rightarrow> ec_call list \<Rightarrow> 'k ec_state" where
  "ec_run cfg calls = foldl (ec_exec cfg) (ec_genesis cfg) calls"

section \<open>Lemmas\<close>

subsection \<open>Periods\<close>

lemma compute_period_eq: "compute_period s = s div 8192"
  by (simp add: compute_period_def SLOTS_PER_EPOCH_def EPOCHS_PER_SYNC_COMMITTEE_PERIOD_def div_mult2_eq [symmetric])

lemma compute_period_mono: "a \<le> b \<Longrightarrow> compute_period a \<le> compute_period b"
  by (simp add: compute_period_eq div_le_mono)

lemma compute_period_window: "b \<le> a + 8192 \<Longrightarrow> compute_period b \<le> compute_period a + 1"
  using div_le_mono [of b "a + 8192" 8192] by (simp add: compute_period_eq)

lemma compute_period_less: "compute_period a < compute_period b \<Longrightarrow> a < b"
  using compute_period_mono [of b a] by (meson not_le)

subsection \<open>What an accepted update has passed\<close>

definition signing_committee :: "('k, 'a, 's) ec_config \<Rightarrow> update \<Rightarrow> compact_beacon_state \<Rightarrow> 'k ec_state \<Rightarrow> 'k sync_committee_prepared" where
  "signing_committee cfg u latest s =
     (if compute_period (signature_slot u) = compute_period (cbs_slot latest) then CurrentSyncCommittee s
      else next_sync_committee_get cfg s)"

definition participation :: "('k, 'a, 's) ec_config \<Rightarrow> update \<Rightarrow> nat list" where
  "participation cfg u = decompress_sync_committee_bits (ec_ssz cfg) (sync_committee_bits (u_sync_aggregate u))"

definition signed_by :: "('k, 'a, 's) ec_config \<Rightarrow> update \<Rightarrow> H256 \<Rightarrow> 'k sync_committee_prepared \<Rightarrow> bool" where
  "signed_by cfg u vroot committee \<longleftrightarrow>
     (\<exists>root. signing_root cfg (attested_header u) vroot (signature_slot u) = Inr root \<and>
       fast_aggregate_verify (ec_bls cfg) (scp_aggregate_pubkey committee)
         (find_pubkeys (participation cfg u) (scp_pubkeys committee) False) root
         (sync_committee_signature (u_sync_aggregate u)) = Inr ())"

lemma verify_update_supermajority:
  "verify_update cfg u s = Inr () \<Longrightarrow> sync_committee_participation_is_supermajority (participation cfg u)"
  by (auto simp: verify_update_def Let_def participation_def split: if_splits)

lemma verify_update_slots:
  "verify_update cfg u s = Inr () \<Longrightarrow>
   slot (attested_header u) < signature_slot u \<and> slot (finalized_header u) \<le> slot (attested_header u)"
  by (auto simp: verify_update_def Let_def split: if_splits)

lemma verify_update_latest:
  assumes "verify_update cfg u s = Inr ()"
  obtains latest where "latest_finalized_state s = Some latest"
    "if NextSyncCommittee s \<noteq> None
     then compute_period (cbs_slot latest) \<le> compute_period (signature_slot u) \<and>
          compute_period (signature_slot u) \<le> compute_period (cbs_slot latest) + 1
     else compute_period (signature_slot u) = compute_period (cbs_slot latest)"
    "slot (finalized_header u) \<le> sat_add u64_max (cbs_slot latest) SLOTS_PER_HISTORICAL_ROOT"
    "u_next_sync_committee_update u = None \<longrightarrow>
       compute_period (slot (finalized_header u)) = compute_period (cbs_slot latest)"
    "signed_by cfg u (ValidatorsRoot s) (signing_committee cfg u latest s)"
proof -
  from assms obtain latest where latest: "latest_finalized_state s = Some latest"
    by (auto simp: verify_update_def Let_def split: if_splits option.splits)
  have a: "if NextSyncCommittee s \<noteq> None
     then compute_period (cbs_slot latest) \<le> compute_period (signature_slot u) \<and>
          compute_period (signature_slot u) \<le> compute_period (cbs_slot latest) + 1
     else compute_period (signature_slot u) = compute_period (cbs_slot latest)"
    by (rule ccontr) (use assms latest in \<open>simp add: verify_update_def Let_def split: if_splits\<close>)
  have b: "slot (finalized_header u) \<le> sat_add u64_max (cbs_slot latest) SLOTS_PER_HISTORICAL_ROOT"
    by (rule ccontr) (use assms latest in \<open>simp add: verify_update_def Let_def split: if_splits\<close>)
  have c: "u_next_sync_committee_update u = None \<longrightarrow>
       compute_period (slot (finalized_header u)) = compute_period (cbs_slot latest)"
    using assms latest by (auto simp: verify_update_def Let_def split: if_splits option.splits)
  have d: "signed_by cfg u (ValidatorsRoot s) (signing_committee cfg u latest s)"
    using assms latest
    by (auto simp: verify_update_def Let_def signed_by_def signing_committee_def participation_def
        split: if_splits option.splits sum.splits)
  show thesis by (rule that [OF latest a b c d])
qed

text \<open>The two branches checked against the attested and the finalized state.\<close>

definition block_roots_proven :: "('k, 'a, 's) ec_config \<Rightarrow> beacon_header \<Rightarrow> H256 \<Rightarrow> H256 list \<Rightarrow> bool" where
  "block_roots_proven cfg h brr branch \<longleftrightarrow>
     verify_merkle_branch (sha2_256 cfg) brr branch
       (subtree_index (block_roots_gindex_at_slot (slot h) (ForkVersions cfg)))
       (generalized_index_length (block_roots_gindex_at_slot (slot h) (ForkVersions cfg))) (state_root h)"

definition finality_proven :: "('k, 'a, 's) ec_config \<Rightarrow> update \<Rightarrow> H256 \<Rightarrow> bool" where
  "finality_proven cfg u root \<longleftrightarrow>
     verify_merkle_branch (sha2_256 cfg) root (finality_branch u)
       (subtree_index (finalized_root_gindex_at_slot (slot (attested_header u)) (ForkVersions cfg)))
       (generalized_index_length (finalized_root_gindex_at_slot (slot (attested_header u)) (ForkVersions cfg)))
       (state_root (attested_header u))"

lemma verify_update_branches:
  assumes "verify_update cfg u s = Inr ()"
  shows "\<exists>root. header_root (ec_ssz cfg) (finalized_header u) = Some root \<and> finality_proven cfg u root \<and>
    block_roots_proven cfg (finalized_header u) (block_roots_root u) (block_roots_branch u)"
proof -
  from assms obtain latest root where "latest_finalized_state s = Some latest"
      "header_root (ec_ssz cfg) (finalized_header u) = Some root"
    by (auto simp: verify_update_def Let_def split: if_splits option.splits)
  with assms show ?thesis
    by (auto simp: verify_update_def Let_def finality_proven_def block_roots_proven_def split: if_splits)
qed

text \<open>The committee that an update or a checkpoint presents is proven against the state of its header.\<close>

definition committee_proven ::
  "('k, 'a, 's) ec_config \<Rightarrow> beacon_header \<Rightarrow> nat \<Rightarrow> sync_committee \<Rightarrow> H256 list \<Rightarrow> bool" where
  "committee_proven cfg h g sc branch \<longleftrightarrow>
     (\<exists>root. committee_root (ec_ssz cfg) sc = Some root \<and>
       verify_merkle_branch (sha2_256 cfg) root branch (subtree_index g) (generalized_index_length g) (state_root h))"

lemma verify_update_next_committee:
  assumes "verify_update cfg u s = Inr ()" and "u_next_sync_committee_update u = Some n"
  shows "committee_proven cfg (attested_header u)
    (next_sync_committee_gindex_at_slot (slot (attested_header u)) (ForkVersions cfg))
    (next_sync_committee n) (next_sync_committee_branch n)"
proof -
  from assms obtain latest where "latest_finalized_state s = Some latest" by (auto elim: verify_update_latest)
  with assms show ?thesis
    by (auto simp: verify_update_def Let_def committee_proven_def split: if_splits option.splits)
qed

subsection \<open>Storing headers\<close>

lemma store_finalized_header_latest:
  assumes "store_finalized_header cfg h brr s = Inr s'"
  shows "latest_finalized_state s' = Some \<lparr>cbs_slot = slot h, cbs_block_roots_root = brr\<rparr>"
  using assms by (auto simp: store_finalized_header_def ec_deposit_def rm_get_insert split: option.splits)

lemma store_finalized_header_fields:
  assumes "store_finalized_header cfg h brr s = Inr s'"
  shows "CurrentSyncCommittee s' = CurrentSyncCommittee s" "NextSyncCommittee s' = NextSyncCommittee s"
    "ValidatorsRoot s' = ValidatorsRoot s" "ec_OperatingMode s' = ec_OperatingMode s"
    "LatestSyncCommitteeUpdatePeriod s' = LatestSyncCommitteeUpdatePeriod s"
  using assms by (auto simp: store_finalized_header_def ec_deposit_def split: option.splits)

lemma store_finalized_header_ring:
  assumes "store_finalized_header cfg h brr s = Inr s'"
  shows "\<exists>root. header_root (ec_ssz cfg) h = Some root \<and> LatestFinalizedBlockRoot s' = root \<and>
    FinalizedBeaconState s' = rm_insert MaxFinalizedHeadersToKeep root
      \<lparr>cbs_slot = slot h, cbs_block_roots_root = brr\<rparr> (FinalizedBeaconState s)"
  using assms by (auto simp: store_finalized_header_def ec_deposit_def split: option.splits)

subsection \<open>The effect of an update\<close>

text \<open>The state before the header is stored: only the committees, the period and the events differ.\<close>

definition committees_after ::
  "('k, 'a, 's) ec_config \<Rightarrow> update \<Rightarrow> compact_beacon_state \<Rightarrow> 'k ec_state \<Rightarrow> 'k ec_state \<Rightarrow> bool" where
  "committees_after cfg u latest s s' \<longleftrightarrow>
     (case u_next_sync_committee_update u of
        None \<Rightarrow> CurrentSyncCommittee s' = CurrentSyncCommittee s \<and> NextSyncCommittee s' = NextSyncCommittee s
      | Some n \<Rightarrow>
          (\<exists>prepared. sync_committee_prepared_try_from (ec_ssz cfg) (ec_bls cfg) (next_sync_committee n) = Inr prepared \<and>
            (case NextSyncCommittee s of
               None \<Rightarrow> compute_period (slot (finalized_header u)) = compute_period (cbs_slot latest) \<and>
                 CurrentSyncCommittee s' = CurrentSyncCommittee s \<and> NextSyncCommittee s' = Some prepared
             | Some nxt \<Rightarrow>
                 if compute_period (slot (finalized_header u)) = compute_period (cbs_slot latest) + 1
                 then CurrentSyncCommittee s' = nxt \<and> NextSyncCommittee s' = Some prepared
                 else CurrentSyncCommittee s' = CurrentSyncCommittee s \<and> NextSyncCommittee s' = NextSyncCommittee s)))"

lemma apply_update_cases:
  assumes "apply_update cfg u s = Inr (p, s')" and latest: "latest_finalized_state s = Some latest"
  obtains s2 where "committees_after cfg u latest s s2"
    "ValidatorsRoot s2 = ValidatorsRoot s" "FinalizedBeaconState s2 = FinalizedBeaconState s"
    "LatestFinalizedBlockRoot s2 = LatestFinalizedBlockRoot s"
    "if cbs_slot latest < slot (finalized_header u)
     then store_finalized_header cfg (finalized_header u) (block_roots_root u) s2 = Inr s' else s' = s2"
proof (cases "u_next_sync_committee_update u")
  case None
  with assms show thesis
    by (intro that [of s]) (auto simp: apply_update_def committees_after_def Let_def split: if_splits sum.splits)
next
  case (Some n)
  with assms obtain prepared where prepared:
      "sync_committee_prepared_try_from (ec_ssz cfg) (ec_bls cfg) (next_sync_committee n) = Inr prepared"
    by (auto simp: apply_update_def Let_def split: sum.splits)
  let ?fp = "compute_period (slot (finalized_header u))"
  let ?upd = "\<lambda>s1. ec_deposit (SyncCommitteeUpdated ?fp) (s1\<lparr>LatestSyncCommitteeUpdatePeriod := ?fp\<rparr>)"
  let ?s1 = "if NextSyncCommittee s = None then s\<lparr>NextSyncCommittee := Some prepared\<rparr>
    else if ?fp = compute_period (cbs_slot latest) + 1
    then s\<lparr>CurrentSyncCommittee := next_sync_committee_get cfg s, NextSyncCommittee := Some prepared\<rparr> else s"
  show thesis
    using assms Some prepared
    by (intro that [of "?upd ?s1"])
      (auto simp: apply_update_def committees_after_def ec_deposit_def Let_def next_sync_committee_get_def
        split: if_splits sum.splits option.splits)
qed

lemma apply_update_period:
  assumes "apply_update cfg u s = Inr (p, s')" and "u_next_sync_committee_update u \<noteq> None"
  shows "LatestSyncCommitteeUpdatePeriod s' = compute_period (slot (finalized_header u))"
  using assms
  by (auto simp: apply_update_def ec_deposit_def Let_def store_finalized_header_def split: if_splits sum.splits option.splits)

lemma ec_submit_cases:
  assumes "ec_submit cfg og u s = Inr (p, s')"
  obtains "verify_update cfg u s = Inr ()" "apply_update cfg u s = Inr (p, s')"
  using assms by (auto simp: ec_submit_def process_update_def split: origin.splits if_splits sum.splits)

lemma ec_submit_latest:
  assumes "ec_submit cfg og u s = Inr (p, s')"
  obtains latest s2 where "latest_finalized_state s = Some latest" "committees_after cfg u latest s s2"
    "CurrentSyncCommittee s' = CurrentSyncCommittee s2" "NextSyncCommittee s' = NextSyncCommittee s2"
    "latest_finalized_state s' =
       (if cbs_slot latest < slot (finalized_header u)
        then Some \<lparr>cbs_slot = slot (finalized_header u), cbs_block_roots_root = block_roots_root u\<rparr> else Some latest)"
    "if cbs_slot latest < slot (finalized_header u)
     then store_finalized_header cfg (finalized_header u) (block_roots_root u) s2 = Inr s' else s' = s2"
    "FinalizedBeaconState s2 = FinalizedBeaconState s" "LatestFinalizedBlockRoot s2 = LatestFinalizedBlockRoot s"
proof -
  from assms have v: "verify_update cfg u s = Inr ()" and a: "apply_update cfg u s = Inr (p, s')"
    by (auto elim: ec_submit_cases)
  from v obtain latest where latest: "latest_finalized_state s = Some latest" by (rule verify_update_latest)
  from a latest show thesis
  proof (cases rule: apply_update_cases)
    case (1 s2)
    show thesis
    proof (cases "cbs_slot latest < slot (finalized_header u)")
      case True
      with 1 have st: "store_finalized_header cfg (finalized_header u) (block_roots_root u) s2 = Inr s'" by simp
      show thesis
        by (rule that [of latest s2])
          (use latest 1 True store_finalized_header_latest [OF st] store_finalized_header_fields [OF st] in auto)
    next
      case False
      show thesis by (rule that [of latest s2]) (use latest 1 False in auto)
    qed
  qed
qed

lemma process_checkpoint_update_cases:
  assumes "process_checkpoint_update cfg u s = Inr s'"
  obtains hr prepared where "header_root (ec_ssz cfg) (cu_header u) = Some hr"
    "block_roots_proven cfg (cu_header u) (cu_block_roots_root u) (cu_block_roots_branch u)"
    "sync_committee_prepared_try_from (ec_ssz cfg) (ec_bls cfg) (cu_current_sync_committee u) = Inr prepared"
    "store_finalized_header cfg (cu_header u) (cu_block_roots_root u)
       (store_validators_root (cu_validators_root u)
         (s\<lparr>CurrentSyncCommittee := prepared, NextSyncCommittee := None, InitialCheckpointRoot := hr\<rparr>)) = Inr s'"
    "committee_proven cfg (cu_header u) (current_sync_committee_gindex_at_slot (slot (cu_header u)) (ForkVersions cfg))
       (cu_current_sync_committee u) (cu_current_sync_committee_branch u)"
  using assms
  by (auto simp: process_checkpoint_update_def block_roots_proven_def committee_proven_def Let_def
      split: option.splits if_splits sum.splits)

lemma ec_exec_cases [consumes 1, case_names unchanged checkpoint submitted mode_set]:
  assumes "s' = ec_exec cfg s call"
  obtains "s' = s"
  | og u where "call = ForceCheckpoint og u" "ensure_root og" "process_checkpoint_update cfg u s = Inr s'"
  | og u p where "call = SubmitUpdate og u" "ec_submit cfg og u s = Inr (p, s')"
  | og m where "call = SetMode og m" "s' = ec_deposit (EcOperatingModeChanged m) (s\<lparr>ec_OperatingMode := m\<rparr>)"
  using assms
  by (cases call)
    (auto simp: ec_exec_def force_checkpoint_def ec_set_operating_mode_def split: sum.splits if_splits)

lemma ec_run_induct:
  assumes "P (ec_genesis cfg)" and "\<And>s call. call \<in> set calls \<Longrightarrow> P s \<Longrightarrow> P (ec_exec cfg s call)"
  shows "P (ec_run cfg calls)"
  using assms(2)
  by (induction calls rule: rev_induct) (auto simp: ec_run_def assms(1))

subsection \<open>The stored states\<close>

text \<open>
  Every stored state belongs to a header whose root is its key and whose state root commits to
  the stored root of block roots; the latest root is among the keys; the ring is well-formed.
\<close>

definition ec_inv :: "('k, 'a, 's) ec_config \<Rightarrow> 'k ec_state \<Rightarrow> bool" where
  "ec_inv cfg s \<longleftrightarrow> rm_ok MaxFinalizedHeadersToKeep (FinalizedBeaconState s) \<and>
     (\<forall>root st. finalized_state root s = Some st \<longrightarrow>
       (\<exists>h branch. header_root (ec_ssz cfg) h = Some root \<and> slot h = cbs_slot st \<and>
          block_roots_proven cfg h (cbs_block_roots_root st) branch)) \<and>
     (dom (rm_entries (FinalizedBeaconState s)) \<noteq> {} \<longrightarrow> latest_finalized_state s \<noteq> None)"

lemma rm_get_insertD:
  "rm_get k (rm_insert bound k' v r) = Some w \<Longrightarrow> (k = k' \<and> w = v) \<or> rm_get k r = Some w"
  by (auto simp: rm_get_def rm_insert_def Let_def split: if_splits option.splits)

lemma store_finalized_header_inv:
  assumes "ec_inv cfg s" and "store_finalized_header cfg h brr s = Inr s'" and "block_roots_proven cfg h brr branch"
  shows "ec_inv cfg s'"
proof -
  from store_finalized_header_ring [OF assms(2)] obtain root where
      root: "header_root (ec_ssz cfg) h = Some root" "LatestFinalizedBlockRoot s' = root"
      "FinalizedBeaconState s' = rm_insert MaxFinalizedHeadersToKeep root
        \<lparr>cbs_slot = slot h, cbs_block_roots_root = brr\<rparr> (FinalizedBeaconState s)"
    by blast
  have "\<exists>h branch. header_root (ec_ssz cfg) h = Some k \<and> slot h = cbs_slot st \<and>
      block_roots_proven cfg h (cbs_block_roots_root st) branch"
    if get: "finalized_state k s' = Some st" for k st
  proof -
    have "k = root \<and> st = \<lparr>cbs_slot = slot h, cbs_block_roots_root = brr\<rparr> \<or> finalized_state k s = Some st"
      using rm_get_insertD get root(3) by metis
    then show ?thesis
    proof
      assume "finalized_state k s = Some st"
      with assms(1) show ?thesis by (simp add: ec_inv_def)
    qed (use root(1) assms(3) in auto)
  qed
  moreover have "rm_ok MaxFinalizedHeadersToKeep (FinalizedBeaconState s')"
    using assms(1) root(3) by (simp add: ec_inv_def rm_ok_insert)
  ultimately show ?thesis
    using store_finalized_header_latest [OF assms(2)] by (simp add: ec_inv_def)
qed

lemma ec_genesis_inv: "ec_inv cfg (ec_genesis cfg)"
proof -
  have "0 < MaxFinalizedHeadersToKeep" by (simp add: MaxFinalizedHeadersToKeep_def EPOCHS_PER_SYNC_COMMITTEE_PERIOD_def)
  then show ?thesis using rm_ok_empty by (auto simp: ec_inv_def ec_genesis_def rm_get_def rm_empty_def)
qed

lemma ec_exec_inv:
  assumes "ec_inv cfg s"
  shows "ec_inv cfg (ec_exec cfg s call)"
  using refl [of "ec_exec cfg s call"]
proof (cases rule: ec_exec_cases)
  case unchanged
  with assms show ?thesis by simp
next
  case (checkpoint og u)
  from checkpoint(3) show ?thesis
  proof (cases rule: process_checkpoint_update_cases)
    case (1 hr prepared)
    show ?thesis
      by (rule store_finalized_header_inv [OF _ 1(4,2)])
        (use assms in \<open>simp add: store_validators_root_def ec_inv_def\<close>)
  qed
next
  case (submitted og u p)
  from submitted(2) have "verify_update cfg u s = Inr ()" by (rule ec_submit_cases)
  then have br: "block_roots_proven cfg (finalized_header u) (block_roots_root u) (block_roots_branch u)"
    using verify_update_branches by blast
  from submitted(2) show ?thesis
  proof (cases rule: ec_submit_latest)
    case (1 latest s2)
    then have "ec_inv cfg s2" using assms by (simp add: ec_inv_def)
    with 1(6) store_finalized_header_inv [OF _ _ br] show ?thesis by (auto split: if_splits)
  qed
next
  case (mode_set og m)
  with assms show ?thesis by (simp add: ec_inv_def ec_deposit_def)
qed

lemma ec_run_inv: "ec_inv cfg (ec_run cfg calls)"
  by (rule ec_run_induct) (simp_all add: ec_genesis_inv ec_exec_inv)

subsection \<open>The beacon chain\<close>

text \<open>
  The chain that the client follows: which headers belong to it, the committee of each period, the root of the
  block that the state of a header has finalized, and for a node of the state tree of a header, given by its generalized
  index, the siblings on the way to the state root.
\<close>

record beacon_chain =
  bc_header :: "beacon_header \<Rightarrow> bool"
  bc_committee :: "nat \<Rightarrow> sync_committee"
  bc_finalized :: "beacon_header \<Rightarrow> H256"
  bc_branch :: "beacon_header \<Rightarrow> nat \<Rightarrow> H256 list"
  bc_validators_root :: H256

definition state_node :: "('k, 'a, 's) ec_config \<Rightarrow> beacon_chain \<Rightarrow> beacon_header \<Rightarrow> nat \<Rightarrow> H256 \<Rightarrow> bool" where
  "state_node cfg B h g root \<longleftrightarrow> length (bc_branch B h g) = generalized_index_length g \<and>
     compute_merkle_root (sha2_256 cfg) root (bc_branch B h g) (subtree_index g) = state_root h"

text \<open>
  What the consensus specification says of the state of a header at slot \<open>s\<close>: it holds the committees of the
  period of \<open>s\<close> and of the one after it and the finalized root, at indices that changed with Electra.
\<close>

definition electra_at :: "('k, 'a, 's) ec_config \<Rightarrow> nat \<Rightarrow> bool" where
  "electra_at cfg sl \<longleftrightarrow> fork_epoch (fv_electra (ForkVersions cfg)) \<le> sl div 32"

definition chain_ok :: "('k, 'a, 's) ec_config \<Rightarrow> beacon_chain \<Rightarrow> bool" where
  "chain_ok cfg B \<longleftrightarrow> (\<forall>h. bc_header B h \<longrightarrow>
     (\<exists>root. committee_root (ec_ssz cfg) (bc_committee B (slot h div 8192)) = Some root \<and>
       state_node cfg B h (if electra_at cfg (slot h) then 86 else 54) root) \<and>
     (\<exists>root. committee_root (ec_ssz cfg) (bc_committee B (slot h div 8192 + 1)) = Some root \<and>
       state_node cfg B h (if electra_at cfg (slot h) then 87 else 55) root) \<and>
     state_node cfg B h (if electra_at cfg (slot h) then 169 else 105) (bc_finalized B h))"

text \<open>
  Nothing collides for one presented branch: neither the hash on the buffers of the presented branch and of the
  chain's own branch at that index, nor the root of a presented committee with that of the chain's.
\<close>

definition branch_free :: "('k, 'a, 's) ec_config \<Rightarrow> beacon_chain \<Rightarrow> beacon_header \<Rightarrow> nat \<Rightarrow> H256 \<Rightarrow> H256 \<Rightarrow> H256 list \<Rightarrow> bool" where
  "branch_free cfg B h g root presented branch \<longleftrightarrow>
     inj_on (sha2_256 cfg) (branch_buffers (sha2_256 cfg) (subtree_index g) root (bc_branch B h g) \<union>
       branch_buffers (sha2_256 cfg) (subtree_index g) presented branch)"

definition committee_free ::
  "('k, 'a, 's) ec_config \<Rightarrow> beacon_chain \<Rightarrow> beacon_header \<Rightarrow> nat \<Rightarrow> nat \<Rightarrow> sync_committee \<Rightarrow> H256 list \<Rightarrow> bool" where
  "committee_free cfg B h g p sc branch \<longleftrightarrow>
     branch_free cfg B h g (the (committee_root (ec_ssz cfg) (bc_committee B p))) (the (committee_root (ec_ssz cfg) sc)) branch \<and>
     inj_on (committee_root (ec_ssz cfg)) {sc, bc_committee B p}"

abbreviation prepares :: "('k, 'a, 's) ec_config \<Rightarrow> beacon_chain \<Rightarrow> nat \<Rightarrow> 'k sync_committee_prepared \<Rightarrow> bool" where
  "prepares cfg B p c \<equiv> sync_committee_prepared_try_from (ec_ssz cfg) (ec_bls cfg) (bc_committee B p) = Inr c"

text \<open>
  What is assumed of a call. A checkpoint that the root origin forces is the header of a block of the chain with the
  chain's validators root. Of an update nothing is assumed but that no two thirds of a committee of the chain sign a header that is not
  one of the chain: if the signature verifies for the committee of the signature slot's period, the attested header belongs to the chain.
  The committees, branches and finalized headers that the calls present may be arbitrary, as long as nothing collides.
\<close>

definition honest_call :: "('k, 'a, 's) ec_config \<Rightarrow> beacon_chain \<Rightarrow> ec_call \<Rightarrow> bool" where
  "honest_call cfg B call =
     (case call of
        ForceCheckpoint og u \<Rightarrow> ensure_root og \<longrightarrow>
          bc_header B (cu_header u) \<and> cu_validators_root u = bc_validators_root B
      | SubmitUpdate og u \<Rightarrow>
          (\<forall>c. prepares cfg B (signature_slot u div 8192) c \<longrightarrow>
             2 * length (participation cfg u) \<le> 3 * sum_list (participation cfg u) \<longrightarrow>
             signed_by cfg u (bc_validators_root B) c \<longrightarrow> bc_header B (attested_header u))
      | SetMode og m \<Rightarrow> True)"

definition free_call :: "('k, 'a, 's) ec_config \<Rightarrow> beacon_chain \<Rightarrow> ec_call \<Rightarrow> bool" where
  "free_call cfg B call =
     (case call of
        ForceCheckpoint og u \<Rightarrow> bc_header B (cu_header u) \<longrightarrow>
          committee_free cfg B (cu_header u) (if electra_at cfg (slot (cu_header u)) then 86 else 54)
            (slot (cu_header u) div 8192) (cu_current_sync_committee u) (cu_current_sync_committee_branch u)
      | SubmitUpdate og u \<Rightarrow> bc_header B (attested_header u) \<longrightarrow>
          branch_free cfg B (attested_header u) (if electra_at cfg (slot (attested_header u)) then 169 else 105)
            (bc_finalized B (attested_header u)) (the (header_root (ec_ssz cfg) (finalized_header u))) (finality_branch u) \<and>
          (case u_next_sync_committee_update u of
             None \<Rightarrow> True
           | Some n \<Rightarrow>
               committee_free cfg B (attested_header u) (if electra_at cfg (slot (attested_header u)) then 87 else 55)
                 (slot (attested_header u) div 8192 + 1) (next_sync_committee n) (next_sync_committee_branch n))
      | SetMode og m \<Rightarrow> True)"

lemma gindex_at_slot:
  "current_sync_committee_gindex_at_slot sl (ForkVersions cfg) = (if electra_at cfg sl then 86 else 54)"
  "next_sync_committee_gindex_at_slot sl (ForkVersions cfg) = (if electra_at cfg sl then 87 else 55)"
  "finalized_root_gindex_at_slot sl (ForkVersions cfg) = (if electra_at cfg sl then 169 else 105)"
  by (simp_all add: current_sync_committee_gindex_at_slot_def next_sync_committee_gindex_at_slot_def
      finalized_root_gindex_at_slot_def electra_at_def compute_epoch_def SLOTS_PER_EPOCH_def
      electra_CURRENT_SYNC_COMMITTEE_INDEX_def altair_CURRENT_SYNC_COMMITTEE_INDEX_def electra_NEXT_SYNC_COMMITTEE_INDEX_def
      altair_NEXT_SYNC_COMMITTEE_INDEX_def electra_FINALIZED_ROOT_INDEX_def altair_FINALIZED_ROOT_INDEX_def)

text \<open>A branch that verifies against the state of a header of the chain is for the chain's own node.\<close>

lemma proven_node:
  assumes "state_node cfg B h g root" "branch_free cfg B h g root presented branch"
    and "verify_merkle_branch (sha2_256 cfg) presented branch (subtree_index g) (generalized_index_length g) (state_root h)"
  shows "presented = root"
proof (rule branches_agree)
  show "length branch = length (bc_branch B h g)"
    "compute_merkle_root (sha2_256 cfg) presented branch (subtree_index g) =
     compute_merkle_root (sha2_256 cfg) root (bc_branch B h g) (subtree_index g)"
    using assms(1,3) by (auto simp: state_node_def verify_merkle_branch_def split: if_splits)
  show "inj_on (sha2_256 cfg) (branch_buffers (sha2_256 cfg) (subtree_index g) presented branch \<union>
      branch_buffers (sha2_256 cfg) (subtree_index g) root (bc_branch B h g))"
    using assms(2) by (simp only: branch_free_def Un_commute)
qed

lemma proven_committee:
  assumes "committee_proven cfg h g sc branch" "committee_free cfg B h g p sc branch"
    and "committee_root (ec_ssz cfg) (bc_committee B p) = Some root" "state_node cfg B h g root"
  shows "sc = bc_committee B p"
proof -
  obtain r where r: "committee_root (ec_ssz cfg) sc = Some r"
      "verify_merkle_branch (sha2_256 cfg) r branch (subtree_index g) (generalized_index_length g) (state_root h)"
    using assms(1) by (auto simp: committee_proven_def)
  have "branch_free cfg B h g root r branch" and inj: "inj_on (committee_root (ec_ssz cfg)) {sc, bc_committee B p}"
    using assms(2,3) r(1) by (simp_all add: committee_free_def)
  then have "committee_root (ec_ssz cfg) sc = committee_root (ec_ssz cfg) (bc_committee B p)"
    using proven_node [OF assms(4) _ r(2)] r(1) assms(3) by simp
  then show ?thesis by (rule inj_onD [OF inj]) simp_all
qed

lemma chain_okD:
  assumes "chain_ok cfg B" "bc_header B h"
  obtains r r' where "committee_root (ec_ssz cfg) (bc_committee B (slot h div 8192)) = Some r"
    "state_node cfg B h (if electra_at cfg (slot h) then 86 else 54) r"
    "committee_root (ec_ssz cfg) (bc_committee B (slot h div 8192 + 1)) = Some r'"
    "state_node cfg B h (if electra_at cfg (slot h) then 87 else 55) r'"
    "state_node cfg B h (if electra_at cfg (slot h) then 169 else 105) (bc_finalized B h)"
  using assms unfolding chain_ok_def by blast

text \<open>The client holds the chain's committees of the finalized period and, if any, of the next one.\<close>

definition tracks :: "('k, 'a, 's) ec_config \<Rightarrow> beacon_chain \<Rightarrow> 'k ec_state \<Rightarrow> bool" where
  "tracks cfg B s \<longleftrightarrow>
     (case latest_finalized_state s of
        None \<Rightarrow> True
      | Some st \<Rightarrow> ValidatorsRoot s = bc_validators_root B \<and>
          prepares cfg B (compute_period (cbs_slot st)) (CurrentSyncCommittee s) \<and>
          (case NextSyncCommittee s of None \<Rightarrow> True | Some c \<Rightarrow> prepares cfg B (compute_period (cbs_slot st) + 1) c))"

lemma attested_period:
  assumes "verify_update cfg u s = Inr ()" and "latest_finalized_state s = Some latest"
  shows "compute_period (slot (finalized_header u)) \<le> compute_period (slot (attested_header u)) \<and>
    compute_period (slot (attested_header u)) \<le> compute_period (cbs_slot latest) + of_bool (NextSyncCommittee s \<noteq> None)"
proof -
  have "compute_period (slot (attested_header u)) \<le> compute_period (signature_slot u)"
    using verify_update_slots [OF assms(1)] by (simp add: compute_period_mono)
  moreover have "compute_period (signature_slot u) \<le> compute_period (cbs_slot latest) + of_bool (NextSyncCommittee s \<noteq> None)"
    using assms by (auto elim!: verify_update_latest split: if_splits)
  ultimately show ?thesis
    using verify_update_slots [OF assms(1)] by (auto intro: compute_period_mono)
qed

lemma sync_committee_sum_eq: "sync_committee_sum bits = sum_list bits"
proof -
  have "foldl (\<lambda>acc x. acc + x) a bits = a + sum_list bits" for a
    by (induction bits arbitrary: a) auto
  then show ?thesis by (simp add: sync_committee_sum_def)
qed

lemma ec_submit_validators_root:
  assumes "ec_submit cfg og u s = Inr (p, s')"
  shows "ValidatorsRoot s' = ValidatorsRoot s"
proof -
  from assms have a: "apply_update cfg u s = Inr (p, s')" by (rule ec_submit_cases)
  from assms obtain latest where "latest_finalized_state s = Some latest" by (rule ec_submit_latest)
  from a this show ?thesis
    by (cases rule: apply_update_cases) (auto dest: store_finalized_header_fields(3) split: if_splits)
qed

lemma submit_tracks:
  assumes tr: "tracks cfg B s" and ok: "ec_submit cfg og u s = Inr (p, s')"
    and nxt: "\<And>n. u_next_sync_committee_update u = Some n \<Longrightarrow>
      next_sync_committee n = bc_committee B (compute_period (slot (attested_header u)) + 1)"
  shows "tracks cfg B s'"
  using ok
proof (cases rule: ec_submit_latest)
  case (1 latest s2)
  from ok have v: "verify_update cfg u s = Inr ()" by (rule ec_submit_cases)
  note vr = ec_submit_validators_root [OF ok]
  let ?sp = "compute_period (cbs_slot latest)" and ?fp = "compute_period (slot (finalized_header u))"
    and ?ap = "compute_period (slot (attested_header u))"
  have ap: "?fp \<le> ?ap" "?ap \<le> ?sp + of_bool (NextSyncCommittee s \<noteq> None)"
    using attested_period [OF v 1(1)] by auto
  have fp: "?fp = ?sp" if "u_next_sync_committee_update u = None"
    using v 1(1) that by (auto elim!: verify_update_latest)
  have stored: "compute_period (cbs_slot (the (latest_finalized_state s'))) = max ?sp ?fp \<and> latest_finalized_state s' \<noteq> None"
    using 1(5) compute_period_mono by (simp add: max_def) (meson compute_period_less le_antisym not_le)
  show ?thesis
  proof (cases "u_next_sync_committee_update u")
    case None
    then show ?thesis
      using 1(1-5) tr fp stored vr by (auto simp: tracks_def committees_after_def split: option.splits)
  next
    case (Some n)
    with 1(2) obtain c where c: "sync_committee_prepared_try_from (ec_ssz cfg) (ec_bls cfg) (next_sync_committee n) = Inr c"
      by (auto simp: committees_after_def)
    with nxt [OF Some] have sched: "prepares cfg B (?ap + 1) c" by simp
    show ?thesis
    proof (cases "NextSyncCommittee s")
      case None
      then have "?fp = ?sp" "CurrentSyncCommittee s' = CurrentSyncCommittee s" "NextSyncCommittee s' = Some c"
        using 1(2-4) Some c by (auto simp: committees_after_def)
      moreover have "?ap = ?sp" using ap None calculation(1) by simp
      ultimately show ?thesis using tr 1(1) stored sched vr by (auto simp: tracks_def)
    next
      case nxt': (Some c')
      show ?thesis
      proof (cases "?fp = ?sp + 1")
        case True
        then have "?ap = ?sp + 1" using ap nxt' by simp
        with True show ?thesis
          using 1(1-4) Some c nxt' tr stored sched vr by (auto simp: tracks_def committees_after_def)
      next
        case False
        then have "?fp \<le> ?sp" using ap nxt' by simp
        with False show ?thesis
          using 1(1-4) Some c nxt' tr stored vr by (auto simp: tracks_def committees_after_def max_def)
      qed
    qed
  qed
qed

lemma tracks_signing_committee:
  assumes "tracks cfg B s" and "verify_update cfg u s = Inr ()"
  obtains c where "prepares cfg B (compute_period (signature_slot u)) c" "signed_by cfg u (bc_validators_root B) c"
  using assms(2)
proof (cases rule: verify_update_latest)
  case (1 latest)
  have "prepares cfg B (compute_period (signature_slot u)) (signing_committee cfg u latest s)" "ValidatorsRoot s = bc_validators_root B"
    using assms(1) 1(1,2)
    by (auto simp: tracks_def signing_committee_def next_sync_committee_get_def le_Suc_eq split: option.splits if_splits)
  with 1(5) show thesis by (intro that) simp_all
qed

text \<open>What an accepted update of a client that holds the chain's committees says is true of the chain.\<close>

lemma accepted_update_of_chain:
  assumes chain: "chain_ok cfg B" and tr: "tracks cfg B s" and v: "verify_update cfg u s = Inr ()"
    and honest: "honest_call cfg B (SubmitUpdate og u)" and free: "free_call cfg B (SubmitUpdate og u)"
  shows "bc_header B (attested_header u)"
    and "header_root (ec_ssz cfg) (finalized_header u) = Some (bc_finalized B (attested_header u))"
    and "u_next_sync_committee_update u = Some n \<Longrightarrow>
      next_sync_committee n = bc_committee B (compute_period (slot (attested_header u)) + 1)"
proof -
  obtain c where "prepares cfg B (signature_slot u div 8192) c" "signed_by cfg u (bc_validators_root B) c"
    using tracks_signing_committee [OF tr v] by (metis compute_period_eq)
  moreover have "2 * length (participation cfg u) \<le> 3 * sum_list (participation cfg u)"
    using verify_update_supermajority [OF v] by (simp add: sync_committee_participation_is_supermajority_def sync_committee_sum_eq)
  ultimately show h: "bc_header B (attested_header u)" using honest unfolding honest_call_def ec_call.case by blast
  obtain r' where r': "committee_root (ec_ssz cfg) (bc_committee B (slot (attested_header u) div 8192 + 1)) = Some r'"
      "state_node cfg B (attested_header u) (if electra_at cfg (slot (attested_header u)) then 87 else 55) r'"
    and fin: "state_node cfg B (attested_header u) (if electra_at cfg (slot (attested_header u)) then 169 else 105)
      (bc_finalized B (attested_header u))"
    using chain_okD [OF chain h] by metis
  obtain root where root: "header_root (ec_ssz cfg) (finalized_header u) = Some root" "finality_proven cfg u root"
    using verify_update_branches [OF v] by blast
  have "root = bc_finalized B (attested_header u)"
  proof (rule proven_node [OF fin])
    show "branch_free cfg B (attested_header u) (if electra_at cfg (slot (attested_header u)) then 169 else 105)
        (bc_finalized B (attested_header u)) root (finality_branch u)"
      using free h root(1) by (simp add: free_call_def)
  qed (use root(2) in \<open>simp only: finality_proven_def gindex_at_slot\<close>)
  with root(1) show "header_root (ec_ssz cfg) (finalized_header u) = Some (bc_finalized B (attested_header u))" by simp
  assume n: "u_next_sync_committee_update u = Some n"
  show "next_sync_committee n = bc_committee B (compute_period (slot (attested_header u)) + 1)"
    unfolding compute_period_eq
  proof (rule proven_committee [OF _ _ r'])
    show "committee_proven cfg (attested_header u) (if electra_at cfg (slot (attested_header u)) then 87 else 55)
        (next_sync_committee n) (next_sync_committee_branch n)"
      using verify_update_next_committee [OF v n] by (simp only: gindex_at_slot)
    show "committee_free cfg B (attested_header u) (if electra_at cfg (slot (attested_header u)) then 87 else 55)
        (slot (attested_header u) div 8192 + 1) (next_sync_committee n) (next_sync_committee_branch n)"
      using free h n by (simp add: free_call_def)
  qed
qed

lemma ec_exec_tracks:
  assumes "chain_ok cfg B" "tracks cfg B s" "honest_call cfg B call" "free_call cfg B call"
  shows "tracks cfg B (ec_exec cfg s call)"
  using refl [of "ec_exec cfg s call"]
proof (cases rule: ec_exec_cases)
  case (checkpoint og u)
  have h: "bc_header B (cu_header u)" "cu_validators_root u = bc_validators_root B"
    using assms(3) checkpoint(1,2) by (simp_all add: honest_call_def)
  from checkpoint(3) show ?thesis
  proof (cases rule: process_checkpoint_update_cases)
    case (1 hr prepared)
    obtain r where "committee_root (ec_ssz cfg) (bc_committee B (slot (cu_header u) div 8192)) = Some r"
        "state_node cfg B (cu_header u) (if electra_at cfg (slot (cu_header u)) then 86 else 54) r"
      by (rule chain_okD [OF assms(1) h(1)])
    moreover have "committee_free cfg B (cu_header u) (if electra_at cfg (slot (cu_header u)) then 86 else 54)
        (slot (cu_header u) div 8192) (cu_current_sync_committee u) (cu_current_sync_committee_branch u)"
      using assms(4) checkpoint(1) h(1) by (simp add: free_call_def)
    ultimately have "cu_current_sync_committee u = bc_committee B (slot (cu_header u) div 8192)"
      using 1(5) by (intro proven_committee) (simp_all only: gindex_at_slot)
    then show ?thesis
      using 1(3) h(2) store_finalized_header_latest [OF 1(4)] store_finalized_header_fields [OF 1(4)]
      by (simp add: tracks_def store_validators_root_def compute_period_eq)
  qed
next
  case (submitted og u p)
  from submitted(2) have v: "verify_update cfg u s = Inr ()" by (rule ec_submit_cases)
  show ?thesis
    using accepted_update_of_chain(3) [OF assms(1,2) v] assms(3,4) submitted(1)
    by (intro submit_tracks [OF assms(2) submitted(2)]) blast
qed (use assms(2) in \<open>auto simp: tracks_def ec_deposit_def split: option.splits\<close>)

lemma ec_run_tracks:
  assumes "chain_ok cfg B" "list_all (honest_call cfg B) calls" "list_all (free_call cfg B) calls"
  shows "tracks cfg B (ec_run cfg calls)"
proof (rule ec_run_induct)
  show "tracks cfg B (ec_genesis cfg)" by (simp add: tracks_def ec_genesis_def rm_get_def rm_empty_def)
  show "tracks cfg B (ec_exec cfg s call)" if "call \<in> set calls" "tracks cfg B s" for s call
    using that assms by (auto simp: list_all_iff intro: ec_exec_tracks)
qed

subsection \<open>Accepted logs\<close>

lemma subtree_execution: "subtree_index execution_header_gindex = 9" "generalized_index_length execution_header_gindex = 4"
  by (simp_all add: execution_header_gindex_def EXECUTION_HEADER_INDEX_def subtree_index_def generalized_index_length.simps)

text \<open>The header of an execution proof is stored itself, or is at its slot's place in a stored state.\<close>

definition rooted :: "('k, 'a, 's) ec_config \<Rightarrow> execution_proof \<Rightarrow> H256 \<Rightarrow> 'k ec_state \<Rightarrow> bool" where
  "rooted cfg xp hr s =
     (case xp_ancestry_proof xp of
        None \<Rightarrow> (case finalized_state hr s of None \<Rightarrow> False | Some st \<Rightarrow> cbs_slot st = slot (xp_header xp))
      | Some ap \<Rightarrow>
          (case finalized_state (finalized_block_root ap) s of
             None \<Rightarrow> False
           | Some st \<Rightarrow> slot (xp_header xp) < cbs_slot st \<and>
               verify_merkle_branch (sha2_256 cfg) hr (header_branch ap) (slot (xp_header xp) mod 8192) 13
                 (cbs_block_roots_root st)))"

lemma leaf_index_position:
  "length branch = 13 \<Longrightarrow> compute_merkle_root sha leaf branch (8192 + i mod 8192) = compute_merkle_root sha leaf branch (i mod 8192)"
  using compute_merkle_root_mod [of sha leaf branch "8192 + i mod 8192"]
    compute_merkle_root_mod [of sha leaf branch "i mod 8192"] by simp

lemma verify_execution_proof_rooted:
  assumes "verify_execution_proof cfg xp s = None"
  shows "\<exists>hr xr. header_root (ec_ssz cfg) (xp_header xp) = Some hr \<and> rooted cfg xp hr s \<and>
    payload_root (ec_ssz cfg) (xp_execution_header xp) = Some xr \<and>
    verify_merkle_branch (sha2_256 cfg) xr (xp_execution_branch xp) 9 4 (body_root (xp_header xp))"
proof -
  from assms obtain hr xr where hr: "header_root (ec_ssz cfg) (xp_header xp) = Some hr"
      and xr: "payload_root (ec_ssz cfg) (xp_execution_header xp) = Some xr"
    by (auto simp: verify_execution_proof_def split: option.splits if_splits)
  have "verify_merkle_branch (sha2_256 cfg) xr (xp_execution_branch xp) 9 4 (body_root (xp_header xp))"
    using assms hr xr
    by (auto simp: verify_execution_proof_def subtree_execution split: option.splits if_splits)
  moreover have "rooted cfg xp hr s"
    using assms hr
    by (auto simp: verify_execution_proof_def rooted_def verify_ancestry_proof_def Let_def verify_merkle_branch_def
        SLOTS_PER_HISTORICAL_ROOT_def BLOCK_ROOT_AT_INDEX_DEPTH_def leaf_index_position
        split: option.splits if_splits)
  ultimately show ?thesis using hr xr by blast
qed

definition log_in_receipt :: "('k, 'a, 's) ec_config \<Rightarrow> event_log \<Rightarrow> inclusion_proof \<Rightarrow> bool" where
  "log_in_receipt cfg lg ip \<longleftrightarrow>
     (\<exists>val r. trie_path (ec_rlp cfg) (keccak_256 cfg) (snd (receipt_proof ip)) val \<and>
        keccak_256 cfg (hd (snd (receipt_proof ip))) = receipts_root (xp_execution_header (ip_execution_proof ip)) \<and>
        receipt_decode (ec_rlp cfg) val = Some r \<and> lg \<in> set (r_logs r))"

lemma ec_verify_receipt:
  assumes "ec_verify cfg lg ip s = None"
  shows "log_in_receipt cfg lg ip \<and> verify_execution_proof cfg (ip_execution_proof ip) s = None \<and>
    length (log_topics lg) \<le> max_topics"
proof -
  from assms obtain r where r: "verify_receipt_proof (ec_rlp cfg) (keccak_256 cfg)
        (receipts_root (xp_execution_header (ip_execution_proof ip))) (snd (receipt_proof ip)) = Some (Some r)"
      and "contains_log r lg"
    by (auto simp: ec_verify_def verify_receipt_inclusion_def split: option.splits sum.splits if_splits)
  then have "lg \<in> set (r_logs r)" by (auto simp: contains_log_def list_ex_iff)
  then have "log_in_receipt cfg lg ip"
    using verify_receipt_proof_path [OF r] by (auto simp: log_in_receipt_def)
  then show ?thesis
    using assms by (auto simp: ec_verify_def log_validate_def split: option.splits sum.splits if_splits)
qed

section \<open>Sample configuration\<close>

text \<open>
  A concrete client: the root of a header is its slot, hashes of branches are zero, one member
  whose vote is always there, and receipts with one log.
\<close>

definition sample_ssz :: ssz where
  "sample_ssz =
     \<lparr>hash_tree_root = (\<lambda>ob. case ob of SSZBeaconBlockHeader sl _ _ _ _ \<Rightarrow> Some (word_of_nat sl) | _ \<Rightarrow> Some 0),
      vector_try_from = (\<lambda>n v. if length v = n then Some v else None),
      list_try_from = (\<lambda>n v. if length v \<le> n then Some v else None),
      bitvector_iter = (\<lambda>_. [True])\<rparr>"

definition sample_bls :: "(unit, unit, unit) bls" where
  "sample_bls =
     \<lparr>key_from_bytes_unchecked = (\<lambda>_. Some ()), default_key = (),
      aggregate_signature_from_bytes = (\<lambda>_. Some ()), into_aggregate = (\<lambda>_. Some ()),
      from_public_key = (\<lambda>_. ()), point_sub = (\<lambda>_ _. ()), verify_pre_aggregated = (\<lambda>_ _ _. True)\<rparr>"

definition sample_rlp :: rlp where
  "sample_rlp =
     \<lparr>item_count = (\<lambda>_. Some 2), rlp_iter = (\<lambda>bs. [bs, bs, bs, bs]), is_data = (\<lambda>_. False), is_list = (\<lambda>_. True),
      rlp_data = Some, val_bytes = Some, val_u64 = (\<lambda>_. Some 0), val_bloom = Some, val_h160 = (\<lambda>_. Some 7),
      list_h256 = (\<lambda>_. Some []), list_logs = (\<lambda>dec bs. map_option (\<lambda>l. [l]) (dec bs))\<rparr>"

definition sample_fork :: fork where
  "sample_fork = \<lparr>fork_version = [0, 0, 0, 0], fork_epoch = 0\<rparr>"

definition sample_ec :: "(unit, unit, unit) ec_config" where
  "sample_ec =
     \<lparr>ForkVersions = \<lparr>fv_genesis = sample_fork, fv_altair = sample_fork, fv_bellatrix = sample_fork,
        fv_capella = sample_fork, fv_deneb = sample_fork, fv_electra = sample_fork, fv_fulu = sample_fork\<rparr>,
      FreeHeadersInterval = 32, ec_ssz = sample_ssz, ec_bls = sample_bls, ec_rlp = sample_rlp,
      sha2_256 = (\<lambda>_. 0), keccak_256 = (\<lambda>_. 0), ec_error_str = (\<lambda>_. ''error'')\<rparr>"

definition sample_header :: "nat \<Rightarrow> beacon_header" where
  "sample_header sl = \<lparr>slot = sl, proposer_index = 0, parent_root = 0, state_root = 0, body_root = 0\<rparr>"

definition sample_committee :: sync_committee where
  "sample_committee = \<lparr>sc_pubkeys = [[1]], sc_aggregate_pubkey = [1]\<rparr>"

definition sample_prepared :: "unit sync_committee_prepared" where
  "sample_prepared = \<lparr>scp_root = 0, scp_pubkeys = [()], scp_aggregate_pubkey = ()\<rparr>"

definition sample_checkpoint :: "nat \<Rightarrow> checkpoint_update" where
  "sample_checkpoint sl =
     \<lparr>cu_header = sample_header sl, cu_current_sync_committee = sample_committee,
      cu_current_sync_committee_branch = replicate 6 0, cu_validators_root = 0, cu_block_roots_root = 0,
      cu_block_roots_branch = replicate 6 0\<rparr>"

definition sample_update :: "nat \<Rightarrow> nat \<Rightarrow> bool \<Rightarrow> update" where
  "sample_update attested finalized with_next =
     \<lparr>attested_header = sample_header attested,
      u_sync_aggregate = \<lparr>sync_committee_bits = [1], sync_committee_signature = []\<rparr>,
      signature_slot = attested + 1,
      u_next_sync_committee_update = (if with_next
        then Some \<lparr>next_sync_committee = sample_committee, next_sync_committee_branch = replicate 6 0\<rparr> else None),
      finalized_header = sample_header finalized, finality_branch = replicate 7 0, block_roots_root = 0,
      block_roots_branch = replicate 6 0\<rparr>"

definition sample_call :: "nat \<Rightarrow> nat \<Rightarrow> bool \<Rightarrow> ec_call" where
  "sample_call attested finalized with_next = SubmitUpdate (SignedOrigin 1) (sample_update attested finalized with_next)"

definition sample_calls :: "ec_call list" where
  "sample_calls = [ForceCheckpoint RootOrigin (sample_checkpoint 8192), sample_call 8300 8200 True]"

definition sample_entry :: "nat \<Rightarrow> compact_beacon_state" where
  "sample_entry sl = \<lparr>cbs_slot = sl, cbs_block_roots_root = 0\<rparr>"

text \<open>The state after the two calls: two stored headers and the next committee.\<close>

definition sample_ring :: "(H256, compact_beacon_state) ring_map" where
  "sample_ring = rm_insert MaxFinalizedHeadersToKeep 8200 (sample_entry 8200)
     (rm_insert MaxFinalizedHeadersToKeep 8192 (sample_entry 8192) rm_empty)"

lemma zero_branches:
  "compute_merkle_root (\<lambda>_. 0) leaf (replicate (Suc n) x) index = 0"
  by (induction n arbitrary: leaf index x) (simp_all add: compute_merkle_root_simps)

lemma zero_branch_ok:
  "verify_merkle_branch (\<lambda>_. 0) leaf (replicate 6 0) index 6 0" "verify_merkle_branch (\<lambda>_. 0) leaf (replicate 7 0) index 7 0"
  using zero_branches [of leaf 5 0 index] zero_branches [of leaf 6 0 index]
  by (simp_all add: verify_merkle_branch_def)

lemma sample_gindices:
  "finalized_root_gindex_at_slot sl (ForkVersions sample_ec) = 169"
  "current_sync_committee_gindex_at_slot sl (ForkVersions sample_ec) = 86"
  "next_sync_committee_gindex_at_slot sl (ForkVersions sample_ec) = 87"
  "block_roots_gindex_at_slot sl (ForkVersions sample_ec) = 69"
  by (simp_all add: sample_ec_def sample_fork_def finalized_root_gindex_at_slot_def electra_FINALIZED_ROOT_INDEX_def
      current_sync_committee_gindex_at_slot_def electra_CURRENT_SYNC_COMMITTEE_INDEX_def
      next_sync_committee_gindex_at_slot_def electra_NEXT_SYNC_COMMITTEE_INDEX_def
      block_roots_gindex_at_slot_def electra_BLOCK_ROOTS_INDEX_def)

lemma sample_lengths:
  "generalized_index_length 169 = 7" "generalized_index_length 86 = 6" "generalized_index_length 87 = 6"
  "generalized_index_length 69 = 6"
  by (simp_all add: generalized_index_length.simps)

lemma sample_roots:
  "header_root sample_ssz h = Some (word_of_nat (slot h))" "committee_root sample_ssz c = Some 0"
  "fork_data_root sample_ssz fd = Some 0" "signing_data_root sample_ssz sd = Some 0"
  by (simp_all add: header_root_def committee_root_def fork_data_root_def signing_data_root_def sample_ssz_def)

lemma sample_fields:
  "ec_ssz sample_ec = sample_ssz" "ec_bls sample_ec = sample_bls" "sha2_256 sample_ec = (\<lambda>_. 0)"
  "FreeHeadersInterval sample_ec = 32"
  by (simp_all add: sample_ec_def)

lemma sample_signing_root: "signing_root sample_ec h v sl = Inr 0"
  by (simp add: signing_root_def compute_domain_def compute_fork_data_root_def compute_signing_root_def
      sample_fields sample_roots)

lemma sample_bls_ops:
  "fast_aggregate_verify sample_bls k ks m sg = Inr ()"
  "decompress_sync_committee_bits sample_ssz bits = [1]"
  "sync_committee_prepared_try_from sample_ssz sample_bls sample_committee = Inr sample_prepared"
  by (simp_all add: fast_aggregate_verify_def prepare_aggregate_signature_def sample_bls_def
      prepare_aggregate_pubkey_from_absent_def prepare_aggregate_pubkey_def fast_aggregate_verify_pre_aggregated_def
      decompress_sync_committee_bits_def sample_ssz_def sync_committee_prepared_try_from_def sample_committee_def
      prepare_milagro_pubkey_def sample_prepared_def committee_root_def)

lemmas sample_simps = zero_branch_ok sample_gindices sample_lengths sample_roots sample_signing_root
  sample_bls_ops sample_fields

text \<open>Which sample updates the client accepts, and what they do.\<close>

lemma sample_verify:
  assumes "latest_finalized_state s = Some (sample_entry l)" and "finalized \<le> attested" and "l < attested"
    and "finalized \<le> l + 8192" and "l < 2 ^ 32" and "NextSyncCommittee s = None \<or> NextSyncCommittee s = Some sample_prepared"
    and "compute_period (attested + 1) = compute_period l" and "with_next \<or> compute_period finalized = compute_period l"
  shows "verify_update sample_ec (sample_update attested finalized with_next) s = Inr ()"
proof -
  have "finalized \<le> sat_add u64_max l SLOTS_PER_HISTORICAL_ROOT"
    using assms(4,5) by (simp add: sat_add_def u64_max_def SLOTS_PER_HISTORICAL_ROOT_def)
  then show ?thesis
    using assms
    by (auto simp: verify_update_def sample_update_def sample_header_def sample_entry_def Let_def sample_simps
        sync_committee_participation_is_supermajority_def sync_committee_sum_def next_sync_committee_get_def sample_prepared_def)
qed

lemma sample_after_checkpoint:
  "force_checkpoint sample_ec RootOrigin (sample_checkpoint 8192) (ec_genesis sample_ec) =
   Inr ((ec_genesis sample_ec)\<lparr>CurrentSyncCommittee := sample_prepared, NextSyncCommittee := None,
     InitialCheckpointRoot := 8192, ValidatorsRoot := 0,
     FinalizedBeaconState := rm_insert MaxFinalizedHeadersToKeep 8192 (sample_entry 8192) rm_empty,
     LatestFinalizedBlockRoot := 8192, ec_events := [BeaconHeaderImported 8192 8192]\<rparr>)"
  by (simp add: force_checkpoint_def ensure_root_def process_checkpoint_update_def sample_checkpoint_def sample_simps
      sample_header_def store_finalized_header_def store_validators_root_def ec_deposit_def ec_genesis_def sample_entry_def)

definition sample_s1 :: "unit ec_state" where
  "sample_s1 =
     \<lparr>InitialCheckpointRoot = 8192, LatestFinalizedBlockRoot = 8192,
      FinalizedBeaconState = rm_insert MaxFinalizedHeadersToKeep 8192 (sample_entry 8192) rm_empty,
      ValidatorsRoot = 0, CurrentSyncCommittee = sample_prepared, NextSyncCommittee = None,
      LatestSyncCommitteeUpdatePeriod = 0, ec_OperatingMode = BasicNormal,
      ec_events = [BeaconHeaderImported 8192 8192]\<rparr>"

definition sample_s2 :: "unit ec_state" where
  "sample_s2 = sample_s1\<lparr>LatestFinalizedBlockRoot := 8200, FinalizedBeaconState := sample_ring,
     NextSyncCommittee := Some sample_prepared, LatestSyncCommitteeUpdatePeriod := 1,
     ec_events := [BeaconHeaderImported 8192 8192, SyncCommitteeUpdated 1, BeaconHeaderImported 8200 8200]\<rparr>"

lemma sample_first_submit:
  "ec_submit sample_ec (SignedOrigin 1) (sample_update 8300 8200 True) sample_s1 = Inr (PaysNo, sample_s2)"
proof -
  have latest: "latest_finalized_state sample_s1 = Some (sample_entry 8192)"
    by (simp add: sample_s1_def rm_get_insert)
  have "verify_update sample_ec (sample_update 8300 8200 True) sample_s1 = Inr ()"
    by (rule sample_verify [OF latest]) (simp_all add: sample_s1_def compute_period_eq)
  moreover have "apply_update sample_ec (sample_update 8300 8200 True) sample_s1 = Inr (PaysNo, sample_s2)"
    using latest
    by (simp add: apply_update_def sample_update_def sample_header_def sample_simps Let_def check_refundable_def
        compute_period_eq store_finalized_header_def ec_deposit_def sample_entry_def)
      (simp add: sample_s1_def sample_s2_def sample_ring_def sample_entry_def)
  ultimately show ?thesis
    by (simp add: ec_submit_def process_update_def is_halted_def sample_s1_def)
qed

lemma sample_run: "ec_run sample_ec sample_calls = sample_s2"
proof -
  have "force_checkpoint sample_ec RootOrigin (sample_checkpoint 8192) (ec_genesis sample_ec) = Inr sample_s1"
    unfolding sample_after_checkpoint by (simp add: sample_s1_def ec_genesis_def)
  then show ?thesis
    using sample_first_submit by (simp add: ec_run_def sample_calls_def ec_exec_def sample_call_def)
qed

lemma sample_resubmit:
  assumes "latest_finalized_state s = Some (sample_entry l)" and "NextSyncCommittee s = Some sample_prepared"
    and "ec_OperatingMode s = BasicNormal"
    and "finalized \<le> l" and "l < attested" and "l < 2 ^ 32" and "compute_period (attested + 1) = compute_period l"
  shows "ec_submit sample_ec (SignedOrigin 1) (sample_update attested finalized True) s =
    Inr (if LatestSyncCommitteeUpdatePeriod s < compute_period finalized then PaysNo else PaysYes,
      s\<lparr>LatestSyncCommitteeUpdatePeriod := compute_period finalized,
        ec_events := ec_events s @ [SyncCommitteeUpdated (compute_period finalized)]\<rparr>)"
proof -
  have "verify_update sample_ec (sample_update attested finalized True) s = Inr ()"
    by (rule sample_verify [OF assms(1)]) (use assms in simp_all)
  moreover have "\<not> sat_add u64_max l 32 \<le> finalized"
    using assms(4,6) by (simp add: sat_add_def u64_max_def)
  moreover have "compute_period finalized \<noteq> Suc (compute_period l)"
    using compute_period_mono [OF assms(4)] by simp
  ultimately show ?thesis
    using assms
    by (simp add: ec_submit_def process_update_def is_halted_def apply_update_def sample_update_def sample_header_def
        sample_simps Let_def check_refundable_def ec_deposit_def sample_entry_def)
qed

lemma sample_s2_fields:
  "latest_finalized_state sample_s2 = Some (sample_entry 8200)" "NextSyncCommittee sample_s2 = Some sample_prepared"
  "ec_OperatingMode sample_s2 = BasicNormal" "LatestSyncCommitteeUpdatePeriod sample_s2 = 1"
  by (simp_all add: sample_s2_def sample_ring_def rm_get_insert sample_s1_def)

subsection \<open>A sample chain\<close>

text \<open>
  A chain for the same client with a hash that adds one to the last of two equal numbers: every header has the state root 8207 and has
  finalized slot 8200, and the root of the one committee is 8201.
\<close>

definition succ_hash :: hasher where
  "succ_hash bs = 8193 + ucast (last bs)"

definition chain_ec :: "(unit, unit, unit) ec_config" where
  "chain_ec = sample_ec\<lparr>sha2_256 := succ_hash,
     ec_ssz := sample_ssz\<lparr>hash_tree_root := (\<lambda>ob. case ob of SSZBeaconBlockHeader sl _ _ _ _ \<Rightarrow> Some (word_of_nat sl)
       | SSZSyncCommittee _ _ \<Rightarrow> Some 8201 | _ \<Rightarrow> Some 0)\<rparr>\<rparr>"

definition short_branch :: "H256 list" where
  "short_branch = [8201, 8202, 8203, 8204, 8205, 8206]"

definition sample_chain :: beacon_chain where
  "sample_chain = \<lparr>bc_header = (\<lambda>h. state_root h = 8207), bc_committee = (\<lambda>_. sample_committee), bc_finalized = (\<lambda>_. 8200),
     bc_branch = (\<lambda>h g. if g = 169 then 8200 # short_branch else short_branch), bc_validators_root = 0\<rparr>"

definition chain_header :: "nat \<Rightarrow> beacon_header" where
  "chain_header sl = (sample_header sl)\<lparr>state_root := 8207\<rparr>"

definition chain_checkpoint :: checkpoint_update where
  "chain_checkpoint =
     \<lparr>cu_header = chain_header 8192, cu_current_sync_committee = sample_committee,
      cu_current_sync_committee_branch = short_branch, cu_validators_root = 0, cu_block_roots_root = 8201,
      cu_block_roots_branch = short_branch\<rparr>"

definition chain_update :: update where
  "chain_update =
     \<lparr>attested_header = chain_header 8300,
      u_sync_aggregate = \<lparr>sync_committee_bits = [1], sync_committee_signature = []\<rparr>, signature_slot = 8301,
      u_next_sync_committee_update = Some \<lparr>next_sync_committee = sample_committee, next_sync_committee_branch = short_branch\<rparr>,
      finalized_header = chain_header 8200, finality_branch = 8200 # short_branch, block_roots_root = 8201,
      block_roots_branch = short_branch\<rparr>"

lemma succ_hash_pairs:
  "succ_hash (be_bytes 8200 @ be_bytes 8200) = 8201" "succ_hash (be_bytes 8201 @ be_bytes 8201) = 8202"
  "succ_hash (be_bytes 8202 @ be_bytes 8202) = 8203" "succ_hash (be_bytes 8203 @ be_bytes 8203) = 8204"
  "succ_hash (be_bytes 8204 @ be_bytes 8204) = 8205" "succ_hash (be_bytes 8205 @ be_bytes 8205) = 8206"
  "succ_hash (be_bytes 8206 @ be_bytes 8206) = 8207"
  by (simp_all add: succ_hash_def be_bytes_def upt_rec)

lemma equal_buffer: "branch_buffer i w w = be_bytes w @ be_bytes w"
  by (simp add: branch_buffer_def)

lemma chain_branches:
  "compute_merkle_root succ_hash 8201 short_branch i = 8207" "compute_merkle_root succ_hash 8200 (8200 # short_branch) i = 8207"
  "length short_branch = 6"
  by (simp_all add: short_branch_def compute_merkle_root_simps equal_buffer succ_hash_pairs)

lemma chain_buffers:
  "inj_on succ_hash (branch_buffers succ_hash i 8201 short_branch)"
  "inj_on succ_hash (branch_buffers succ_hash i 8200 (8200 # short_branch))"
proof -
  let ?bs = "map (\<lambda>w. be_bytes w @ be_bytes w) (8200 # short_branch)"
  have eq: "branch_buffers succ_hash i 8200 (8200 # short_branch) = set ?bs"
    by (simp add: short_branch_def equal_buffer succ_hash_pairs)
  have "distinct (map succ_hash ?bs)" by (simp add: short_branch_def succ_hash_pairs)
  then have "inj_on succ_hash (set ?bs)" by (simp only: distinct_map)
  then show "inj_on succ_hash (branch_buffers succ_hash i 8200 (8200 # short_branch))" by (simp only: eq)
  show "inj_on succ_hash (branch_buffers succ_hash i 8201 short_branch)"
    by (rule inj_on_subset [OF \<open>inj_on succ_hash (set ?bs)\<close>]) (auto simp: short_branch_def equal_buffer succ_hash_pairs)
qed

lemma chain_fields:
  "ForkVersions chain_ec = ForkVersions sample_ec" "ec_bls chain_ec = sample_bls" "sha2_256 chain_ec = succ_hash"
  "FreeHeadersInterval chain_ec = 32" "electra_at chain_ec sl"
  by (simp_all add: chain_ec_def sample_ec_def electra_at_def sample_fork_def)

lemma chain_roots:
  "header_root (ec_ssz chain_ec) h = Some (word_of_nat (slot h))" "committee_root (ec_ssz chain_ec) c = Some 8201"
  "fork_data_root (ec_ssz chain_ec) fd = Some 0" "signing_data_root (ec_ssz chain_ec) sd = Some 0"
  "decompress_sync_committee_bits (ec_ssz chain_ec) bits = [1]"
  by (simp_all add: header_root_def committee_root_def fork_data_root_def signing_data_root_def chain_ec_def
      decompress_sync_committee_bits_def sample_ssz_def)

lemma chain_prepared: "sync_committee_prepared_try_from (ec_ssz chain_ec) sample_bls sample_committee =
    Inr (sample_prepared\<lparr>scp_root := 8201\<rparr>)"
  by (simp add: sync_committee_prepared_try_from_def chain_roots sample_committee_def sample_prepared_def
      prepare_milagro_pubkey_def sample_bls_def)

lemma chain_signing_root: "signing_root chain_ec h v sl = Inr 0"
  by (simp add: signing_root_def compute_domain_def compute_fork_data_root_def compute_signing_root_def chain_roots)

lemma chain_verified_branches:
  "verify_merkle_branch succ_hash 8201 short_branch i 6 8207" "verify_merkle_branch succ_hash 8200 (8200 # short_branch) i 7 8207"
  by (simp_all add: verify_merkle_branch_def chain_branches)

lemmas chain_simps = chain_fields chain_roots chain_prepared chain_signing_root chain_verified_branches
  sample_gindices sample_lengths sample_bls_ops(1)

lemma chain_run:
  "\<exists>s. force_checkpoint chain_ec RootOrigin chain_checkpoint (ec_genesis chain_ec) = Inr s \<and>
     latest_finalized_state s = Some \<lparr>cbs_slot = 8192, cbs_block_roots_root = 8201\<rparr> \<and> NextSyncCommittee s = None \<and>
     ec_OperatingMode s = BasicNormal"
  by (simp add: force_checkpoint_def ensure_root_def process_checkpoint_update_def chain_checkpoint_def chain_header_def
      sample_header_def chain_simps store_finalized_header_def store_validators_root_def ec_deposit_def ec_genesis_def rm_get_insert)

lemma chain_accepts:
  assumes "latest_finalized_state s = Some \<lparr>cbs_slot = 8192, cbs_block_roots_root = 8201\<rparr>" "NextSyncCommittee s = None"
    "ec_OperatingMode s = BasicNormal"
  shows "\<exists>p s'. ec_submit chain_ec (SignedOrigin 1) chain_update s = Inr (p, s')"
proof -
  have "verify_update chain_ec chain_update s = Inr ()"
    using assms
    by (simp add: verify_update_def chain_update_def chain_header_def sample_header_def chain_simps compute_period_eq
        sync_committee_participation_is_supermajority_def sync_committee_sum_def sat_add_def u64_max_def
        SLOTS_PER_HISTORICAL_ROOT_def)
  moreover have "\<exists>p s'. apply_update chain_ec chain_update s = Inr (p, s')"
    using assms
    by (simp add: apply_update_def chain_update_def chain_header_def sample_header_def chain_simps compute_period_eq
        store_finalized_header_def Let_def)
  ultimately show ?thesis using assms(3) by (auto simp: ec_submit_def process_update_def is_halted_def)
qed

lemma sample_chain_ok: "chain_ok chain_ec sample_chain"
  by (simp add: chain_ok_def state_node_def sample_chain_def chain_simps chain_branches)

lemma sample_chain_calls:
  "list_all (honest_call chain_ec sample_chain)
     [SubmitUpdate (SignedOrigin 1) chain_update, ForceCheckpoint RootOrigin chain_checkpoint]"
  "list_all (free_call chain_ec sample_chain)
     [SubmitUpdate (SignedOrigin 1) chain_update, ForceCheckpoint RootOrigin chain_checkpoint]"
  by (simp_all add: honest_call_def free_call_def committee_free_def branch_free_def sample_chain_def chain_checkpoint_def
      chain_update_def chain_header_def sample_header_def chain_simps chain_buffers del: branch_buffers.simps)

section \<open>Properties\<close>

text \<open>
  C3. An accepted update is one of the chain. Take a beacon chain whose states hold the committees and the finalized root
  as the consensus specification says, and any sequence of calls, with errors rolled back, in which forced checkpoints are headers of the chain
  and no two thirds of a committee of the chain sign a header that is not on it; committees, branches and finalized headers
  presented in the calls may be arbitrary, as long as no hashes collide on them. Then an update is accepted only if at least
  two thirds of the committee bits are set, and the aggregate signature over the attested header verifies for the present members of the
  committee that the chain has for the period of the signature slot; so the attested header is on the chain, and the finalized header
  has the root that the state of the attested header has finalized. No committee gets in that the chain does not have, and
  none is skipped or used out of its turn.
\<close>

theorem accepted_update_signed_by_period_committee:
  assumes "chain_ok cfg B" and "list_all (honest_call cfg B) (SubmitUpdate og u # calls)"
    and "list_all (free_call cfg B) (SubmitUpdate og u # calls)"
    and "ec_submit cfg og u (ec_run cfg calls) = Inr (p, s')"
  shows "2 * length (participation cfg u) \<le> 3 * sum_list (participation cfg u) \<and>
    (\<exists>c. sync_committee_prepared_try_from (ec_ssz cfg) (ec_bls cfg) (bc_committee B (signature_slot u div 8192)) = Inr c \<and>
       signed_by cfg u (bc_validators_root B) c) \<and>
    bc_header B (attested_header u) \<and>
    header_root (ec_ssz cfg) (finalized_header u) = Some (bc_finalized B (attested_header u))"
proof -
  from assms(4) have v: "verify_update cfg u (ec_run cfg calls) = Inr ()" by (rule ec_submit_cases)
  have tr: "tracks cfg B (ec_run cfg calls)" using ec_run_tracks [OF assms(1)] assms(2,3) by simp
  have "2 * length (participation cfg u) \<le> 3 * sum_list (participation cfg u)"
    using verify_update_supermajority [OF v] by (simp add: sync_committee_participation_is_supermajority_def sync_committee_sum_eq)
  moreover have "\<exists>c. prepares cfg B (signature_slot u div 8192) c \<and> signed_by cfg u (bc_validators_root B) c"
    using tracks_signing_committee [OF tr v] by (metis compute_period_eq)
  moreover note accepted_update_of_chain(1,2) [OF assms(1) tr v, of og]
  ultimately show ?thesis using assms(2,3) by simp
qed

theorem accepted_update_signed_by_period_committee_witness:
  "\<exists>p s'. ec_submit chain_ec (SignedOrigin 1) chain_update
       (ec_run chain_ec [ForceCheckpoint RootOrigin chain_checkpoint]) = Inr (p, s') \<and>
     signed_by chain_ec chain_update 0 (sample_prepared\<lparr>scp_root := 8201\<rparr>) \<and> bc_header sample_chain (attested_header chain_update) \<and>
     header_root (ec_ssz chain_ec) (finalized_header chain_update) = Some 8200"
proof -
  obtain s where s: "force_checkpoint chain_ec RootOrigin chain_checkpoint (ec_genesis chain_ec) = Inr s"
      "latest_finalized_state s = Some \<lparr>cbs_slot = 8192, cbs_block_roots_root = 8201\<rparr>" "NextSyncCommittee s = None"
      "ec_OperatingMode s = BasicNormal"
    using chain_run by blast
  have run: "ec_run chain_ec [ForceCheckpoint RootOrigin chain_checkpoint] = s"
    by (simp add: ec_run_def ec_exec_def s(1))
  obtain p s' where ok: "ec_submit chain_ec (SignedOrigin 1) chain_update (ec_run chain_ec [ForceCheckpoint RootOrigin chain_checkpoint]) = Inr (p, s')"
    using chain_accepts [OF s(2-4)] run by auto
  have f: "bc_committee sample_chain q = sample_committee" "bc_validators_root sample_chain = 0" "bc_finalized sample_chain h = 8200" for q h
    by (simp_all add: sample_chain_def)
  from accepted_update_signed_by_period_committee [OF sample_chain_ok sample_chain_calls ok] ok show ?thesis
    by (auto simp: f chain_fields(2) chain_prepared)
qed

text \<open>
  Finalized progress: an accepted update moves the latest finalized slot to the larger of the
  stored and the presented one, by at most 8192 slots and at most one committee period, so that
  every slot in between stays within reach of an ancestry proof; and when it enters the next
  period, the committee in use becomes the one stored as next.
\<close>

theorem finalized_slot_progress:
  assumes "ec_submit cfg og u s = Inr (p, s')"
  shows "\<exists>st st'. latest_finalized_state s = Some st \<and> latest_finalized_state s' = Some st' \<and>
    cbs_slot st' = max (cbs_slot st) (slot (finalized_header u)) \<and> cbs_slot st' \<le> cbs_slot st + 8192 \<and>
    compute_period (cbs_slot st') \<le> compute_period (cbs_slot st) + 1 \<and>
    (compute_period (cbs_slot st') = compute_period (cbs_slot st) + 1 \<longrightarrow> NextSyncCommittee s = Some (CurrentSyncCommittee s'))"
  using assms
proof (cases rule: ec_submit_latest)
  case (1 latest s2)
  from assms have v: "verify_update cfg u s = Inr ()" by (rule ec_submit_cases)
  then have "slot (finalized_header u) \<le> sat_add u64_max (cbs_slot latest) SLOTS_PER_HISTORICAL_ROOT"
    and need: "u_next_sync_committee_update u = None \<longrightarrow>
       compute_period (slot (finalized_header u)) = compute_period (cbs_slot latest)"
    using 1(1) by (auto elim!: verify_update_latest)
  then have gap: "slot (finalized_header u) \<le> cbs_slot latest + 8192"
    by (simp add: sat_add_def SLOTS_PER_HISTORICAL_ROOT_def)
  define st' where "st' = the (latest_finalized_state s')"
  have st': "latest_finalized_state s' = Some st'" "cbs_slot st' = max (cbs_slot latest) (slot (finalized_header u))"
    using 1(5) by (auto simp: st'_def)
  moreover have "NextSyncCommittee s = Some (CurrentSyncCommittee s')"
    if "compute_period (cbs_slot st') = compute_period (cbs_slot latest) + 1"
  proof -
    have "compute_period (slot (finalized_header u)) = compute_period (cbs_slot latest) + 1"
      using that st'(2) by (auto simp: max_def split: if_splits)
    with 1(2,3) need show ?thesis by (auto simp: committees_after_def split: option.splits)
  qed
  moreover have "cbs_slot st' \<le> cbs_slot latest + 8192" using gap st'(2) by simp
  ultimately show ?thesis using 1(1) compute_period_window by blast
qed

theorem finalized_slot_progress_witness:
  "\<exists>st st'. latest_finalized_state sample_s1 = Some st \<and> latest_finalized_state sample_s2 = Some st' \<and>
    cbs_slot st' = max (cbs_slot st) 8200"
  using finalized_slot_progress [OF sample_first_submit] by (auto simp: sample_update_def sample_header_def)

text \<open>
  C25. The stored states are authentic: after any sequence of calls, at most 5120 states are kept,
  the latest finalized root is one of them as soon as there is any, and each entry is keyed by the
  root of a header with the stored slot whose state root commits to the stored root of block roots.
\<close>

theorem stored_states_authentic:
  assumes "finalized_state root (ec_run cfg calls) = Some st"
  shows "(\<exists>h branch. header_root (ec_ssz cfg) h = Some root \<and> slot h = cbs_slot st \<and>
      block_roots_proven cfg h (cbs_block_roots_root st) branch) \<and>
    latest_finalized_state (ec_run cfg calls) \<noteq> None \<and>
    card (dom (rm_entries (FinalizedBeaconState (ec_run cfg calls)))) \<le> 5120"
proof -
  have inv: "ec_inv cfg (ec_run cfg calls)" by (rule ec_run_inv)
  have "card (dom (rm_entries (FinalizedBeaconState (ec_run cfg calls)))) \<le> 5120"
    using inv rm_ok_card by (fastforce simp: ec_inv_def MaxFinalizedHeadersToKeep_def EPOCHS_PER_SYNC_COMMITTEE_PERIOD_def)
  moreover have "dom (rm_entries (FinalizedBeaconState (ec_run cfg calls))) \<noteq> {}"
    using assms by (auto simp: rm_get_def)
  ultimately show ?thesis using inv assms by (simp add: ec_inv_def)
qed

theorem stored_states_authentic_witness:
  "finalized_state 8200 (ec_run sample_ec sample_calls) = Some (sample_entry 8200) \<and>
   (\<exists>h. header_root sample_ssz h = Some 8200 \<and> slot h = 8200)"
proof -
  have get: "finalized_state 8200 (ec_run sample_ec sample_calls) = Some (sample_entry 8200)"
    using sample_s2_fields(1) by (simp add: sample_run) (simp add: sample_s2_def)
  from stored_states_authentic [OF this] get show ?thesis by (auto simp: sample_entry_def sample_fields)
qed

text \<open>
  C14. What an accepted log proves. If the client accepts a log, the log is in a receipt that a chain
  of trie nodes links to the receipts root of the presented execution header; that header hashes
  into the body root of the presented beacon header; and the beacon header is stored itself, or is
  proven under a stored state of a later slot. Where that state's block roots are a list of 8192
  roots and the hash does not collide on the tree and the branch, the beacon header's root is the
  entry for exactly its slot.
\<close>

theorem verified_log_is_finalized:
  assumes "ec_verify cfg lg ip s = None" and "ip_execution_proof ip = xp"
  shows "log_in_receipt cfg lg ip \<and>
    (\<exists>hr xr. header_root (ec_ssz cfg) (xp_header xp) = Some hr \<and> rooted cfg xp hr s \<and>
      payload_root (ec_ssz cfg) (xp_execution_header xp) = Some xr \<and>
      verify_merkle_branch (sha2_256 cfg) xr (xp_execution_branch xp) 9 4 (body_root (xp_header xp)) \<and>
      (\<forall>ap st roots. xp_ancestry_proof xp = Some ap \<and> finalized_state (finalized_block_root ap) s = Some st \<and>
         length roots = 8192 \<and> cbs_block_roots_root st = chunk_root (sha2_256 cfg) 13 roots \<and>
         inj_on (sha2_256 cfg) (chunk_buffers (sha2_256 cfg) 13 roots \<union>
           branch_buffers (sha2_256 cfg) (slot (xp_header xp) mod 8192) hr (header_branch ap)) \<longrightarrow>
         slot (xp_header xp) < cbs_slot st \<and> roots ! (slot (xp_header xp) mod 8192) = hr))"
proof -
  from ec_verify_receipt [OF assms(1)] assms(2) have lg: "log_in_receipt cfg lg ip"
    and xp: "verify_execution_proof cfg xp s = None" by auto
  from verify_execution_proof_rooted [OF xp] obtain hr xr where
    r: "header_root (ec_ssz cfg) (xp_header xp) = Some hr" "rooted cfg xp hr s"
      "payload_root (ec_ssz cfg) (xp_execution_header xp) = Some xr"
      "verify_merkle_branch (sha2_256 cfg) xr (xp_execution_branch xp) 9 4 (body_root (xp_header xp))"
    by blast
  have "slot (xp_header xp) < cbs_slot st \<and> roots ! (slot (xp_header xp) mod 8192) = hr"
    if "xp_ancestry_proof xp = Some ap" "finalized_state (finalized_block_root ap) s = Some st"
      "length roots = 8192" "cbs_block_roots_root st = chunk_root (sha2_256 cfg) 13 roots"
      "inj_on (sha2_256 cfg) (chunk_buffers (sha2_256 cfg) 13 roots \<union>
         branch_buffers (sha2_256 cfg) (slot (xp_header xp) mod 8192) hr (header_branch ap))" for ap st roots
    using r(2) that branch_position [of roots 13 "slot (xp_header xp) mod 8192" "header_branch ap" "sha2_256 cfg" hr]
    by (auto simp: rooted_def verify_merkle_branch_def split: if_splits)
  with lg r show ?thesis by blast
qed

definition sample_log :: event_log where
  "sample_log = \<lparr>log_address = 7, log_topics = [], log_data = [1]\<rparr>"

definition sample_payload :: execution_payload_header where
  "sample_payload =
     \<lparr>eph_parent_hash = 0, eph_fee_recipient = 0, eph_state_root = 0, eph_receipts_root = 0,
      eph_logs_bloom = replicate 256 0, eph_prev_randao = 0, eph_block_number = 0, eph_gas_limit = 0,
      eph_gas_used = 0, eph_timestamp = 0, eph_extra_data = [], eph_base_fee_per_gas = 0, eph_block_hash = 0,
      eph_transactions_root = 0, eph_withdrawals_root = 0\<rparr>"

definition sample_inclusion :: inclusion_proof where
  "sample_inclusion =
     \<lparr>receipt_proof = ([], [[1]]),
      ip_execution_proof = \<lparr>xp_header = sample_header 8200, xp_ancestry_proof = None,
        xp_execution_header = Capella sample_payload, xp_execution_branch = replicate 4 0\<rparr>\<rparr>"

lemma sample_log_verified: "ec_verify sample_ec sample_log sample_inclusion sample_s2 = None"
proof -
  have "payload_root sample_ssz (Capella sample_payload) = Some 0"
    by (simp add: ssz_payload_def sample_ssz_def sample_payload_def LOGS_BLOOM_SIZE_def EXTRA_DATA_SIZE_def)
  moreover have "verify_merkle_branch (\<lambda>_. 0) 0 (replicate 4 0) 9 4 0"
    using zero_branches [of 0 3 0 9] by (simp add: verify_merkle_branch_def)
  moreover have "finalized_state 8200 sample_s2 = Some (sample_entry 8200)"
    using sample_s2_fields(1) by (simp add: sample_s2_def)
  ultimately have "verify_execution_proof sample_ec (ip_execution_proof sample_inclusion) sample_s2 = None"
    using sample_s2_fields(1)
    by (simp add: verify_execution_proof_def sample_inclusion_def sample_header_def sample_entry_def sample_fields
        sample_roots subtree_execution del: payload_root.simps)
  then show ?thesis
    by (simp add: ec_verify_def verify_receipt_inclusion_def verify_receipt_proof_def apply_merkle_proof_def
        sample_inclusion_def sample_ec_def sample_rlp_def short_node_decode_def receipt_decode_def receipt_decode_list_def
        log_decode_def contains_log_def sample_log_def log_validate_def sample_payload_def)
qed

theorem verified_log_is_finalized_witness:
  "log_in_receipt sample_ec sample_log sample_inclusion \<and>
   rooted sample_ec (ip_execution_proof sample_inclusion) 8200 sample_s2"
  using verified_log_is_finalized [OF sample_log_verified refl]
  by (auto simp: sample_fields sample_roots sample_inclusion_def sample_header_def)

text \<open>
  A committee update is charged for or free depending on the last period recorded, and this record
  is overwritten by every accepted update that carries a committee, also when its finalized header
  is of an older period and changes nothing. So the same update that is charged for at first is
  free after an older one was resubmitted.
\<close>

theorem free_update_repeatable:
  "\<exists>s1 s2 s3. ec_submit sample_ec (SignedOrigin 1) (sample_update 8302 8200 True) (ec_run sample_ec sample_calls) = Inr (PaysYes, s1) \<and>
     ec_submit sample_ec (SignedOrigin 1) (sample_update 8301 8100 True) (ec_run sample_ec sample_calls) = Inr (PaysYes, s2) \<and>
     LatestSyncCommitteeUpdatePeriod s2 < LatestSyncCommitteeUpdatePeriod (ec_run sample_ec sample_calls) \<and>
     ec_submit sample_ec (SignedOrigin 1) (sample_update 8302 8200 True) s2 = Inr (PaysNo, s3)"
proof -
  let ?s2 = "sample_s2\<lparr>LatestSyncCommitteeUpdatePeriod := 0, ec_events := ec_events sample_s2 @ [SyncCommitteeUpdated 0]\<rparr>"
  show ?thesis
    using sample_resubmit [of sample_s2 8200 8200 8302] sample_resubmit [of sample_s2 8200 8100 8301]
      sample_resubmit [of ?s2 8200 8200 8302] sample_s2_fields
    by (simp add: sample_run compute_period_eq)
qed

end
