(* ===== verification/Merkle_Utils.thy ===== *)
theory Merkle_Utils
  imports Merkle_Tree
begin

text \<open>
  The Merkle library of the contracts, \<open>contracts/src/libraries/MerkleUtils.sol\<close>: roots and
  proofs over an array of leaves, with or without sorting of pairs.

  Keccak-256 is the parameter \<open>H\<close>. Memory arrays are lists; a revert is \<^term>\<open>Inl\<close>, and the
  out-of-bounds write to the proof array, whose length is fixed beforehand, is a value of its own.

  The lemmas show that with sorted pairs the library computes the same roots and the same proofs
  as the Merkle tree of the bridge on the other chain, that in either mode the root is rebuilt from a
  leaf and its proof, and that the proof array is long enough.
\<close>

section \<open>Hashing\<close>

definition efficientHash :: "hasher \<Rightarrow> H256 \<Rightarrow> H256 \<Rightarrow> H256" where
  "efficientHash H a b = H (be_bytes a @ be_bytes b)"

definition hashPair :: "hasher \<Rightarrow> H256 \<Rightarrow> H256 \<Rightarrow> H256" where
  "hashPair H a b = (if a < b then efficientHash H a b else efficientHash H b a)"

section \<open>Roots\<close>

text \<open>The inner loop, two elements at a time; an unpaired last element moves up.\<close>

fun next_layer :: "hasher \<Rightarrow> bool \<Rightarrow> H256 list \<Rightarrow> H256 list" where
  "next_layer H sorting (a # b # xs) =
     (if sorting then hashPair H a b else efficientHash H a b) # next_layer H sorting xs"
| "next_layer H sorting [a] = [a]"
| "next_layer H sorting [] = []"

lemma length_next_layer: "length (next_layer H sorting xs) = (length xs + 1) div 2"
  by (induction H sorting xs rule: next_layer.induct) auto

function calculate_loop :: "hasher \<Rightarrow> bool \<Rightarrow> H256 list \<Rightarrow> H256" where
  "calculate_loop H sorting layer =
     (if 1 < length layer then calculate_loop H sorting (next_layer H sorting layer) else layer ! 0)"
  by auto
termination
  by (relation "measure (\<lambda>(H, sorting, layer). length layer)") (auto simp: length_next_layer)

declare calculate_loop.simps [simp del]

definition calculateMerkleRoot :: "hasher \<Rightarrow> H256 list \<Rightarrow> bool \<Rightarrow> H256" where
  "calculateMerkleRoot H leaves sorting =
     (if length leaves = 0 then 0
      else if length leaves = 1 then leaves ! 0
      else calculate_loop H sorting leaves)"

section \<open>Proofs\<close>

datatype merkle_error = EmptyLeaves | LeafIndexOutOfBounds | ArrayOutOfBounds

fun max_depth :: "nat \<Rightarrow> nat" where
  "max_depth layer_size = (if 1 < layer_size then max_depth ((layer_size + 1) div 2) + 1 else 0)"

declare max_depth.simps [simp del]

text \<open>
  One pass over a layer: the next layer, the proof entries written so far, and the position of
  the leaf, which is already that of the next layer once the leaf's pair has been seen.
\<close>

fun proof_pass ::
  "hasher \<Rightarrow> bool \<Rightarrow> nat \<Rightarrow> nat \<Rightarrow> nat \<Rightarrow> H256 list \<Rightarrow> H256 list \<Rightarrow> H256 list \<Rightarrow> nat \<Rightarrow>
     (H256 list \<times> H256 list \<times> nat) option" where
  "proof_pass H sorting depth i next_index (a # b # xs) layer pf pos =
     (let layer' = layer @ [if sorting then hashPair H a b else efficientHash H a b] in
      if pos = i
      then if length pf < depth
           then proof_pass H sorting depth (i + 2) (next_index + 1) xs layer' (pf @ [b]) next_index
           else None
      else if pos = i + 1
      then if length pf < depth
           then proof_pass H sorting depth (i + 2) (next_index + 1) xs layer' (pf @ [a]) next_index
           else None
      else proof_pass H sorting depth (i + 2) (next_index + 1) xs layer' pf pos)"
| "proof_pass H sorting depth i next_index [a] layer pf pos =
     Some (layer @ [a], pf, if pos = i then next_index else pos)"
| "proof_pass H sorting depth i next_index [] layer pf pos = Some (layer, pf, pos)"

lemma proof_pass_layer:
  "proof_pass H sorting depth i n xs layer pf pos = Some (layer', pf', pos') \<Longrightarrow>
   layer' = layer @ next_layer H sorting xs"
  by (induction H sorting depth i n xs layer pf pos arbitrary: layer' pf' pos' rule: proof_pass.induct)
    (auto simp: Let_def split: if_splits)

function proof_loop :: "hasher \<Rightarrow> bool \<Rightarrow> nat \<Rightarrow> H256 list \<Rightarrow> H256 list \<Rightarrow> nat \<Rightarrow> H256 list option" where
  "proof_loop H sorting depth layer pf pos =
     (if 1 < length layer
      then case proof_pass H sorting depth 0 0 layer [] pf pos of
             None \<Rightarrow> None
           | Some (layer', pf', pos') \<Rightarrow> proof_loop H sorting depth layer' pf' pos'
      else Some pf)"
  by auto
termination
  by (relation "measure (\<lambda>(H, sorting, depth, layer, pf, pos). length layer)")
    (auto dest!: proof_pass_layer simp: length_next_layer)

declare proof_loop.simps [simp del]

definition buildMerkleProof :: "hasher \<Rightarrow> H256 list \<Rightarrow> nat \<Rightarrow> bool \<Rightarrow> merkle_error + H256 list" where
  "buildMerkleProof H leaves leaf_index sorting =
     (if \<not> 0 < length leaves then Inl EmptyLeaves
      else if \<not> leaf_index < length leaves then Inl LeafIndexOutOfBounds
      else if length leaves = 1 then Inr []
      else case proof_loop H sorting (max_depth (length leaves)) leaves [] leaf_index of
             None \<Rightarrow> Inl ArrayOutOfBounds
           | Some pf \<Rightarrow> Inr pf)"

section \<open>Lemmas\<close>

lemma hashPair_combined: "hashPair H a b = H (combined a b)"
  by (simp add: hashPair_def efficientHash_def combined_def)

lemma next_layer_parent_row: "next_layer H True xs = parent_row H xs"
  by (induction xs rule: induct_list012) (auto simp: hashPair_combined)

lemma calculate_loop_tree_root: "xs \<noteq> [] \<Longrightarrow> calculate_loop H True xs = tree_root H xs"
proof (induction "length xs" arbitrary: xs rule: less_induct)
  case less
  show ?case
  proof (cases "1 < length xs")
    case True
    then have "length (parent_row H xs) < length xs" by (simp add: length_parent_row)
    with less True show ?thesis
      by (simp add: calculate_loop.simps [of H True xs] next_layer_parent_row tree_root_unfold(3))
  next
    case False
    with less.prems have "length xs = 1" by (cases xs) auto
    then show ?thesis by (simp add: calculate_loop.simps [of H True xs] tree_root_unfold(2))
  qed
qed

lemma proof_pass_behind:
  "pos < i \<Longrightarrow> proof_pass H s depth i n xs layer pf pos = Some (layer @ next_layer H s xs, pf, pos)"
  by (induction H s depth i n xs layer pf pos rule: proof_pass.induct) (auto simp: Let_def)

text \<open>The position only changes to one that the rest of the pass does not look for.\<close>

lemma proof_pass_sibling:
  assumes "i = 2 * n" "i \<le> pos" "pos < i + length xs" "length pf < depth"
  shows "proof_pass H s depth i n xs layer pf pos =
    Some (layer @ next_layer H s xs, pf @ sibling (pos - i) xs, pos div 2)"
  using assms
proof (induction xs arbitrary: i n layer rule: induct_list012)
  case (3 a b xs)
  consider "pos = i" | "pos = i + 1" | "i + 2 \<le> pos" using "3.prems" by linarith
  then show ?case
  proof cases
    case 3
    then have "sibling (pos - i) (a # b # xs) = sibling (pos - (i + 2)) xs"
      using sibling_Cons2 [of "pos - i" a b xs] by simp
    then show ?thesis
      using "3.IH"(1) [of "i + 2" "n + 1"] "3.prems" 3 by (simp add: Let_def)
  qed (use "3.prems" in \<open>auto simp: Let_def proof_pass_behind sibling_def\<close>)
qed (auto simp: sibling_def)

lemma max_depth_step: "1 < n \<Longrightarrow> max_depth n = Suc (max_depth ((n + 1) div 2))"
  by (simp add: max_depth.simps [of n])

lemma proof_loop_path:
  "pos < length xs \<Longrightarrow> length pf + max_depth (length xs) \<le> depth \<Longrightarrow>
   proof_loop H True depth xs pf pos = Some (pf @ sibling_path H xs pos)"
proof (induction "length xs" arbitrary: xs pf pos rule: less_induct)
  case less
  show ?case
  proof (cases "1 < length xs")
    case True
    let ?pf = "pf @ sibling pos xs" and ?ys = "parent_row H xs"
    have depth: "length pf < depth" "length ?pf + max_depth (length ?ys) \<le> depth"
      using less.prems(2) max_depth_step [OF True] by (auto simp: sibling_def length_parent_row)
    have "proof_loop H True depth ?ys ?pf (pos div 2) = Some (?pf @ sibling_path H ?ys (pos div 2))"
      using True less.prems depth(2) by (intro less.hyps) (auto simp: length_parent_row)
    then show ?thesis
      using True less.prems depth(1) proof_pass_sibling [of 0 0 pos xs pf depth H True "[]"]
      by (simp add: proof_loop.simps [of H True depth xs] sibling_path.simps [of H xs] next_layer_parent_row)
  qed (simp add: proof_loop.simps sibling_path.simps)
qed

lemma build_sibling_path:
  "i < length leaves \<Longrightarrow> buildMerkleProof H leaves i True = Inr (sibling_path H leaves i)"
  using proof_loop_path [of i leaves "[]" "max_depth (length leaves)" H]
  by (auto simp: buildMerkleProof_def sibling_path.simps [of H leaves])

text \<open>
  The reference for both modes: the root over a layer of \<open>n\<close> nodes from the node \<open>x\<close> at position \<open>pos\<close> and
  the siblings on its way up. A last node without sibling moves up.
\<close>

function rebuild_root :: "hasher \<Rightarrow> bool \<Rightarrow> nat \<Rightarrow> nat \<Rightarrow> H256 \<Rightarrow> H256 list \<Rightarrow> H256" where
  "rebuild_root H sorting n pos x pf =
     (let pair = (if sorting then hashPair H else efficientHash H) in
      if n \<le> 1 then x
      else if pos + 1 = n \<and> even pos then rebuild_root H sorting ((n + 1) div 2) (pos div 2) x pf
      else case pf of
             [] \<Rightarrow> x
           | y # ys \<Rightarrow> rebuild_root H sorting ((n + 1) div 2) (pos div 2) (if even pos then pair x y else pair y x) ys)"
  by auto
termination
  by (relation "measure (\<lambda>(H, sorting, n, pos, x, pf). n)") auto

declare rebuild_root.simps [simp del]

lemma nth_next_layer:
  "i < length xs \<Longrightarrow> next_layer H s xs ! (i div 2) =
     (if even i \<and> i + 1 = length xs then xs ! i
      else (if s then hashPair H else efficientHash H) (xs ! (i - i mod 2)) (xs ! (i - i mod 2 + 1)))"
proof (induction H s xs arbitrary: i rule: next_layer.induct)
  case (1 H s a b xs)
  show ?case
  proof (cases "i < 2")
    case True
    then have "i = 0 \<or> i = 1" by auto
    then show ?thesis by auto
  next
    case False
    then obtain k where i: "i = Suc (Suc k)" by (metis add_2_eq_Suc le_add_diff_inverse not_less)
    have "Suc (Suc k) - k mod 2 = Suc (Suc (k - k mod 2))" by (simp add: Suc_diff_le)
    then show ?thesis using "1.IH" [of k] "1.prems" by (cases "length xs") (auto simp: i)
  qed
qed auto

lemma sibling_at:
  "i < length xs \<Longrightarrow> sibling i xs =
     (if even i then if i + 1 = length xs then [] else [xs ! (i + 1)] else [xs ! (i - 1)])"
  by (auto simp: sibling_def)

lemma proof_loop_rebuilds:
  "pos < length xs \<Longrightarrow> length pf + max_depth (length xs) \<le> depth \<Longrightarrow>
   \<exists>qs. proof_loop H s depth xs pf pos = Some (pf @ qs) \<and>
     rebuild_root H s (length xs) pos (xs ! pos) qs = calculate_loop H s xs"
proof (induction "length xs" arbitrary: xs pf pos rule: less_induct)
  case less
  show ?case
  proof (cases "1 < length xs")
    case True
    let ?pf = "pf @ sibling pos xs" and ?ys = "next_layer H s xs" and ?pair = "if s then hashPair H else efficientHash H"
    have depth: "length pf < depth" "length ?pf + max_depth (length ?ys) \<le> depth"
      using less.prems(2) max_depth_step [OF True] by (auto simp: sibling_def length_next_layer)
    have "length ?ys < length xs" "pos div 2 < length ?ys" using True less.prems(1) by (auto simp: length_next_layer)
    then obtain qs where qs: "proof_loop H s depth ?ys ?pf (pos div 2) = Some (?pf @ qs)"
        "rebuild_root H s (length ?ys) (pos div 2) (?ys ! (pos div 2)) qs = calculate_loop H s ?ys"
      using less.hyps [of ?ys "pos div 2" ?pf] depth(2) by blast
    have "rebuild_root H s (length xs) pos (xs ! pos) (sibling pos xs @ qs) =
        rebuild_root H s (length ?ys) (pos div 2) (?ys ! (pos div 2)) qs"
      using True less.prems(1)
      by (simp add: rebuild_root.simps [of H s "length xs"] sibling_at nth_next_layer length_next_layer odd_iff_mod_2_eq_one
          even_iff_mod_2_eq_zero)
    then show ?thesis
      using True less.prems depth(1) qs proof_pass_sibling [of 0 0 pos xs pf depth H s "[]"]
      by (simp add: proof_loop.simps [of H s depth xs] calculate_loop.simps [of H s xs])
  next
    case False
    then have "length xs = 1" "pos = 0" using less.prems(1) by auto
    then show ?thesis by (simp add: proof_loop.simps [of H s depth xs] calculate_loop.simps [of H s xs] rebuild_root.simps)
  qed
qed

section \<open>Properties\<close>

text \<open>
  C17. The two implementations agree when the contract library is called with \<open>sorting = true\<close>: for any leaves it
  then returns the root that the Merkle tree of the bridge primitives returns, and for any index the same proof,
  which \<open>verify_proof\<close> therefore accepts; an index out of range makes the one revert and the other panic. In both
  modes, sorted or not, \<open>buildMerkleProof\<close> reverts exactly for an index out of range, never overflows its proof
  array, and returns a proof from which the root of \<open>calculateMerkleRoot\<close> in the same mode is rebuilt.
\<close>

theorem solidity_merkle_matches_rust:
  "merkle_root H leaves = Some (calculateMerkleRoot H leaves True) \<and>
   (case merkle_proof H leaves i of
      Some (Some p) \<Rightarrow> buildMerkleProof H leaves i True = Inr (mp_proof p) \<and>
        verify_proof H (calculateMerkleRoot H leaves True) (mp_proof p) (length leaves) i (Leaf_Hash (leaves ! i))
    | Some None \<Rightarrow> buildMerkleProof H leaves i True \<in> {Inl EmptyLeaves, Inl LeafIndexOutOfBounds}
    | None \<Rightarrow> False) \<and>
   (case buildMerkleProof H leaves i sorting of
      Inl e \<Rightarrow> length leaves \<le> i \<and> e = (if leaves = [] then EmptyLeaves else LeafIndexOutOfBounds)
    | Inr pf \<Rightarrow> i < length leaves \<and>
        rebuild_root H sorting (length leaves) i (leaves ! i) pf = calculateMerkleRoot H leaves sorting)"
proof -
  have root: "calculateMerkleRoot H leaves True = tree_root H leaves"
    using calculate_loop_tree_root [of leaves H] tree_root_unfold(1,2) [of leaves H]
    by (auto simp: calculateMerkleRoot_def)
  then have "merkle_root H leaves = Some (calculateMerkleRoot H leaves True)"
    by (simp add: merkle_root_def merkelize_eq)
  moreover have "case buildMerkleProof H leaves i sorting of
      Inl e \<Rightarrow> length leaves \<le> i \<and> e = (if leaves = [] then EmptyLeaves else LeafIndexOutOfBounds)
    | Inr pf \<Rightarrow> i < length leaves \<and>
        rebuild_root H sorting (length leaves) i (leaves ! i) pf = calculateMerkleRoot H leaves sorting"
    using proof_loop_rebuilds [of i leaves "[]" "max_depth (length leaves)" H sorting]
    by (auto simp: buildMerkleProof_def calculateMerkleRoot_def rebuild_root.simps [of H sorting "Suc 0"])
  ultimately show ?thesis
    using build_sibling_path [of i leaves H] root
    by (auto simp: merkle_proof_eq verify_proof_def climb_sibling_path buildMerkleProof_def)
qed

end
