(* ===== verification/Service_Manager.thy ===== *)
theory Service_Manager
  imports DH_Prelude "HOL-Library.Multiset"
begin

unbundle bit_operations_syntax

text \<open>
  The contract on Ethereum, \<open>contracts/src/DataHavenServiceManager.sol\<close>: the allowlist and the
  registration of operators, the mapping between operator and solochain addresses in both
  directions, the choice of the validator set by weighted stake, and the translation of reward and
  slashing submissions that arrive over the bridge.

  The storage is the record \<open>sm_state\<close>; a mapping is a function with default zero. The EigenLayer
  contracts, the reward token and the Gateway are third-party: they are the record
  \<open>sm_env\<close> of functions on a world \<open>'w\<close>, where \<^term>\<open>None\<close> is a revert. Checked arithmetic of
  256 bits reverts. A revert of the contract is \<^term>\<open>Inl\<close> and leaves no change.

  The lemmas show that the two mappings are inverse to each other in every reachable state, that
  the partial selection sort picks the best candidates in order, and what a reward submission
  hands on.
\<close>

section \<open>State, events and errors\<close>

type_synonym address = H160

definition uint256_max :: nat where "uint256_max = 2 ^ 256 - 1"

definition VALIDATORS_SET_ID :: nat where "VALIDATORS_SET_ID = 0"
definition MAX_ACTIVE_VALIDATORS :: nat where "MAX_ACTIVE_VALIDATORS = 32"

definition DATAHAVEN_AVS_METADATA :: string where
  "DATAHAVEN_AVS_METADATA = ''https://raw.githubusercontent.com/datahaven-xyz/datahaven/refs/heads/main/contracts/deployments/metadata.json''"

datatype sm_event =
    OperatorRegistered address nat
  | OperatorDeregistered address nat
  | ValidatorAddedToAllowlist address
  | ValidatorRemovedFromAllowlist address
  | SnowbridgeGatewaySet address
  | RewardsSubmitted nat nat
  | SnowbridgeInitiatorSet address address
  | SolochainAddressUpdated address address
  | SlashingComplete
  | StrategiesAndMultipliersSet "(address \<times> nat) list"
  | ValidatorSetSubmitterUpdated address address
  | VersionUpdated string string
  | ValidatorSetMessageSubmitted nat H256 address

datatype sm_error =
    IncorrectAVSAddress
  | CantRegisterToMultipleOperatorSets
  | CantDeregisterFromMultipleOperatorSets
  | InvalidOperatorSetId
  | OperatorNotInAllowlist
  | CallerIsNotValidator
  | OnlyRewardsInitiator
  | OnlyAllocationManager
  | ZeroAddress
  | InvalidSolochainAddressLength
  | OnlyValidatorSetSubmitter
  | EmptyValidatorSet
  | UnknownSolochainAddress
  | SolochainAddressAlreadyAssigned
  | StrategyNotInOperatorSet
  | OperatorAlreadyRegistered
  | OperatorNotRegistered
  | EmptyVersion
  | VersionCannotBeEmpty
  | NotProxyAdmin
  | NotOwner
  | AlreadyInitialized
  | Panic
  | ExternalRevert

record sm_state =
  sm_initialized :: bool
  sm_owner :: address
  snowbridgeInitiator :: address
  validatorsAllowlist :: "address \<Rightarrow> bool"
  sm_gateway :: address
  validatorEthAddressToSolochainAddress :: "address \<Rightarrow> address"
  validatorSolochainAddressToEthAddress :: "address \<Rightarrow> address"
  validatorSetSubmitter :: address
  strategiesAndMultipliers :: "address \<Rightarrow> nat"
  sm_version :: string
  sm_events :: "sm_event list"

text \<open>The fresh storage of the proxy.\<close>

definition sm_empty :: sm_state where
  "sm_empty =
     \<lparr>sm_initialized = False, sm_owner = 0, snowbridgeInitiator = 0, validatorsAllowlist = (\<lambda>_. False),
      sm_gateway = 0, validatorEthAddressToSolochainAddress = (\<lambda>_. 0),
      validatorSolochainAddressToEthAddress = (\<lambda>_. 0), validatorSetSubmitter = 0,
      strategiesAndMultipliers = (\<lambda>_. 0), sm_version = '''', sm_events = []\<rparr>"

definition emit :: "sm_event \<Rightarrow> sm_state \<Rightarrow> sm_state" where
  "emit e s = s\<lparr>sm_events := sm_events s @ [e]\<rparr>"

section \<open>The environment\<close>

record slashing_params =
  slp_operator :: address
  slp_operatorSetId :: nat
  slp_strategies :: "address list"
  slp_wadsToSlash :: "nat list"
  slp_description :: "byte list"

record slashing_call =
  slc_operator :: address
  slc_strategies :: "address list"
  slc_wadsToSlash :: "nat list"
  slc_description :: "byte list"

record operator_rewards_submission =
  ors_strategies :: "(address \<times> nat) list"
  ors_token :: address
  ors_operatorRewards :: "(address \<times> nat) list"
  ors_startTimestamp :: nat
  ors_duration :: nat
  ors_description :: string

text \<open>
  The operator set is always the one of this contract with number zero. Deregistration calls the
  contract back before it returns: the callback is its first argument.
\<close>

record 'w sm_env =
  sm_this :: address
  sm_proxy_admin :: address
  allocationManager :: address
  rewardsCoordinator :: address
  isMemberOfOperatorSet :: "address \<Rightarrow> 'w \<Rightarrow> bool"
  getMembers :: "'w \<Rightarrow> address list"
  getStrategiesInOperatorSet :: "'w \<Rightarrow> address list"
  getAllocatedStake :: "address list \<Rightarrow> address list \<Rightarrow> 'w \<Rightarrow> nat list list"
  am_updateAVSMetadataURI :: "string \<Rightarrow> 'w \<Rightarrow> 'w option"
  am_createOperatorSets :: "(nat \<times> address list) list \<Rightarrow> 'w \<Rightarrow> 'w option"
  am_addStrategiesToOperatorSet :: "nat \<Rightarrow> address list \<Rightarrow> 'w \<Rightarrow> 'w option"
  am_removeStrategiesFromOperatorSet :: "nat \<Rightarrow> address list \<Rightarrow> 'w \<Rightarrow> 'w option"
  am_slashOperator :: "slashing_params \<Rightarrow> 'w \<Rightarrow> 'w option"
  am_deregisterFromOperatorSets ::
    "(sm_state \<times> 'w \<Rightarrow> sm_error + (sm_state \<times> 'w)) \<Rightarrow> address \<Rightarrow> nat list \<Rightarrow> sm_state \<times> 'w \<Rightarrow> (sm_state \<times> 'w) option"
  safeIncreaseAllowance :: "address \<Rightarrow> address \<Rightarrow> nat \<Rightarrow> 'w \<Rightarrow> 'w option"
  rc_createSubmission :: "operator_rewards_submission \<Rightarrow> 'w \<Rightarrow> 'w option"
  v2_sendMessage :: "address \<Rightarrow> nat \<Rightarrow> byte list \<Rightarrow> nat \<Rightarrow> nat \<Rightarrow> 'w \<Rightarrow> 'w option"
  scaleEncodePayload :: "address list \<Rightarrow> nat \<Rightarrow> byte list"
  sm_keccak :: "byte list \<Rightarrow> H256"

record msg =
  msg_sender :: address
  msg_value :: nat

type_synonym 'w sm_result = "sm_error + (sm_state \<times> 'w)"

text \<open>A call to the environment that changes the world only.\<close>

definition external :: "sm_state \<Rightarrow> 'w option \<Rightarrow> 'w sm_result" where
  "external s r = (case r of None \<Rightarrow> Inl ExternalRevert | Some w \<Rightarrow> Inr (s, w))"

section \<open>Initialization\<close>

definition set_multipliers :: "(address \<times> nat) list \<Rightarrow> sm_state \<Rightarrow> sm_state" where
  "set_multipliers sms s =
     s\<lparr>strategiesAndMultipliers := foldl (\<lambda>f (st, m). f(st := m)) (strategiesAndMultipliers s) sms\<rparr>"

definition initialize ::
  "'w sm_env \<Rightarrow> address \<Rightarrow> address \<Rightarrow> (address \<times> nat) list \<Rightarrow> address \<Rightarrow> address \<Rightarrow> string \<Rightarrow>
     sm_state \<times> 'w \<Rightarrow> 'w sm_result" where
  "initialize env initialOwner initiator sms gateway submitter initialVersion sw =
     (case sw of (s, w) \<Rightarrow>
      if sm_initialized s then Inl AlreadyInitialized
      else if initialOwner = 0 then Inl ZeroAddress
      else if initiator = 0 then Inl ZeroAddress
      else if gateway = 0 then Inl ZeroAddress
      else if length initialVersion = 0 then Inl EmptyVersion
      else
       (let s1 = emit (SnowbridgeInitiatorSet 0 initiator)
                   (s\<lparr>sm_initialized := True, sm_owner := initialOwner, snowbridgeInitiator := initiator\<rparr>);
            s2 = s1\<lparr>sm_version := initialVersion\<rparr> in
        case am_updateAVSMetadataURI env DATAHAVEN_AVS_METADATA w of
          None \<Rightarrow> Inl ExternalRevert
        | Some w1 \<Rightarrow>
            (let strategies = map fst sms; s3 = set_multipliers sms s2 in
             case am_createOperatorSets env [(VALIDATORS_SET_ID, strategies)] w1 of
               None \<Rightarrow> Inl ExternalRevert
             | Some w2 \<Rightarrow>
                 (let s4 = s3\<lparr>sm_gateway := gateway\<rparr> in
                  Inr (if submitter \<noteq> 0
                       then emit (ValidatorSetSubmitterUpdated 0 submitter) (s4\<lparr>validatorSetSubmitter := submitter\<rparr>)
                       else s4, w2)))))"

section \<open>The validator set\<close>

record candidate =
  c_solochain :: address
  c_stake :: nat
  c_operator :: address

definition isBetterCandidate :: "candidate \<Rightarrow> candidate \<Rightarrow> bool" where
  "isBetterCandidate a b =
     (if c_stake a \<noteq> c_stake b then c_stake a > c_stake b else c_operator a < c_operator b)"

text \<open>The weighted stake of the operator at one row; \<^term>\<open>None\<close> is an overflow or a row too short.\<close>

fun weighted_stake :: "(address \<Rightarrow> nat) \<Rightarrow> nat list \<Rightarrow> address list \<Rightarrow> nat \<Rightarrow> nat option" where
  "weighted_stake mlp row [] acc = Some acc"
| "weighted_stake mlp [] (st # sts) acc = None"
| "weighted_stake mlp (x # row) (st # sts) acc =
     (if uint256_max < x * mlp st \<or> uint256_max < acc + x * mlp st then None
      else weighted_stake mlp row sts (acc + x * mlp st))"

fun candidates_loop ::
  "(address \<Rightarrow> address) \<Rightarrow> (address \<Rightarrow> nat) \<Rightarrow> address list \<Rightarrow> nat list list \<Rightarrow> nat \<Rightarrow> address list \<Rightarrow>
     candidate list \<Rightarrow> candidate list option" where
  "candidates_loop solo mlp strategies stake i [] acc = Some acc"
| "candidates_loop solo mlp strategies stake i (op # ops) acc =
     (if solo op = 0 then candidates_loop solo mlp strategies stake (i + 1) ops acc
      else if strategies \<noteq> [] \<and> \<not> i < length stake then None
      else case weighted_stake mlp (if strategies = [] then [] else stake ! i) strategies 0 of
             None \<Rightarrow> None
           | Some weightedStake \<Rightarrow>
               if weightedStake = 0 then candidates_loop solo mlp strategies stake (i + 1) ops acc
               else candidates_loop solo mlp strategies stake (i + 1) ops
                      (acc @ [\<lparr>c_solochain = solo op, c_stake = weightedStake, c_operator = op\<rparr>]))"

definition best_index :: "candidate list \<Rightarrow> nat \<Rightarrow> nat" where
  "best_index cs i = foldl (\<lambda>best j. if isBetterCandidate (cs ! j) (cs ! best) then j else best) i [i + 1..<length cs]"

definition select_step :: "candidate list \<Rightarrow> nat \<Rightarrow> candidate list" where
  "select_step cs i =
     (let best = best_index cs i in
      if best \<noteq> i then cs[i := cs ! best, best := cs ! i] else cs)"

definition select_validators :: "candidate list \<Rightarrow> address list" where
  "select_validators cs =
     (let select_count = (if length cs < MAX_ACTIVE_VALIDATORS then length cs else MAX_ACTIVE_VALIDATORS);
          sorted = foldl select_step cs [0..<select_count]
      in map c_solochain (take select_count sorted))"

definition validator_candidates :: "'w sm_env \<Rightarrow> sm_state \<times> 'w \<Rightarrow> candidate list option" where
  "validator_candidates env sw =
     (case sw of (s, w) \<Rightarrow>
      let operators = getMembers env w;
          strategies = getStrategiesInOperatorSet env w;
          stake = getAllocatedStake env operators strategies w
      in candidates_loop (validatorEthAddressToSolochainAddress s) (strategiesAndMultipliers s)
           strategies stake 0 operators [])"

definition buildNewValidatorSetMessageForEra :: "'w sm_env \<Rightarrow> nat \<Rightarrow> sm_state \<times> 'w \<Rightarrow> sm_error + byte list" where
  "buildNewValidatorSetMessageForEra env targetEra sw =
     (case validator_candidates env sw of
        None \<Rightarrow> Inl Panic
      | Some cs \<Rightarrow>
          if length cs = 0 then Inl EmptyValidatorSet
          else Inr (scaleEncodePayload env (select_validators cs) targetEra))"

definition sendNewValidatorSetForEra ::
  "'w sm_env \<Rightarrow> msg \<Rightarrow> nat \<Rightarrow> nat \<Rightarrow> nat \<Rightarrow> sm_state \<times> 'w \<Rightarrow> 'w sm_result" where
  "sendNewValidatorSetForEra env m targetEra executionFee relayerFee sw =
     (case sw of (s, w) \<Rightarrow>
      if msg_sender m \<noteq> validatorSetSubmitter s then Inl OnlyValidatorSetSubmitter
      else case buildNewValidatorSetMessageForEra env targetEra (s, w) of
        Inl e \<Rightarrow> Inl e
      | Inr message \<Rightarrow>
          external (emit (ValidatorSetMessageSubmitted targetEra (sm_keccak env message) (msg_sender m)) s)
            (v2_sendMessage env (sm_gateway s) (msg_value m) message executionFee relayerFee w))"

section \<open>Administration\<close>

definition setValidatorSetSubmitter :: "msg \<Rightarrow> address \<Rightarrow> sm_state \<times> 'w \<Rightarrow> 'w sm_result" where
  "setValidatorSetSubmitter m newSubmitter sw =
     (case sw of (s, w) \<Rightarrow>
      if msg_sender m \<noteq> sm_owner s then Inl NotOwner
      else if newSubmitter = 0 then Inl ZeroAddress
      else Inr (emit (ValidatorSetSubmitterUpdated (validatorSetSubmitter s) newSubmitter)
                  (s\<lparr>validatorSetSubmitter := newSubmitter\<rparr>), w))"

definition setSnowbridgeGateway :: "msg \<Rightarrow> address \<Rightarrow> sm_state \<times> 'w \<Rightarrow> 'w sm_result" where
  "setSnowbridgeGateway m gateway sw =
     (case sw of (s, w) \<Rightarrow>
      if msg_sender m \<noteq> sm_owner s then Inl NotOwner
      else if gateway = 0 then Inl ZeroAddress
      else Inr (emit (SnowbridgeGatewaySet gateway) (s\<lparr>sm_gateway := gateway\<rparr>), w))"

definition setSnowbridgeInitiator :: "msg \<Rightarrow> address \<Rightarrow> sm_state \<times> 'w \<Rightarrow> 'w sm_result" where
  "setSnowbridgeInitiator m initiator sw =
     (case sw of (s, w) \<Rightarrow>
      if msg_sender m \<noteq> sm_owner s then Inl NotOwner
      else if initiator = 0 then Inl ZeroAddress
      else Inr (emit (SnowbridgeInitiatorSet (snowbridgeInitiator s) initiator)
                  (s\<lparr>snowbridgeInitiator := initiator\<rparr>), w))"

definition addValidatorToAllowlist :: "msg \<Rightarrow> address \<Rightarrow> sm_state \<times> 'w \<Rightarrow> 'w sm_result" where
  "addValidatorToAllowlist m validator sw =
     (case sw of (s, w) \<Rightarrow>
      if msg_sender m \<noteq> sm_owner s then Inl NotOwner
      else if validator = 0 then Inl ZeroAddress
      else Inr (emit (ValidatorAddedToAllowlist validator)
                  (s\<lparr>validatorsAllowlist := (validatorsAllowlist s)(validator := True)\<rparr>), w))"

definition removeValidatorFromAllowlist :: "msg \<Rightarrow> address \<Rightarrow> sm_state \<times> 'w \<Rightarrow> 'w sm_result" where
  "removeValidatorFromAllowlist m validator sw =
     (case sw of (s, w) \<Rightarrow>
      if msg_sender m \<noteq> sm_owner s then Inl NotOwner
      else Inr (emit (ValidatorRemovedFromAllowlist validator)
                  (s\<lparr>validatorsAllowlist := (validatorsAllowlist s)(validator := False)\<rparr>), w))"

definition removeStrategies :: "'w sm_env \<Rightarrow> msg \<Rightarrow> address list \<Rightarrow> sm_state \<times> 'w \<Rightarrow> 'w sm_result" where
  "removeStrategies env m strategies sw =
     (case sw of (s, w) \<Rightarrow>
      if msg_sender m \<noteq> sm_owner s then Inl NotOwner
      else external
             (s\<lparr>strategiesAndMultipliers := foldl (\<lambda>f st. f(st := 0)) (strategiesAndMultipliers s) strategies\<rparr>)
             (am_removeStrategiesFromOperatorSet env VALIDATORS_SET_ID strategies w))"

definition addStrategies :: "'w sm_env \<Rightarrow> msg \<Rightarrow> (address \<times> nat) list \<Rightarrow> sm_state \<times> 'w \<Rightarrow> 'w sm_result" where
  "addStrategies env m sms sw =
     (case sw of (s, w) \<Rightarrow>
      if msg_sender m \<noteq> sm_owner s then Inl NotOwner
      else external (emit (StrategiesAndMultipliersSet sms) (set_multipliers sms s))
             (am_addStrategiesToOperatorSet env VALIDATORS_SET_ID (map fst sms) w))"

definition setStrategiesAndMultipliers :: "'w sm_env \<Rightarrow> msg \<Rightarrow> (address \<times> nat) list \<Rightarrow> sm_state \<times> 'w \<Rightarrow> 'w sm_result" where
  "setStrategiesAndMultipliers env m sms sw =
     (case sw of (s, w) \<Rightarrow>
      if msg_sender m \<noteq> sm_owner s then Inl NotOwner
      else let registered = getStrategiesInOperatorSet env w in
        if \<not> list_all (\<lambda>(st, _). List.member registered st) sms then Inl StrategyNotInOperatorSet
        else Inr (emit (StrategiesAndMultipliersSet sms) (set_multipliers sms s), w))"

definition getStrategiesAndMultipliers :: "'w sm_env \<Rightarrow> sm_state \<times> 'w \<Rightarrow> (address \<times> nat) list" where
  "getStrategiesAndMultipliers env sw =
     (case sw of (s, w) \<Rightarrow> map (\<lambda>st. (st, strategiesAndMultipliers s st)) (getStrategiesInOperatorSet env w))"

definition updateAVSMetadataURI :: "'w sm_env \<Rightarrow> msg \<Rightarrow> string \<Rightarrow> sm_state \<times> 'w \<Rightarrow> 'w sm_result" where
  "updateAVSMetadataURI env m uri sw =
     (case sw of (s, w) \<Rightarrow>
      if msg_sender m \<noteq> sm_owner s then Inl NotOwner else external s (am_updateAVSMetadataURI env uri w))"

definition updateVersion :: "'w sm_env \<Rightarrow> msg \<Rightarrow> string \<Rightarrow> sm_state \<times> 'w \<Rightarrow> 'w sm_result" where
  "updateVersion env m newVersion sw =
     (case sw of (s, w) \<Rightarrow>
      if msg_sender m \<noteq> sm_proxy_admin env then Inl NotProxyAdmin
      else if length newVersion = 0 then Inl VersionCannotBeEmpty
      else Inr (emit (VersionUpdated (sm_version s) newVersion) (s\<lparr>sm_version := newVersion\<rparr>), w))"

section \<open>Operators\<close>

definition toAddress :: "byte list \<Rightarrow> sm_error + address" where
  "toAddress data =
     (if length data \<noteq> 20 then Inl InvalidSolochainAddressLength
      else let result = foldl (\<lambda>a b. push_bit 8 a OR ucast b) 0 data in
        if result = 0 then Inl ZeroAddress else Inr result)"

definition registerOperator ::
  "'w sm_env \<Rightarrow> msg \<Rightarrow> address \<Rightarrow> address \<Rightarrow> nat list \<Rightarrow> byte list \<Rightarrow> sm_state \<times> 'w \<Rightarrow> 'w sm_result" where
  "registerOperator env m operator avsAddress operatorSetIds data sw =
     (case sw of (s, w) \<Rightarrow>
      if msg_sender m \<noteq> allocationManager env then Inl OnlyAllocationManager
      else if avsAddress \<noteq> sm_this env then Inl IncorrectAVSAddress
      else if length operatorSetIds \<noteq> 1 then Inl CantRegisterToMultipleOperatorSets
      else if operatorSetIds ! 0 \<noteq> VALIDATORS_SET_ID then Inl InvalidOperatorSetId
      else if \<not> validatorsAllowlist s operator then Inl OperatorNotInAllowlist
      else if validatorEthAddressToSolochainAddress s operator \<noteq> 0 then Inl OperatorAlreadyRegistered
      else case toAddress data of
        Inl e \<Rightarrow> Inl e
      | Inr solochainAddress \<Rightarrow>
          if validatorSolochainAddressToEthAddress s solochainAddress \<noteq> 0 then Inl SolochainAddressAlreadyAssigned
          else Inr (emit (OperatorRegistered operator (operatorSetIds ! 0))
            (s\<lparr>validatorEthAddressToSolochainAddress :=
                 (validatorEthAddressToSolochainAddress s)(operator := solochainAddress),
               validatorSolochainAddressToEthAddress :=
                 (validatorSolochainAddressToEthAddress s)(solochainAddress := operator)\<rparr>), w))"

definition deregisterOperator ::
  "'w sm_env \<Rightarrow> msg \<Rightarrow> address \<Rightarrow> address \<Rightarrow> nat list \<Rightarrow> sm_state \<times> 'w \<Rightarrow> 'w sm_result" where
  "deregisterOperator env m operator avsAddress operatorSetIds sw =
     (case sw of (s, w) \<Rightarrow>
      if msg_sender m \<noteq> allocationManager env then Inl OnlyAllocationManager
      else if avsAddress \<noteq> sm_this env then Inl IncorrectAVSAddress
      else if length operatorSetIds \<noteq> 1 then Inl CantDeregisterFromMultipleOperatorSets
      else if operatorSetIds ! 0 \<noteq> VALIDATORS_SET_ID then Inl InvalidOperatorSetId
      else if validatorEthAddressToSolochainAddress s operator = 0 then Inl OperatorNotRegistered
      else let oldSolochainAddress = validatorEthAddressToSolochainAddress s operator in
        Inr (emit (OperatorDeregistered operator (operatorSetIds ! 0))
          (s\<lparr>validatorEthAddressToSolochainAddress := (validatorEthAddressToSolochainAddress s)(operator := 0),
             validatorSolochainAddressToEthAddress :=
               (validatorSolochainAddressToEthAddress s)(oldSolochainAddress := 0)\<rparr>), w))"

definition supportsAVS :: "'w sm_env \<Rightarrow> address \<Rightarrow> bool" where
  "supportsAVS env avsAddress \<longleftrightarrow> avsAddress = sm_this env"

definition updateSolochainAddressForValidator ::
  "'w sm_env \<Rightarrow> msg \<Rightarrow> address \<Rightarrow> sm_state \<times> 'w \<Rightarrow> 'w sm_result" where
  "updateSolochainAddressForValidator env m solochainAddress sw =
     (case sw of (s, w) \<Rightarrow>
      if \<not> isMemberOfOperatorSet env (msg_sender m) w then Inl CallerIsNotValidator
      else if solochainAddress = 0 then Inl ZeroAddress
      else let oldSolochainAddress = validatorEthAddressToSolochainAddress s (msg_sender m) in
        if oldSolochainAddress = solochainAddress then Inl SolochainAddressAlreadyAssigned
        else let existingEthOperator = validatorSolochainAddressToEthAddress s solochainAddress in
          if existingEthOperator \<noteq> 0 then Inl SolochainAddressAlreadyAssigned
          else Inr (emit (SolochainAddressUpdated (msg_sender m) solochainAddress)
            (s\<lparr>validatorEthAddressToSolochainAddress :=
                 (validatorEthAddressToSolochainAddress s)(msg_sender m := solochainAddress),
               validatorSolochainAddressToEthAddress :=
                 ((validatorSolochainAddressToEthAddress s)(oldSolochainAddress := 0))
                   (solochainAddress := msg_sender m)\<rparr>), w))"

definition deregisterOperatorFromOperatorSets ::
  "'w sm_env \<Rightarrow> msg \<Rightarrow> address \<Rightarrow> nat list \<Rightarrow> sm_state \<times> 'w \<Rightarrow> 'w sm_result" where
  "deregisterOperatorFromOperatorSets env m operator operatorSetIds sw =
     (if msg_sender m \<noteq> sm_owner (fst sw) then Inl NotOwner
      else let callback = deregisterOperator env \<lparr>msg_sender = allocationManager env, msg_value = 0\<rparr>
                            operator (sm_this env) operatorSetIds in
        case am_deregisterFromOperatorSets env callback operator operatorSetIds sw of
          None \<Rightarrow> Inl ExternalRevert
        | Some sw' \<Rightarrow> Inr sw')"

section \<open>Rewards and slashes\<close>

text \<open>
  The translation of the rewards: entries whose operator is unknown are left out, the others are
  renamed; \<^term>\<open>None\<close> is an overflow of the total.
\<close>

fun translate_loop ::
  "(address \<Rightarrow> address) \<Rightarrow> (address \<times> nat) list \<Rightarrow> (address \<times> nat) list \<Rightarrow> nat \<Rightarrow> ((address \<times> nat) list \<times> nat) option" where
  "translate_loop eth [] translated tot = Some (translated, tot)"
| "translate_loop eth ((operator, amount) # rs) translated tot =
     (if eth operator = 0 then translate_loop eth rs translated tot
      else if uint256_max < tot + amount then None
      else translate_loop eth rs (translated @ [(eth operator, amount)]) (tot + amount))"

text \<open>Insertion sort in place.\<close>

fun shift_down :: "(address \<times> nat) list \<Rightarrow> address \<times> nat \<Rightarrow> nat \<Rightarrow> (address \<times> nat) list" where
  "shift_down rewards key j =
     (if 0 < j \<and> fst (rewards ! (j - 1)) > fst key
      then shift_down (rewards[j := rewards ! (j - 1)]) key (j - 1)
      else rewards[j := key])"

declare shift_down.simps [simp del]

definition sortOperatorRewards :: "(address \<times> nat) list \<Rightarrow> (address \<times> nat) list" where
  "sortOperatorRewards rewards = foldl (\<lambda>rs i. shift_down rs (rs ! i) i) rewards [1..<length rewards]"

definition submitRewards :: "'w sm_env \<Rightarrow> msg \<Rightarrow> operator_rewards_submission \<Rightarrow> sm_state \<times> 'w \<Rightarrow> 'w sm_result" where
  "submitRewards env m submission sw =
     (case sw of (s, w) \<Rightarrow>
      if msg_sender m \<noteq> snowbridgeInitiator s then Inl OnlyRewardsInitiator
      else case translate_loop (validatorSolochainAddressToEthAddress s) (ors_operatorRewards submission) [] 0 of
        None \<Rightarrow> Inl Panic
      | Some (translated, totalAmount) \<Rightarrow>
          (let s1 = emit (RewardsSubmitted totalAmount (length translated)) s in
           if length translated = 0 then Inr (s1, w)
           else case safeIncreaseAllowance env (ors_token submission) (rewardsCoordinator env) totalAmount w of
             None \<Rightarrow> Inl ExternalRevert
           | Some w1 \<Rightarrow>
               external s1 (rc_createSubmission env
                 (submission\<lparr>ors_operatorRewards := sortOperatorRewards translated\<rparr>) w1)))"

fun slash_loop :: "'w sm_env \<Rightarrow> (address \<Rightarrow> address) \<Rightarrow> slashing_call list \<Rightarrow> 'w \<Rightarrow> 'w option" where
  "slash_loop env eth [] w = Some w"
| "slash_loop env eth (sl # sls) w =
     (if eth (slc_operator sl) = 0 then slash_loop env eth sls w
      else case am_slashOperator env
             \<lparr>slp_operator = eth (slc_operator sl), slp_operatorSetId = VALIDATORS_SET_ID,
              slp_strategies = slc_strategies sl, slp_wadsToSlash = slc_wadsToSlash sl,
              slp_description = slc_description sl\<rparr> w of
             None \<Rightarrow> None
           | Some w' \<Rightarrow> slash_loop env eth sls w')"

definition slashValidatorsOperator :: "'w sm_env \<Rightarrow> msg \<Rightarrow> slashing_call list \<Rightarrow> sm_state \<times> 'w \<Rightarrow> 'w sm_result" where
  "slashValidatorsOperator env m slashings sw =
     (case sw of (s, w) \<Rightarrow>
      if msg_sender m \<noteq> snowbridgeInitiator s then Inl OnlyRewardsInitiator
      else external (emit SlashingComplete s)
             (slash_loop env (validatorSolochainAddressToEthAddress s) slashings w))"

section \<open>The transition system\<close>

text \<open>
  The calls of the contract, a transfer of the ownership by the inherited functions, and changes of
  the world around it. The zero address cannot send. What deregistration does to the contract is what its callback does: that is
  the premise on the environment.
\<close>

definition callback_only :: "'w sm_env \<Rightarrow> bool" where
  "callback_only env \<longleftrightarrow>
     (\<forall>f operator ids sw sw'. am_deregisterFromOperatorSets env f operator ids sw = Some sw' \<longrightarrow>
        fst sw' = fst sw \<or> (\<exists>w1 sw1. f (fst sw, w1) = Inr sw1 \<and> fst sw' = fst sw1))"

inductive sm_step :: "'w sm_env \<Rightarrow> sm_state \<times> 'w \<Rightarrow> sm_state \<times> 'w \<Rightarrow> bool" for env where
  initialized: "initialize env ow ini sms gw sub v sw = Inr sw' \<Longrightarrow> sm_step env sw sw'"
| set_submitter: "setValidatorSetSubmitter m a sw = Inr sw' \<Longrightarrow> sm_step env sw sw'"
| sent: "sendNewValidatorSetForEra env m era f1 f2 sw = Inr sw' \<Longrightarrow> sm_step env sw sw'"
| updated: "msg_sender m \<noteq> 0 \<Longrightarrow> updateSolochainAddressForValidator env m a sw = Inr sw' \<Longrightarrow> sm_step env sw sw'"
| gateway: "setSnowbridgeGateway m a sw = Inr sw' \<Longrightarrow> sm_step env sw sw'"
| registered: "registerOperator env m op avs ids data sw = Inr sw' \<Longrightarrow> sm_step env sw sw'"
| deregistered: "deregisterOperator env m op avs ids sw = Inr sw' \<Longrightarrow> sm_step env sw sw'"
| allowed: "addValidatorToAllowlist m a sw = Inr sw' \<Longrightarrow> sm_step env sw sw'"
| disallowed: "removeValidatorFromAllowlist m a sw = Inr sw' \<Longrightarrow> sm_step env sw sw'"
| strategies_removed: "removeStrategies env m sts sw = Inr sw' \<Longrightarrow> sm_step env sw sw'"
| strategies_added: "addStrategies env m sms sw = Inr sw' \<Longrightarrow> sm_step env sw sw'"
| multipliers: "setStrategiesAndMultipliers env m sms sw = Inr sw' \<Longrightarrow> sm_step env sw sw'"
| rewards: "submitRewards env m sub sw = Inr sw' \<Longrightarrow> sm_step env sw sw'"
| initiator: "setSnowbridgeInitiator m a sw = Inr sw' \<Longrightarrow> sm_step env sw sw'"
| metadata: "updateAVSMetadataURI env m uri sw = Inr sw' \<Longrightarrow> sm_step env sw sw'"
| forced_out: "deregisterOperatorFromOperatorSets env m op ids sw = Inr sw' \<Longrightarrow> sm_step env sw sw'"
| slashed: "slashValidatorsOperator env m sls sw = Inr sw' \<Longrightarrow> sm_step env sw sw'"
| version: "updateVersion env m v sw = Inr sw' \<Longrightarrow> sm_step env sw sw'"
| ownership: "sm_step env (s, w) (s\<lparr>sm_owner := ow\<rparr>, w)"
| outside: "sm_step env (s, w) (s, w')"


section \<open>The two mappings\<close>

definition sm_inv :: "sm_state \<Rightarrow> bool" where
  "sm_inv s \<longleftrightarrow>
     (\<forall>e. validatorEthAddressToSolochainAddress s e \<noteq> 0 \<longrightarrow>
        validatorSolochainAddressToEthAddress s (validatorEthAddressToSolochainAddress s e) = e) \<and>
     (\<forall>a. validatorSolochainAddressToEthAddress s a \<noteq> 0 \<longrightarrow>
        validatorEthAddressToSolochainAddress s (validatorSolochainAddressToEthAddress s a) = a) \<and>
     validatorSolochainAddressToEthAddress s 0 = 0 \<and> validatorEthAddressToSolochainAddress s 0 = 0 \<and>
     \<not> validatorsAllowlist s 0"

inductive sm_reach :: "'w sm_env \<Rightarrow> sm_state \<times> 'w \<Rightarrow> bool" for env where
  fresh: "sm_reach env (sm_empty, w)"
| step: "sm_reach env sw \<Longrightarrow> sm_step env sw sw' \<Longrightarrow> sm_reach env sw'"

lemma emit_fields [simp]:
  "sm_initialized (emit e s) = sm_initialized s" "sm_owner (emit e s) = sm_owner s"
  "snowbridgeInitiator (emit e s) = snowbridgeInitiator s" "validatorsAllowlist (emit e s) = validatorsAllowlist s"
  "sm_gateway (emit e s) = sm_gateway s"
  "validatorEthAddressToSolochainAddress (emit e s) = validatorEthAddressToSolochainAddress s"
  "validatorSolochainAddressToEthAddress (emit e s) = validatorSolochainAddressToEthAddress s"
  "validatorSetSubmitter (emit e s) = validatorSetSubmitter s"
  "strategiesAndMultipliers (emit e s) = strategiesAndMultipliers s" "sm_version (emit e s) = sm_version s"
  by (simp_all add: emit_def)

lemma external_Inr [simp]: "external s r = Inr sw \<longleftrightarrow> (\<exists>w. r = Some w \<and> sw = (s, w))"
  by (auto simp: external_def split: option.splits)

lemma sm_inv_cong:
  assumes "validatorEthAddressToSolochainAddress t = validatorEthAddressToSolochainAddress s"
    and "validatorSolochainAddressToEthAddress t = validatorSolochainAddressToEthAddress s"
    and "validatorsAllowlist t 0 = validatorsAllowlist s 0"
  shows "sm_inv t \<longleftrightarrow> sm_inv s"
  using assms by (simp add: sm_inv_def)

lemma toAddress_nonzero: "toAddress data = Inr a \<Longrightarrow> a \<noteq> 0"
  by (auto simp: toAddress_def Let_def split: if_splits)

lemma sm_inv_register:
  assumes "sm_inv (fst sw)" "registerOperator env m op avs ids data sw = Inr sw'"
  shows "sm_inv (fst sw')"
proof -
  obtain s w where sw: "sw = (s, w)" by (cases sw)
  with assms(2) obtain a where a: "toAddress data = Inr a" "validatorSolochainAddressToEthAddress s a = 0"
      "validatorEthAddressToSolochainAddress s op = 0" "validatorsAllowlist s op"
    and s': "fst sw' = emit (OperatorRegistered op (ids ! 0))
       (s\<lparr>validatorEthAddressToSolochainAddress := (validatorEthAddressToSolochainAddress s)(op := a),
          validatorSolochainAddressToEthAddress := (validatorSolochainAddressToEthAddress s)(a := op)\<rparr>)"
    by (auto simp: registerOperator_def split: if_splits sum.splits)
  have "sm_inv s" using assms(1) sw by simp
  then show ?thesis
    using a toAddress_nonzero [OF a(1)] by (auto simp: s' sm_inv_def)
qed

lemma sm_inv_deregister:
  assumes "sm_inv (fst sw)" "deregisterOperator env m op avs ids sw = Inr sw'"
  shows "sm_inv (fst sw')"
proof -
  obtain s w where sw: "sw = (s, w)" by (cases sw)
  have "sm_inv s" using assms(1) sw by simp
  then show ?thesis
    using assms(2) sw by (auto simp: deregisterOperator_def sm_inv_def Let_def split: if_splits) metis
qed

lemma sm_inv_update:
  assumes "sm_inv (fst sw)" "msg_sender m \<noteq> 0" "updateSolochainAddressForValidator env m a sw = Inr sw'"
  shows "sm_inv (fst sw')"
proof -
  obtain s w where sw: "sw = (s, w)" by (cases sw)
  have "sm_inv s" using assms(1) sw by simp
  then show ?thesis
    using assms(2,3) sw
    by (auto simp: updateSolochainAddressForValidator_def sm_inv_def Let_def split: if_splits) metis+
qed

lemma sm_inv_forced_out:
  assumes "callback_only env" "sm_inv (fst sw)" "deregisterOperatorFromOperatorSets env m op ids sw = Inr sw'"
  shows "sm_inv (fst sw')"
proof -
  let ?f = "deregisterOperator env \<lparr>msg_sender = allocationManager env, msg_value = 0\<rparr> op (sm_this env) ids"
  have "am_deregisterFromOperatorSets env ?f op ids sw = Some sw'"
    using assms(3) by (auto simp: deregisterOperatorFromOperatorSets_def Let_def split: if_splits option.splits)
  then consider "fst sw' = fst sw" | w1 sw1 where "?f (fst sw, w1) = Inr sw1" "fst sw' = fst sw1"
    using assms(1) unfolding callback_only_def by blast
  then show ?thesis
  proof cases
    case 1 then show ?thesis using assms(2) by simp
  next
    case 2 then show ?thesis using sm_inv_deregister [OF _ 2(1)] assms(2) by simp
  qed
qed

text \<open>The other calls keep both mappings, and the allowlist at the zero address.\<close>

lemmas sm_frame_defs =
  initialize_def set_multipliers_def setValidatorSetSubmitter_def sendNewValidatorSetForEra_def
  setSnowbridgeGateway_def addValidatorToAllowlist_def removeValidatorFromAllowlist_def removeStrategies_def
  addStrategies_def setStrategiesAndMultipliers_def submitRewards_def setSnowbridgeInitiator_def
  updateAVSMetadataURI_def slashValidatorsOperator_def updateVersion_def

lemma sm_inv_step:
  assumes "sm_step env sw sw'" "callback_only env" "sm_inv (fst sw)"
  shows "sm_inv (fst sw')"
  using assms
proof cases
  case updated
  then show ?thesis using sm_inv_update assms(3) by blast
next
  case registered
  then show ?thesis using sm_inv_register assms(3) by blast
next
  case deregistered
  then show ?thesis using sm_inv_deregister assms(3) by blast
next
  case forced_out
  then show ?thesis using sm_inv_forced_out assms(2,3) by blast
qed (use assms(3) in \<open>auto simp: sm_frame_defs sm_inv_def Let_def split: if_splits option.splits sum.splits prod.splits\<close>)

lemma sm_reach_inv:
  assumes "sm_reach env sw" "callback_only env"
  shows "sm_inv (fst sw)"
  using assms
proof (induction rule: sm_reach.induct)
  case (fresh w)
  show ?case by (simp add: sm_inv_def sm_empty_def)
next
  case (step sw sw')
  then show ?case using sm_inv_step by blast
qed

section \<open>The selection of the validators\<close>

lemma better_asym: "isBetterCandidate a b \<Longrightarrow> \<not> isBetterCandidate b a"
  by (auto simp: isBetterCandidate_def split: if_splits)

lemma better_irrefl [simp]: "\<not> isBetterCandidate a a"
  by (simp add: isBetterCandidate_def)

lemma not_better_trans: "\<not> isBetterCandidate b a \<Longrightarrow> \<not> isBetterCandidate c b \<Longrightarrow> \<not> isBetterCandidate c a"
  by (auto simp: isBetterCandidate_def split: if_splits)

lemma best_index_upto:
  assumes "i < k" "k \<le> length cs"
  shows "let b = foldl (\<lambda>best j. if isBetterCandidate (cs ! j) (cs ! best) then j else best) i [i + 1..<k] in
    i \<le> b \<and> b < k \<and> (\<forall>j. i \<le> j \<longrightarrow> j < k \<longrightarrow> \<not> isBetterCandidate (cs ! j) (cs ! b))"
  using assms
proof (induction k)
  case (Suc k)
  show ?case
  proof (cases "i = k")
    case False
    with Suc show ?thesis
      by (auto simp: Let_def less_Suc_eq dest: better_asym) (meson better_asym not_better_trans)+
  qed (auto simp: less_Suc_eq)
qed simp

lemma best_index_best:
  assumes "i < length cs"
  shows "i \<le> best_index cs i" "best_index cs i < length cs"
    and "i \<le> j \<Longrightarrow> j < length cs \<Longrightarrow> \<not> isBetterCandidate (cs ! j) (cs ! best_index cs i)"
  using best_index_upto [OF assms order_refl] by (auto simp: best_index_def Let_def)

lemma select_step_props:
  assumes "i < length cs"
  shows "mset (select_step cs i) = mset cs" "length (select_step cs i) = length cs"
    and "p < i \<Longrightarrow> select_step cs i ! p = cs ! p"
    and "select_step cs i ! i = cs ! best_index cs i"
    and "i \<le> q \<Longrightarrow> q < length cs \<Longrightarrow> \<exists>q'. i \<le> q' \<and> q' < length cs \<and> select_step cs i ! q = cs ! q'"
proof -
  note b = best_index_best [OF assms]
  show "mset (select_step cs i) = mset cs"
    using assms b by (simp add: select_step_def Let_def mset_swap)
  show "length (select_step cs i) = length cs"
    by (simp add: select_step_def Let_def)
  show "p < i \<Longrightarrow> select_step cs i ! p = cs ! p"
    using b by (simp add: select_step_def Let_def)
  show "select_step cs i ! i = cs ! best_index cs i"
    using assms by (simp add: select_step_def Let_def)
  show "i \<le> q \<Longrightarrow> q < length cs \<Longrightarrow> \<exists>q'. i \<le> q' \<and> q' < length cs \<and> select_step cs i ! q = cs ! q'"
    using assms b by (cases "q = best_index cs i"; cases "q = i") (auto simp: select_step_def Let_def intro: exI [of _ q])
qed

lemma select_steps:
  "k \<le> length cs \<Longrightarrow> mset (foldl select_step cs [0..<k]) = mset cs \<and>
    (\<forall>p q. p < k \<longrightarrow> p \<le> q \<longrightarrow> q < length cs \<longrightarrow>
       \<not> isBetterCandidate (foldl select_step cs [0..<k] ! q) (foldl select_step cs [0..<k] ! p))"
proof (induction k)
  case (Suc k)
  let ?r = "foldl select_step cs [0..<k]"
  have IH: "mset ?r = mset cs"
      "\<And>p q. p < k \<Longrightarrow> p \<le> q \<Longrightarrow> q < length cs \<Longrightarrow> \<not> isBetterCandidate (?r ! q) (?r ! p)"
    using Suc by auto
  have len: "length ?r = length cs" using IH(1) by (metis size_mset)
  then have k: "k < length ?r" using Suc.prems by simp
  note st = select_step_props [OF k] and b = best_index_best [OF k]
  have "\<not> isBetterCandidate (select_step ?r k ! q) (select_step ?r k ! p)"
    if pq: "p < Suc k" "p \<le> q" "q < length cs" for p q
  proof (cases "p < k")
    case True
    obtain q' where "p \<le> q'" "q' < length cs" "select_step ?r k ! q = ?r ! q'"
      using pq True st(3) [of q] st(5) [of q] len by (metis linorder_not_less order.strict_implies_order order.trans)
    then show ?thesis using IH(2) [OF True] st(3) [OF True] by simp
  next
    case False
    then have "p = k" using pq by simp
    then show ?thesis using pq st(4) st(5) [of q] b(3) len by auto
  qed
  then show ?case using st(1) IH(1) by simp
qed simp

lemma select_validators_best:
  obtains chosen rest where "mset (chosen @ rest) = mset cs" "select_validators cs = map c_solochain chosen"
    "length chosen = min (length cs) MAX_ACTIVE_VALIDATORS"
    "sorted_wrt (\<lambda>a b. \<not> isBetterCandidate b a) chosen"
    "\<And>c d. c \<in> set chosen \<Longrightarrow> d \<in> set rest \<Longrightarrow> \<not> isBetterCandidate d c"
proof -
  define k where "k = min (length cs) MAX_ACTIVE_VALIDATORS"
  let ?r = "foldl select_step cs [0..<k]"
  have k: "(if length cs < MAX_ACTIVE_VALIDATORS then length cs else MAX_ACTIVE_VALIDATORS) = k" "k \<le> length cs"
    by (auto simp: k_def)
  have s: "mset ?r = mset cs" "\<And>p q. p < k \<Longrightarrow> p \<le> q \<Longrightarrow> q < length cs \<Longrightarrow> \<not> isBetterCandidate (?r ! q) (?r ! p)"
    using select_steps [OF k(2)] by auto
  have len: "length ?r = length cs" using s(1) by (metis size_mset)
  show ?thesis
  proof
    show "mset (take k ?r @ drop k ?r) = mset cs" using s(1) by (simp only: append_take_drop_id)
    show "select_validators cs = map c_solochain (take k ?r)"
      unfolding select_validators_def k Let_def ..
    show "length (take k ?r) = min (length cs) MAX_ACTIVE_VALIDATORS" using len k by (simp add: k_def [symmetric])
    show "sorted_wrt (\<lambda>a b. \<not> isBetterCandidate b a) (take k ?r)"
      using s(2) len k by (simp add: sorted_wrt_iff_nth_less)
    fix c d assume "c \<in> set (take k ?r)" "d \<in> set (drop k ?r)"
    then obtain p q where "p < k" "c = take k ?r ! p" "q < length cs - k" "d = drop k ?r ! q"
      using len unfolding in_set_conv_nth by (metis length_drop length_take min_less_iff_conj)
    then show "\<not> isBetterCandidate d c" using s(2) [of p "k + q"] len k by simp
  qed
qed

text \<open>
  The candidates are the members with a solochain address and a positive weighted stake, in the
  order of the operator set.
\<close>

definition row_stake :: "(address \<Rightarrow> nat) \<Rightarrow> address list \<Rightarrow> nat list \<Rightarrow> nat" where
  "row_stake mlp strategies row = (\<Sum>(x, st) \<leftarrow> zip row strategies. x * mlp st)"

lemma weighted_stake_sum:
  "weighted_stake mlp row strategies acc = Some n \<Longrightarrow> n = acc + row_stake mlp strategies row"
  by (induction mlp row strategies acc rule: weighted_stake.induct)
    (auto simp: row_stake_def split: if_splits)

definition candidates_of ::
  "(address \<Rightarrow> address) \<Rightarrow> (address \<Rightarrow> nat) \<Rightarrow> address list \<Rightarrow> (address \<times> nat list) list \<Rightarrow> candidate list" where
  "candidates_of solo mlp strategies rows =
     map (\<lambda>(op, row). \<lparr>c_solochain = solo op, c_stake = row_stake mlp strategies row, c_operator = op\<rparr>)
       (filter (\<lambda>(op, row). solo op \<noteq> 0 \<and> row_stake mlp strategies row \<noteq> 0) rows)"

lemma candidates_loop_result:
  "candidates_loop solo mlp strategies stake i ops acc = Some cs \<Longrightarrow> i + length ops = length stake \<Longrightarrow>
     cs = acc @ candidates_of solo mlp strategies (zip ops (drop i stake))"
proof (induction ops arbitrary: i acc)
  case Nil
  then show ?case by (simp add: candidates_of_def)
next
  case (Cons op ops)
  have d: "drop i stake = stake ! i # drop (Suc i) stake"
    using Cons.prems by (simp add: Cons_nth_drop_Suc)
  have r: "weighted_stake mlp (if strategies = [] then [] else stake ! i) strategies 0 = Some n \<Longrightarrow>
      n = row_stake mlp strategies (stake ! i)" for n
    by (drule weighted_stake_sum) (auto simp: row_stake_def split: if_splits)
  show ?case
  proof (cases "solo op = 0")
    case True
    then show ?thesis using Cons by (simp add: d candidates_of_def)
  next
    case False
    then obtain n where n: "weighted_stake mlp (if strategies = [] then [] else stake ! i) strategies 0 = Some n"
      using Cons.prems(1) by (auto split: if_splits option.splits)
    show ?thesis
      using False Cons.prems Cons.IH [of "Suc i" acc] n r [OF n]
        Cons.IH [of "Suc i" "acc @ [\<lparr>c_solochain = solo op, c_stake = n, c_operator = op\<rparr>]"]
      by (cases "n = 0") (auto simp: d candidates_of_def split: if_splits)
  qed
qed

section \<open>The order of the rewards\<close>

text \<open>One round of the insertion sort, on the part in front of the position and the part behind it.\<close>

lemma shift_down_insert:
  "\<exists>r. shift_down (xs @ y # zs) key (length xs) = r @ zs \<and>
     (\<forall>k. filter (\<lambda>a. fst a = k) r = filter (\<lambda>a. fst a = k) (xs @ [key])) \<and>
     mset r = mset (xs @ [key]) \<and> (sorted (map fst xs) \<longrightarrow> sorted (map fst r))"
proof (induction xs arbitrary: y zs rule: rev_induct)
  case Nil
  show ?case by (intro exI [of _ "[key]"]) (simp add: shift_down.simps [of _ _ 0])
next
  case (snoc x xs)
  show ?case
  proof (cases "fst key < fst x")
    case True
    obtain r where r: "shift_down (xs @ x # x # zs) key (length xs) = r @ x # zs"
        "\<And>k. filter (\<lambda>a. fst a = k) r = filter (\<lambda>a. fst a = k) (xs @ [key])"
        "mset r = mset (xs @ [key])" "sorted (map fst xs) \<Longrightarrow> sorted (map fst r)"
      using snoc.IH [of x "x # zs"] by blast
    have set: "set r = insert key (set xs)" using r(3) by (metis list.set(2) mset_append mset_eq_setD rotate1.simps(2) set_rotate1)
    have "shift_down ((xs @ [x]) @ y # zs) key (length (xs @ [x])) = shift_down (xs @ x # x # zs) key (length xs)"
      using True by (subst shift_down.simps) (simp add: nth_append list_update_append)
    then show ?thesis
      using True r set by (intro exI [of _ "r @ [x]"]) (auto simp: sorted_append)
  next
    case False
    then have "shift_down ((xs @ [x]) @ y # zs) key (length (xs @ [x])) = (xs @ [x, key]) @ zs"
      by (subst shift_down.simps) (simp add: nth_append list_update_append)
    then show ?thesis
      using False by (intro exI [of _ "xs @ [x, key]"]) (auto simp: sorted_append)
  qed
qed

lemma sort_rounds:
  "n \<le> length rs \<Longrightarrow> 0 < n \<Longrightarrow>
     \<exists>r. foldl (\<lambda>rs i. shift_down rs (rs ! i) i) rs [1..<n] = r @ drop n rs \<and>
       (\<forall>k. filter (\<lambda>a. fst a = k) r = filter (\<lambda>a. fst a = k) (take n rs)) \<and>
       mset r = mset (take n rs) \<and> sorted (map fst r)"
proof (induction n)
  case (Suc n)
  show ?case
  proof (cases "n = 0")
    case True
    with Suc.prems show ?thesis by (intro exI [of _ "take 1 rs"]) (cases rs; simp)
  next
    case False
    with Suc obtain r where r: "foldl (\<lambda>rs i. shift_down rs (rs ! i) i) rs [1..<n] = r @ drop n rs"
        "\<And>k. filter (\<lambda>a. fst a = k) r = filter (\<lambda>a. fst a = k) (take n rs)"
        "mset r = mset (take n rs)" "sorted (map fst r)"
      by auto
    have n: "drop n rs = rs ! n # drop (Suc n) rs" "take (Suc n) rs = take n rs @ [rs ! n]"
      using Suc.prems by (simp_all add: Cons_nth_drop_Suc take_Suc_conv_app_nth)
    have len: "length r = n" using r(3) Suc.prems by (metis length_take min_absorb2 Suc_leD size_mset)
    obtain r' where "shift_down (r @ rs ! n # drop (Suc n) rs) (rs ! n) (length r) = r' @ drop (Suc n) rs"
        "\<And>k. filter (\<lambda>a. fst a = k) r' = filter (\<lambda>a. fst a = k) (r @ [rs ! n])"
        "mset r' = mset (r @ [rs ! n])" "sorted (map fst r')"
      using shift_down_insert [of r "rs ! n" "drop (Suc n) rs" "rs ! n"] r(4) by blast
    then show ?thesis using False r len by (intro exI [of _ r']) (simp add: n nth_append)
  qed
qed simp

lemma sortOperatorRewards_sort_key: "sortOperatorRewards rs = sort_key fst rs"
proof (cases "rs = []")
  case False
  then obtain r where r: "sortOperatorRewards rs = r" "mset r = mset rs" "sorted (map fst r)"
      "\<And>k. filter (\<lambda>a. fst a = k) r = filter (\<lambda>a. fst a = k) rs"
    using sort_rounds [of "length rs" rs] by (auto simp: sortOperatorRewards_def)
  have "sort_key fst rs = r"
    using r by (intro properties_for_sort_key) (simp_all add: eq_commute)
  then show ?thesis using r(1) by simp
qed (simp add: sortOperatorRewards_def)

definition known_rewards :: "(address \<Rightarrow> address) \<Rightarrow> (address \<times> nat) list \<Rightarrow> (address \<times> nat) list" where
  "known_rewards eth rs = map (\<lambda>(a, amount). (eth a, amount)) (filter (\<lambda>(a, _). eth a \<noteq> 0) rs)"

lemma translate_loop_result:
  "translate_loop eth rs acc tot = Some (out, tot') \<longleftrightarrow>
     out = acc @ known_rewards eth rs \<and> tot' = tot + sum_list (map snd (known_rewards eth rs)) \<and>
     (known_rewards eth rs = [] \<or> tot' \<le> uint256_max)"
proof (induction eth rs acc tot rule: translate_loop.induct)
  case (2 eth operator amount rs translated tot)
  then show ?case by (auto simp: known_rewards_def)
qed (auto simp: known_rewards_def)

lemma known_rewards_distinct:
  assumes "sm_inv s" "distinct (map fst rs)"
  shows "distinct (map fst (known_rewards (validatorSolochainAddressToEthAddress s) rs))"
proof -
  have inj: "a = b" if "validatorSolochainAddressToEthAddress s a = validatorSolochainAddressToEthAddress s b"
      "validatorSolochainAddressToEthAddress s a \<noteq> 0" for a b
    using that assms(1) unfolding sm_inv_def by metis
  show ?thesis
    using assms(2) by (induction rs) (auto simp: known_rewards_def, metis fst_conv image_eqI inj)
qed

section \<open>Slashes\<close>

text \<open>The slashes that reach the allocation manager, in order.\<close>

definition slashes_sent :: "(address \<Rightarrow> address) \<Rightarrow> slashing_call list \<Rightarrow> slashing_params list" where
  "slashes_sent eth sls =
     map (\<lambda>sl. \<lparr>slp_operator = eth (slc_operator sl), slp_operatorSetId = VALIDATORS_SET_ID,
              slp_strategies = slc_strategies sl, slp_wadsToSlash = slc_wadsToSlash sl,
              slp_description = slc_description sl\<rparr>)
       (filter (\<lambda>sl. eth (slc_operator sl) \<noteq> 0) sls)"

lemma slash_loop_sent:
  "slash_loop env eth sls w =
     foldl (\<lambda>r p. Option.bind r (am_slashOperator env p)) (Some w) (slashes_sent eth sls)"
proof (induction sls arbitrary: w)
  case (Cons sl sls)
  have none: "foldl (\<lambda>r p. Option.bind r (am_slashOperator env p)) None ps = None" for ps
    by (induction ps) simp_all
  show ?case
    using Cons by (auto simp: slashes_sent_def none split: option.splits)
qed (simp add: slashes_sent_def)

section \<open>Properties\<close>

text \<open>
  A world for the examples: the list of the operators slashed so far. The operator set has the
  members 7, 8 and 9 and the strategies 1 and 2.
\<close>

definition sample_sm_env :: "address list sm_env" where
  "sample_sm_env =
     \<lparr>sm_this = 100, sm_proxy_admin = 101, allocationManager = 102, rewardsCoordinator = 103,
      isMemberOfOperatorSet = (\<lambda>a w. List.member [7, 8, 9] a), getMembers = (\<lambda>w. [7, 8, 9]),
      getStrategiesInOperatorSet = (\<lambda>w. [1, 2]),
      getAllocatedStake = (\<lambda>ops sts w. [[5, 0], [1, 9], [0, 0]]),
      am_updateAVSMetadataURI = (\<lambda>uri w. Some w), am_createOperatorSets = (\<lambda>sets w. Some w),
      am_addStrategiesToOperatorSet = (\<lambda>n sts w. Some w),
      am_removeStrategiesFromOperatorSet = (\<lambda>n sts w. Some w),
      am_slashOperator = (\<lambda>p w. Some (w @ [slp_operator p])),
      am_deregisterFromOperatorSets = (\<lambda>f op ids sw. case f sw of Inl e \<Rightarrow> None | Inr sw' \<Rightarrow> Some sw'),
      safeIncreaseAllowance = (\<lambda>token spender n w. Some w), rc_createSubmission = (\<lambda>sub w. Some w),
      v2_sendMessage = (\<lambda>gw v message f1 f2 w. Some w),
      scaleEncodePayload = (\<lambda>vs era. concat (map h160_bytes vs)), sm_keccak = (\<lambda>bs. 0)\<rparr>"

definition sample_sm_state :: sm_state where
  "sample_sm_state =
     \<lparr>sm_initialized = True, sm_owner = 50, snowbridgeInitiator = 51,
      validatorsAllowlist = (\<lambda>_. False)(7 := True, 8 := True),
      sm_gateway = 52, validatorEthAddressToSolochainAddress = (\<lambda>_. 0)(7 := 70, 8 := 80),
      validatorSolochainAddressToEthAddress = (\<lambda>_. 0)(70 := 7, 80 := 8), validatorSetSubmitter = 53,
      strategiesAndMultipliers = (\<lambda>_. 0)(1 := 10, 2 := 20), sm_version = ''1'',
      sm_events = [SnowbridgeInitiatorSet 0 51, ValidatorSetSubmitterUpdated 0 53,
        ValidatorAddedToAllowlist 7, ValidatorAddedToAllowlist 8, OperatorRegistered 7 0, OperatorRegistered 8 0]\<rparr>"

lemma sample_callback_only: "callback_only sample_sm_env"
  by (auto simp: callback_only_def sample_sm_env_def split: sum.splits)

lemma sample_sm_reach: "sm_reach sample_sm_env (sample_sm_state, [])"
proof -
  let ?am = "\<lparr>msg_sender = 102, msg_value = 0\<rparr>" and ?own = "\<lparr>msg_sender = 50, msg_value = 0\<rparr>"
  define s1 where "s1 = emit (ValidatorSetSubmitterUpdated 0 53) (emit (SnowbridgeInitiatorSet 0 51)
    (sm_empty\<lparr>sm_initialized := True, sm_owner := 50, snowbridgeInitiator := 51, sm_gateway := 52,
      validatorSetSubmitter := 53, sm_version := ''1'', strategiesAndMultipliers := (\<lambda>_. 0)(1 := 10, 2 := 20)\<rparr>))"
  define s2 where "s2 = emit (ValidatorAddedToAllowlist 7) (s1\<lparr>validatorsAllowlist := (\<lambda>_. False)(7 := True)\<rparr>)"
  define s3 where "s3 = emit (ValidatorAddedToAllowlist 8) (s2\<lparr>validatorsAllowlist := (\<lambda>_. False)(7 := True, 8 := True)\<rparr>)"
  define s4 where "s4 = emit (OperatorRegistered 7 0)
    (s3\<lparr>validatorEthAddressToSolochainAddress := (\<lambda>_. 0)(7 := 70), validatorSolochainAddressToEthAddress := (\<lambda>_. 0)(70 := 7)\<rparr>)"
  note defs = emit_def sm_empty_def s1_def s2_def s3_def s4_def
  have a: "toAddress (replicate 19 0 @ [70]) = Inr 70" "toAddress (replicate 19 0 @ [80]) = Inr 80"
    by code_simp+
  have 1: "initialize sample_sm_env 50 51 [(1, 10), (2, 20)] 52 53 ''1'' (sm_empty, []) = Inr (s1, [])"
    by (simp add: initialize_def set_multipliers_def sample_sm_env_def defs)
  have 2: "addValidatorToAllowlist ?own 7 (s1, []) = Inr (s2, [])"
    by (simp add: addValidatorToAllowlist_def defs)
  have 3: "addValidatorToAllowlist ?own 8 (s2, []) = Inr (s3, [])"
    by (simp add: addValidatorToAllowlist_def defs)
  have 4: "registerOperator sample_sm_env ?am 7 100 [0] (replicate 19 0 @ [70]) (s3, []) = Inr (s4, [])"
    by (simp add: registerOperator_def a sample_sm_env_def VALIDATORS_SET_ID_def defs del: append_Cons)
  have 5: "registerOperator sample_sm_env ?am 8 100 [0] (replicate 19 0 @ [80]) (s4, []) = Inr (sample_sm_state, [])"
    by (simp add: registerOperator_def a sample_sm_env_def sample_sm_state_def VALIDATORS_SET_ID_def defs)
  show ?thesis
    using sm_reach.fresh [of sample_sm_env "[]"] 1 2 3 4 5
    by (meson sm_reach.step sm_step.initialized sm_step.allowed sm_step.registered)
qed

text \<open>
  C13. In every reachable state of the service manager an operator is mapped to a solochain address
  exactly when the address is mapped to the operator: no two operators share an address and no
  removal or change of an address leaves a stale entry. (With the allocation manager's
  deregistration changing the contract through the callback only.)
\<close>

theorem address_maps_inverse:
  assumes "sm_reach env (s, w)" "callback_only env" "e \<noteq> 0" "a \<noteq> 0"
  shows "validatorEthAddressToSolochainAddress s e = a \<longleftrightarrow> validatorSolochainAddressToEthAddress s a = e"
  using sm_reach_inv [OF assms(1,2)] assms(3,4) by (auto simp: sm_inv_def)

theorem address_maps_inverse_witness:
  "(validatorEthAddressToSolochainAddress sample_sm_state 7 = 70) =
     (validatorSolochainAddressToEthAddress sample_sm_state 70 = 7) \<and>
   validatorEthAddressToSolochainAddress sample_sm_state 7 = 70"
  using address_maps_inverse [OF sample_sm_reach sample_callback_only, of 7 70]
  by (simp add: sample_sm_state_def)

text \<open>
  C9. The validator set message for an era carries the solochain addresses of the best candidates.
  The candidates are exactly the members of the operator set that have a solochain address and a
  positive stake weighted with the multipliers; the message holds 32 of them, or all when there
  are fewer, in descending order of stake (of equal stake the lower operator first), and no
  candidate left out is better than one chosen. (With one row of stakes per member.)
\<close>

theorem validator_set_is_best:
  assumes "buildNewValidatorSetMessageForEra env era (s, w) = Inr message"
    and "length (getAllocatedStake env (getMembers env w) (getStrategiesInOperatorSet env w) w) = length (getMembers env w)"
  shows "\<exists>chosen rest. message = scaleEncodePayload env (map c_solochain chosen) era \<and>
    mset (chosen @ rest) = mset (candidates_of (validatorEthAddressToSolochainAddress s) (strategiesAndMultipliers s)
      (getStrategiesInOperatorSet env w)
      (zip (getMembers env w) (getAllocatedStake env (getMembers env w) (getStrategiesInOperatorSet env w) w))) \<and>
    chosen \<noteq> [] \<and> length chosen = min (length (chosen @ rest)) 32 \<and>
    sorted_wrt (\<lambda>a b. \<not> isBetterCandidate b a) chosen \<and>
    (\<forall>c \<in> set chosen. \<forall>d \<in> set rest. \<not> isBetterCandidate d c)"
proof -
  let ?cs = "candidates_of (validatorEthAddressToSolochainAddress s) (strategiesAndMultipliers s)
      (getStrategiesInOperatorSet env w)
      (zip (getMembers env w) (getAllocatedStake env (getMembers env w) (getStrategiesInOperatorSet env w) w))"
  from assms(1) obtain cs where cs: "validator_candidates env (s, w) = Some cs" "cs \<noteq> []"
    "message = scaleEncodePayload env (select_validators cs) era"
    by (auto simp: buildNewValidatorSetMessageForEra_def split: option.splits if_splits)
  have "cs = ?cs"
    using candidates_loop_result cs(1) assms(2) by (fastforce simp: validator_candidates_def Let_def)
  obtain chosen rest where ch: "mset (chosen @ rest) = mset cs" "select_validators cs = map c_solochain chosen"
    "length chosen = min (length cs) MAX_ACTIVE_VALIDATORS" "sorted_wrt (\<lambda>a b. \<not> isBetterCandidate b a) chosen"
    "\<And>c d. c \<in> set chosen \<Longrightarrow> d \<in> set rest \<Longrightarrow> \<not> isBetterCandidate d c"
    using select_validators_best [of cs] by blast
  have len: "length (chosen @ rest) = length cs" using ch(1) by (metis size_mset)
  have "chosen \<noteq> []" using ch(3) cs(2) by (auto simp: MAX_ACTIVE_VALIDATORS_def min_def split: if_splits)
  then show ?thesis
    using ch cs(3) len unfolding \<open>cs = ?cs\<close> MAX_ACTIVE_VALIDATORS_def by metis
qed

theorem validator_set_is_best_witness:
  "\<exists>chosen rest. h160_bytes 80 @ h160_bytes 70 =
      scaleEncodePayload sample_sm_env (map c_solochain chosen) 3 \<and>
    mset (chosen @ rest) = {#\<lparr>c_solochain = 70, c_stake = 50, c_operator = 7\<rparr>,
      \<lparr>c_solochain = 80, c_stake = 190, c_operator = 8\<rparr>#} \<and> sorted_wrt (\<lambda>a b. \<not> isBetterCandidate b a) chosen"
proof -
  have "validator_candidates sample_sm_env (sample_sm_state, []) =
      Some [\<lparr>c_solochain = 70, c_stake = 50, c_operator = 7\<rparr>, \<lparr>c_solochain = 80, c_stake = 190, c_operator = 8\<rparr>]"
    by (simp add: validator_candidates_def sample_sm_env_def sample_sm_state_def uint256_max_def)
  moreover have "select_validators [\<lparr>c_solochain = 70, c_stake = 50, c_operator = 7\<rparr>,
      \<lparr>c_solochain = 80, c_stake = 190, c_operator = 8\<rparr>] = [80, 70]"
    by code_simp
  ultimately have b: "buildNewValidatorSetMessageForEra sample_sm_env 3 (sample_sm_state, []) =
      Inr (h160_bytes 80 @ h160_bytes 70)"
    by (simp add: buildNewValidatorSetMessageForEra_def sample_sm_env_def)
  have c: "candidates_of (validatorEthAddressToSolochainAddress sample_sm_state) (strategiesAndMultipliers sample_sm_state)
      (getStrategiesInOperatorSet sample_sm_env [])
      (zip (getMembers sample_sm_env [])
        (getAllocatedStake sample_sm_env (getMembers sample_sm_env []) (getStrategiesInOperatorSet sample_sm_env []) [])) =
      [\<lparr>c_solochain = 70, c_stake = 50, c_operator = 7\<rparr>, \<lparr>c_solochain = 80, c_stake = 190, c_operator = 8\<rparr>]"
    by (simp add: candidates_of_def row_stake_def sample_sm_env_def sample_sm_state_def)
  show ?thesis
    using validator_set_is_best [OF b] unfolding c by (simp add: sample_sm_env_def) blast
qed

text \<open>
  An accepted reward submission comes from the initiator. When it names a registered validator,
  the coordinator is first allowed the sum of the amounts that it will distribute, without
  overflow, and then gets the submission with the operators that are registered, each under its
  Ethereum address with its own amount, in strictly ascending order as it demands (where no
  operator is named twice); the entries of unknown operators are left out.
\<close>

theorem reward_submission_translated:
  assumes "sm_reach env (s, w)" "callback_only env" "submitRewards env m submission (s, w) = Inr (s', w')"
    and "distinct (map fst (ors_operatorRewards submission))"
    and "known_rewards (validatorSolochainAddressToEthAddress s) (ors_operatorRewards submission) \<noteq> []"
  shows "msg_sender m = snowbridgeInitiator s \<and>
    (\<exists>rewards w1. mset rewards = mset (known_rewards (validatorSolochainAddressToEthAddress s) (ors_operatorRewards submission)) \<and>
       sorted_wrt (\<lambda>a b. fst a < fst b) rewards \<and> sum_list (map snd rewards) \<le> uint256_max \<and>
       safeIncreaseAllowance env (ors_token submission) (rewardsCoordinator env) (sum_list (map snd rewards)) w = Some w1 \<and>
       rc_createSubmission env (submission\<lparr>ors_operatorRewards := rewards\<rparr>) w1 = Some w')"
proof -
  let ?k = "known_rewards (validatorSolochainAddressToEthAddress s) (ors_operatorRewards submission)"
  let ?t = "sum_list (map snd ?k)"
  have m: "msg_sender m = snowbridgeInitiator s"
    using assms(3) by (auto simp: submitRewards_def split: if_splits)
  obtain out tot where tl: "translate_loop (validatorSolochainAddressToEthAddress s) (ors_operatorRewards submission) [] 0 = Some (out, tot)"
    using assms(3) by (auto simp: submitRewards_def split: if_splits option.splits)
  then have o: "out = ?k" "tot = ?t" "?t \<le> uint256_max"
    using assms(5) by (auto simp: translate_loop_result)
  obtain w1 where w1: "safeIncreaseAllowance env (ors_token submission) (rewardsCoordinator env) ?t w = Some w1"
      "rc_createSubmission env (submission\<lparr>ors_operatorRewards := sort_key fst ?k\<rparr>) w1 = Some w'"
    using assms(3,5) m tl o by (auto simp: submitRewards_def sortOperatorRewards_sort_key Let_def split: option.splits)
  have "distinct (map fst ?k)"
    using known_rewards_distinct [OF _ assms(4)] sm_reach_inv [OF assms(1,2)] by simp
  then have "distinct (map fst (sort_key fst ?k))"
    by (metis mset_eq_imp_distinct_iff mset_map mset_sort)
  then have s: "sorted_wrt (\<lambda>a b. fst a < fst b) (sort_key fst ?k)"
    using strict_sorted_iff [of "map fst (sort_key fst ?k)"] sorted_sort_key [of fst ?k] by (simp add: sorted_wrt_map)
  have "sum_list (map snd (sort_key fst ?k)) = ?t"
    by (metis mset_map mset_sort sum_mset_sum_list)
  then show ?thesis using m o(3) w1 s by (intro conjI exI [of _ "sort_key fst ?k"] exI [of _ w1]) simp_all
qed

definition sample_submission :: operator_rewards_submission where
  "sample_submission =
     \<lparr>ors_strategies = [(1, 1)], ors_token = 60, ors_operatorRewards = [(80, 5), (33, 9), (70, 4)],
      ors_startTimestamp = 0, ors_duration = 86400, ors_description = ''rewards''\<rparr>"

theorem reward_submission_translated_witness:
  "\<exists>(rewards :: (address \<times> nat) list) w1. mset rewards = {#(8, 5), (7, 4)#} \<and> sorted_wrt (\<lambda>a b. fst a < fst b) rewards \<and>
     sum_list (map snd rewards) \<le> uint256_max \<and> safeIncreaseAllowance sample_sm_env 60 103 (sum_list (map snd rewards)) [] = Some w1"
proof -
  let ?m = "\<lparr>msg_sender = 51, msg_value = 0\<rparr>"
  have k: "known_rewards (validatorSolochainAddressToEthAddress sample_sm_state) (ors_operatorRewards sample_submission) = [(8, 5), (7, 4)]"
    by (simp add: known_rewards_def sample_sm_state_def sample_submission_def)
  have r: "submitRewards sample_sm_env ?m sample_submission (sample_sm_state, []) = Inr (emit (RewardsSubmitted 9 (Suc (Suc 0))) sample_sm_state, [])"
    by (simp add: submitRewards_def translate_loop_result k [simplified] sample_sm_env_def sample_sm_state_def
        sample_submission_def uint256_max_def external_def)
  show ?thesis
    using reward_submission_translated [OF sample_sm_reach sample_callback_only r] unfolding k
    by (auto simp: sample_submission_def sample_sm_env_def)
qed

text \<open>
  An accepted slashing request comes from the initiator and changes nothing of the contract but
  its log; the allocation manager is asked, in order, for exactly the slashes whose validator is
  registered, each against an operator that holds the solochain address of the request, with the
  strategies and proportions of the request.
\<close>

theorem slashing_request_forwarded:
  assumes "sm_reach env (s, w)" "callback_only env" "slashValidatorsOperator env m slashings (s, w) = Inr (s', w')"
  shows "msg_sender m = snowbridgeInitiator s \<and> s' = emit SlashingComplete s \<and>
    foldl (\<lambda>r p. Option.bind r (am_slashOperator env p)) (Some w)
      (slashes_sent (validatorSolochainAddressToEthAddress s) slashings) = Some w' \<and>
    map slp_wadsToSlash (slashes_sent (validatorSolochainAddressToEthAddress s) slashings) =
      map slc_wadsToSlash (filter (\<lambda>sl. validatorSolochainAddressToEthAddress s (slc_operator sl) \<noteq> 0) slashings) \<and>
    map (validatorEthAddressToSolochainAddress s \<circ> slp_operator)
        (slashes_sent (validatorSolochainAddressToEthAddress s) slashings) =
      map slc_operator (filter (\<lambda>sl. validatorSolochainAddressToEthAddress s (slc_operator sl) \<noteq> 0) slashings)"
proof -
  have inv: "\<And>a. validatorSolochainAddressToEthAddress s a \<noteq> 0 \<Longrightarrow>
      validatorEthAddressToSolochainAddress s (validatorSolochainAddressToEthAddress s a) = a"
    using sm_reach_inv [OF assms(1,2)] by (simp add: sm_inv_def)
  have "map (validatorEthAddressToSolochainAddress s \<circ> slp_operator)
        (slashes_sent (validatorSolochainAddressToEthAddress s) slashings) =
      map slc_operator (filter (\<lambda>sl. validatorSolochainAddressToEthAddress s (slc_operator sl) \<noteq> 0) slashings)"
    using inv by (simp add: slashes_sent_def)
  moreover have "map slp_wadsToSlash (slashes_sent (validatorSolochainAddressToEthAddress s) slashings) =
      map slc_wadsToSlash (filter (\<lambda>sl. validatorSolochainAddressToEthAddress s (slc_operator sl) \<noteq> 0) slashings)"
    by (simp add: slashes_sent_def)
  ultimately show ?thesis
    using assms(3) by (auto simp: slashValidatorsOperator_def slash_loop_sent split: if_splits)
qed

definition sample_slash :: "address \<Rightarrow> slashing_call" where
  "sample_slash a = \<lparr>slc_operator = a, slc_strategies = [1], slc_wadsToSlash = [50], slc_description = []\<rparr>"

theorem slashing_request_forwarded_witness:
  "foldl (\<lambda>r p. Option.bind r (am_slashOperator sample_sm_env p)) (Some [])
      (slashes_sent (validatorSolochainAddressToEthAddress sample_sm_state) [sample_slash 80, sample_slash 5]) = Some [8] \<and>
   map (validatorEthAddressToSolochainAddress sample_sm_state \<circ> slp_operator)
        (slashes_sent (validatorSolochainAddressToEthAddress sample_sm_state) [sample_slash 80, sample_slash 5]) = [80]"
proof -
  let ?m = "\<lparr>msg_sender = 51, msg_value = 0\<rparr>"
  have r: "slashValidatorsOperator sample_sm_env ?m [sample_slash 80, sample_slash 5] (sample_sm_state, []) =
      Inr (emit SlashingComplete sample_sm_state, [8])"
    by (simp add: slashValidatorsOperator_def sample_slash_def sample_sm_env_def sample_sm_state_def)
  show ?thesis
    using slashing_request_forwarded [OF sample_sm_reach sample_callback_only r]
    by (simp add: sample_sm_state_def sample_slash_def)
qed

text \<open>
  C40. A validator can change its solochain address at any time, and a slashing request that names
  the address it had before is then accepted without slashing anyone: the request reports
  completion, and the allocation manager is never called for it.
\<close>

theorem updated_validator_escapes_slash:
  assumes "updateSolochainAddressForValidator env v a (s, w) = Inr (s', w1)"
    and "msg_sender m = snowbridgeInitiator s"
    and "\<And>sl. sl \<in> set slashings \<Longrightarrow> slc_operator sl = validatorEthAddressToSolochainAddress s (msg_sender v)"
  shows "slashValidatorsOperator env m slashings (s', w2) = Inr (emit SlashingComplete s', w2)"
proof -
  have "validatorSolochainAddressToEthAddress s' (validatorEthAddressToSolochainAddress s (msg_sender v)) = 0"
      "snowbridgeInitiator s' = snowbridgeInitiator s"
    using assms(1) by (auto simp: updateSolochainAddressForValidator_def Let_def split: if_splits)
  moreover from this have "slashes_sent (validatorSolochainAddressToEthAddress s') slashings = []"
    using assms(3) by (auto simp: slashes_sent_def filter_empty_conv)
  ultimately show ?thesis
    using assms(2) by (simp add: slashValidatorsOperator_def slash_loop_sent)
qed

theorem updated_validator_escapes_slash_witness:
  "\<exists>s'. updateSolochainAddressForValidator sample_sm_env \<lparr>msg_sender = 7, msg_value = 0\<rparr> 71 (sample_sm_state, []) = Inr (s', []) \<and>
     slashValidatorsOperator sample_sm_env \<lparr>msg_sender = 51, msg_value = 0\<rparr> [sample_slash 70] (sample_sm_state, []) =
       Inr (emit SlashingComplete sample_sm_state, [7]) \<and>
     slashValidatorsOperator sample_sm_env \<lparr>msg_sender = 51, msg_value = 0\<rparr> [sample_slash 70] (s', []) =
       Inr (emit SlashingComplete s', [])"
proof -
  define s' where "s' = emit (SolochainAddressUpdated 7 71)
    (sample_sm_state\<lparr>validatorEthAddressToSolochainAddress := (validatorEthAddressToSolochainAddress sample_sm_state)(7 := 71),
       validatorSolochainAddressToEthAddress := ((validatorSolochainAddressToEthAddress sample_sm_state)(70 := 0))(71 := 7)\<rparr>)"
  have u: "updateSolochainAddressForValidator sample_sm_env \<lparr>msg_sender = 7, msg_value = 0\<rparr> 71 (sample_sm_state, []) = Inr (s', [])"
    unfolding s'_def
    by (simp add: updateSolochainAddressForValidator_def sample_sm_env_def sample_sm_state_def Let_def)
  have "slashValidatorsOperator sample_sm_env \<lparr>msg_sender = 51, msg_value = 0\<rparr> [sample_slash 70] (s', []) =
      Inr (emit SlashingComplete s', [])"
    by (rule updated_validator_escapes_slash [OF u])
      (simp_all add: sample_sm_state_def sample_slash_def)
  moreover have "slashValidatorsOperator sample_sm_env \<lparr>msg_sender = 51, msg_value = 0\<rparr> [sample_slash 70] (sample_sm_state, []) =
      Inr (emit SlashingComplete sample_sm_state, [7])"
    by (simp add: slashValidatorsOperator_def sample_slash_def sample_sm_env_def sample_sm_state_def)
  ultimately show ?thesis using u by blast
qed

end
