(* ===== verification/Sparse_Bitmap.thy ===== *)
theory Sparse_Bitmap
  imports DH_Prelude
begin

text \<open>
  The sparse bitmap of \<open>primitives/snowbridge/core/src/sparse_bitmap.rs\<close>, a storage map of 128-bit
  buckets that records which indices were set, and the interface \<open>nonce_tracker\<close> that the inbound
  queue uses it through. The lemmas show that the bitmap implements a set of 128-bit indices.
\<close>

unbundle bit_operations_syntax

section \<open>The bitmap\<close>

text \<open>The storage map has value queries: an absent bucket reads as zero.\<close>

type_synonym bitmap = "u128 \<Rightarrow> u128"

definition compute_bucket_and_mask :: "u128 \<Rightarrow> u128 \<times> u128" where
  "compute_bucket_and_mask index = (drop_bit 7 index, push_bit (unat (index AND 127)) 1)"

definition bitmap_get :: "bitmap \<Rightarrow> u128 \<Rightarrow> bool" where
  "bitmap_get b index =
     (let (bucket, msk) = compute_bucket_and_mask index; bucket_value = b bucket in
      bucket_value AND msk \<noteq> 0)"

definition bitmap_set :: "bitmap \<Rightarrow> u128 \<Rightarrow> bitmap" where
  "bitmap_set b index =
     (let (bucket, msk) = compute_bucket_and_mask index in b(bucket := b bucket OR msk))"

section \<open>Trackers of seen indices\<close>

locale nonce_tracker =
  fixes seen :: "'s \<Rightarrow> 'n \<Rightarrow> bool" and mark :: "'s \<Rightarrow> 'n \<Rightarrow> 's"
  assumes seen_mark: "seen (mark s n) m \<longleftrightarrow> m = n \<or> seen s m"
begin

definition seen_set :: "'s \<Rightarrow> 'n set" where
  "seen_set s = {n. seen s n}"

lemma seen_set_mark: "seen_set (mark s n) = insert n (seen_set s)"
  by (auto simp: seen_set_def seen_mark)

lemma seen_mark_self: "seen (mark s n) n"
  by (simp add: seen_mark)

lemma seen_mono: "seen s m \<Longrightarrow> seen (mark s n) m"
  by (simp add: seen_mark)

lemma seen_foldl: "seen_set (foldl mark s ns) = seen_set s \<union> set ns"
  by (induction ns arbitrary: s) (auto simp: seen_set_mark)

end

section \<open>The bitmap is a tracker\<close>

lemma low_bits: "unat (i AND 127 :: u128) < 128"
proof -
  have "i AND 127 = take_bit 7 i" by (simp add: take_bit_eq_mask mask_eq_exp_minus_1)
  then show ?thesis using take_bit_nat_less_exp [of 7 "unat i"] by (simp add: unsigned_take_bit_eq)
qed

lemma bucket_low_eq:
  fixes i j :: u128
  assumes "drop_bit 7 i = drop_bit 7 j" and "unat (i AND 127) = unat (j AND 127)"
  shows "i = j"
proof -
  have "i AND 127 = j AND 127" using assms(2) by (simp add: unsigned_word_eqI)
  then have "take_bit 7 i = take_bit 7 j" by (simp add: take_bit_eq_mask mask_eq_exp_minus_1)
  with assms(1) show ?thesis by (metis bits_ident)
qed

lemma and_mask_nonzero:
  fixes v :: u128
  assumes "k < 128"
  shows "v AND push_bit k 1 \<noteq> 0 \<longleftrightarrow> bit v k"
proof
  assume "bit v k"
  then have "bit (v AND push_bit k 1) k" using assms by (simp add: bit_simps)
  then show "v AND push_bit k 1 \<noteq> 0" by auto
next
  assume "v AND push_bit k 1 \<noteq> 0"
  then obtain n where "bit (v AND push_bit k 1) n" by (metis bit_eq_iff bit_0_eq bot_apply bot_bool_def)
  then show "bit v k" by (auto simp: bit_simps)
qed

lemma bitmap_get_bit: "bitmap_get b i \<longleftrightarrow> bit (b (drop_bit 7 i)) (unat (i AND 127))"
  by (simp add: bitmap_get_def compute_bucket_and_mask_def and_mask_nonzero low_bits del: push_bit_of_1)

lemma bitmap_get_set: "bitmap_get (bitmap_set b i) j \<longleftrightarrow> j = i \<or> bitmap_get b j"
proof (cases "drop_bit 7 i = drop_bit 7 j")
  case True
  have "bit (b (drop_bit 7 j) OR push_bit (unat (i AND 127)) 1) (unat (j AND 127)) \<longleftrightarrow>
      unat (j AND 127) = unat (i AND 127) \<or> bit (b (drop_bit 7 j)) (unat (j AND 127))"
    using low_bits [of j] by (auto simp: bit_simps)
  moreover have "unat (j AND 127) = unat (i AND 127) \<longleftrightarrow> j = i"
    using bucket_low_eq True by metis
  ultimately show ?thesis
    using True by (simp add: bitmap_get_bit bitmap_set_def compute_bucket_and_mask_def del: push_bit_of_1)
next
  case False
  then show ?thesis by (auto simp: bitmap_get_bit bitmap_set_def compute_bucket_and_mask_def)
qed

interpretation nonces: nonce_tracker bitmap_get bitmap_set
  by unfold_locales (rule bitmap_get_set)

section \<open>Properties\<close>

text \<open>
  C28. The bitmap refines a set of 128-bit indices: reading is membership, setting an index inserts
  exactly that index, so after any sequence of settings on the empty bitmap exactly the set
  indices read as set.
\<close>

theorem bitmap_refines_set:
  "{n. bitmap_get (bitmap_set b i) n} = insert i {n. bitmap_get b n} \<and>
   {n. bitmap_get (foldl bitmap_set (\<lambda>_. 0) is) n} = set is"
proof -
  have "{n. bitmap_get (\<lambda>_. 0) n} = {}" by (simp add: bitmap_get_bit)
  then show ?thesis
    using nonces.seen_foldl [of "\<lambda>_. 0" "is"] nonces.seen_set_mark [of b i]
    by (simp add: nonces.seen_set_def)
qed

end
