(* ===== verification/Native_Transfer.thy ===== *)
theory Native_Transfer
  imports Outbound_Queue
begin

text \<open>
  The pallet \<open>pallets/datahaven-native-transfer\<close>: native tokens leave for Ethereum by being locked
  in a sovereign account while a mint message is sent, and come back by being unlocked from it.

  The balances pallet and the outbound queue are parameters over the state \<open>'w\<close> behind the
  pallet; \<open>currency_laws\<close> collects what the code relies on of a transfer that preserves the
  account. A call that returns an error is rolled back by the framework, so it has no successor
  state. The lemmas show the effect of each call and that the sovereign account always holds what was
  sent to Ethereum less what was paid out of it, up to what others moved into or out of it.
\<close>

section \<open>Interface of the balances pallet\<close>

record 'w currency =
  cur_transfer :: "AccountId \<Rightarrow> AccountId \<Rightarrow> nat \<Rightarrow> 'w \<Rightarrow> 'w option"
  cur_balance :: "AccountId \<Rightarrow> 'w \<Rightarrow> nat"
  cur_minimum_balance :: nat

text \<open>
  A transfer with \<open>Preservation::Preserve\<close> moves exactly the amount, leaves every other account as
  it is, and leaves the sender at least the existential deposit.
\<close>

definition currency_laws :: "'w currency \<Rightarrow> bool" where
  "currency_laws C \<longleftrightarrow>
     (\<forall>a b n w w'. cur_transfer C a b n w = Some w' \<longrightarrow> n \<le> cur_balance C a w \<and>
        (\<forall>c. cur_balance C c w' =
           (if a = b then cur_balance C c w
            else if c = a then cur_balance C a w - n
            else if c = b then cur_balance C b w + n else cur_balance C c w)) \<and>
        cur_minimum_balance C \<le> cur_balance C a w')"

section \<open>State\<close>

datatype nt_event =
    TokensLocked AccountId nat
  | TokensUnlocked AccountId nat
  | TokensTransferredToEthereum AccountId H160 nat
  | PausedEvent
  | UnpausedEvent

datatype nt_error =
    NtBadOrigin
  | NtTransferFailed
  | SendMessageFailed
  | InvalidEthereumAddress
  | InvalidAmount
  | TransfersDisabled
  | ZeroFee
  | TokenNotRegistered
  | InsufficientSovereignBalance

record 'w nt_config =
  Currency :: "'w currency"
  EthereumSovereignAccount :: AccountId
  nt_validate :: "outbound_msg \<Rightarrow> send_error + outbound_msg"
  nt_deliver :: "outbound_msg \<Rightarrow> 'w \<Rightarrow> (send_error + H256) \<times> 'w"
  FeeRecipient :: AccountId
  PauseOrigin :: "origin \<Rightarrow> bool"
  NativeTokenId :: "'w \<Rightarrow> H256 option"
  unique_id :: "command list \<Rightarrow> 'w \<Rightarrow> H256"

record 'w nt_state =
  Paused :: bool
  nt_events :: "nt_event list"
  nt_world :: 'w

definition nt_deposit :: "nt_event \<Rightarrow> 'w nt_state \<Rightarrow> 'w nt_state" where
  "nt_deposit e s = s\<lparr>nt_events := nt_events s @ [e]\<rparr>"

definition nt_transfer ::
  "'w nt_config \<Rightarrow> AccountId \<Rightarrow> AccountId \<Rightarrow> nat \<Rightarrow> 'w nt_state \<Rightarrow> nt_error + 'w nt_state" where
  "nt_transfer cfg a b n s =
     (case cur_transfer (Currency cfg) a b n (nt_world s) of
        None \<Rightarrow> Inl NtTransferFailed
      | Some w \<Rightarrow> Inr (s\<lparr>nt_world := w\<rparr>))"

section \<open>Operations\<close>

text \<open>The conversions to \<open>u128\<close> cannot fail, the balance type is \<open>u128\<close>; one command always fits.\<close>

definition build_mint_message ::
  "'w nt_config \<Rightarrow> H256 \<Rightarrow> H160 \<Rightarrow> nat \<Rightarrow> nat \<Rightarrow> 'w \<Rightarrow> outbound_msg" where
  "build_mint_message cfg token_id recipient amount fee w =
     (let commands = [MintForeignToken token_id recipient amount] in
      \<lparr>om_origin = 0, om_id = unique_id cfg commands w, om_fee = fee, om_commands = commands\<rparr>)"

definition lock_tokens :: "'w nt_config \<Rightarrow> AccountId \<Rightarrow> nat \<Rightarrow> 'w nt_state \<Rightarrow> nt_error + 'w nt_state" where
  "lock_tokens cfg who amount s =
     (case nt_transfer cfg who (EthereumSovereignAccount cfg) amount s of
        Inl e \<Rightarrow> Inl e
      | Inr s \<Rightarrow> Inr (nt_deposit (TokensLocked who amount) s))"

definition unlock_tokens :: "'w nt_config \<Rightarrow> AccountId \<Rightarrow> nat \<Rightarrow> 'w nt_state \<Rightarrow> nt_error + 'w nt_state" where
  "unlock_tokens cfg who amount s =
     (let sovereign = EthereumSovereignAccount cfg;
          balance = cur_balance (Currency cfg) sovereign (nt_world s);
          available_balance = sat_sub balance (cur_minimum_balance (Currency cfg))
      in if available_balance < amount then Inl InsufficientSovereignBalance
         else case nt_transfer cfg sovereign who amount s of
                Inl e \<Rightarrow> Inl e
              | Inr s \<Rightarrow> Inr (nt_deposit (TokensUnlocked who amount) s))"

definition total_locked_balance :: "'w nt_config \<Rightarrow> 'w nt_state \<Rightarrow> nat" where
  "total_locked_balance cfg s = cur_balance (Currency cfg) (EthereumSovereignAccount cfg) (nt_world s)"

definition send_mint_message ::
  "'w nt_config \<Rightarrow> outbound_msg \<Rightarrow> 'w nt_state \<Rightarrow> nt_error + 'w nt_state" where
  "send_mint_message cfg message s =
     (case nt_validate cfg message of
        Inl _ \<Rightarrow> Inl SendMessageFailed
      | Inr ticket \<Rightarrow>
          (case nt_deliver cfg ticket (nt_world s) of
             (Inl _, _) \<Rightarrow> Inl SendMessageFailed
           | (Inr _, w) \<Rightarrow> Inr (s\<lparr>nt_world := w\<rparr>)))"

definition transfer_to_ethereum ::
  "'w nt_config \<Rightarrow> origin \<Rightarrow> H160 \<Rightarrow> nat \<Rightarrow> nat \<Rightarrow> 'w nt_state \<Rightarrow> nt_error + 'w nt_state" where
  "transfer_to_ethereum cfg og recipient amount fee s =
     (case og of
        SignedOrigin who \<Rightarrow>
          (if Paused s then Inl TransfersDisabled
           else case NativeTokenId cfg (nt_world s) of
             None \<Rightarrow> Inl TokenNotRegistered
           | Some token_id \<Rightarrow>
               if \<not> 0 < amount then Inl InvalidAmount
               else if \<not> 0 < fee then Inl ZeroFee
               else if recipient = 0 then Inl InvalidEthereumAddress
               else case nt_transfer cfg who (FeeRecipient cfg) fee s of
                 Inl e \<Rightarrow> Inl e
               | Inr s \<Rightarrow>
                   (case lock_tokens cfg who amount s of
                      Inl e \<Rightarrow> Inl e
                    | Inr s \<Rightarrow>
                        (case send_mint_message cfg
                                (build_mint_message cfg token_id recipient amount fee (nt_world s)) s of
                           Inl e \<Rightarrow> Inl e
                         | Inr s \<Rightarrow> Inr (nt_deposit (TokensTransferredToEthereum who recipient amount) s))))
      | _ \<Rightarrow> Inl NtBadOrigin)"

definition pause :: "'w nt_config \<Rightarrow> origin \<Rightarrow> 'w nt_state \<Rightarrow> nt_error + 'w nt_state" where
  "pause cfg og s =
     (if PauseOrigin cfg og then Inr (nt_deposit PausedEvent (s\<lparr>Paused := True\<rparr>)) else Inl NtBadOrigin)"

definition unpause :: "'w nt_config \<Rightarrow> origin \<Rightarrow> 'w nt_state \<Rightarrow> nt_error + 'w nt_state" where
  "unpause cfg og s =
     (if PauseOrigin cfg og then Inr (nt_deposit UnpausedEvent (s\<lparr>Paused := False\<rparr>)) else Inl NtBadOrigin)"

section \<open>The transition system\<close>

text \<open>
  The calls, the unlocking by the bridge for any account, and any change of the state behind the pallet by
  the rest of the chain. The number of a step is what the rest of the chain moved into the sovereign account
  (negative when it moved tokens out). The sovereign account is derived from a location and has no key, so it
  does not sign a transfer.
\<close>

inductive nt_step :: "'w nt_config \<Rightarrow> 'w nt_state \<Rightarrow> int \<Rightarrow> 'w nt_state \<Rightarrow> bool" for cfg where
  transfer_out: "transfer_to_ethereum cfg og recipient amount fee s = Inr s' \<Longrightarrow>
    og \<noteq> SignedOrigin (EthereumSovereignAccount cfg) \<Longrightarrow> nt_step cfg s 0 s'"
| transfer_in: "unlock_tokens cfg who amount s = Inr s' \<Longrightarrow> nt_step cfg s 0 s'"
| pausing: "pause cfg og s = Inr s' \<Longrightarrow> nt_step cfg s 0 s'"
| unpausing: "unpause cfg og s = Inr s' \<Longrightarrow> nt_step cfg s 0 s'"
| outside: "nt_step cfg s (int (cur_balance (Currency cfg) (EthereumSovereignAccount cfg) w) -
      int (cur_balance (Currency cfg) (EthereumSovereignAccount cfg) (nt_world s))) (s\<lparr>nt_world := w\<rparr>)"

inductive nt_run :: "'w nt_config \<Rightarrow> 'w nt_state \<Rightarrow> int \<Rightarrow> 'w nt_state \<Rightarrow> bool" for cfg s where
  run_refl: "nt_run cfg s 0 s"
| run_step: "nt_run cfg s d s' \<Longrightarrow> nt_step cfg s' e s'' \<Longrightarrow> nt_run cfg s (d + e) s''"

text \<open>The amounts announced by the events.\<close>

fun sent_amount :: "nt_event \<Rightarrow> nat" where
  "sent_amount (TokensTransferredToEthereum _ _ n) = n"
| "sent_amount _ = 0"

text \<open>What left the sovereign account: unlocking for the sovereign account itself moves nothing.\<close>

fun unlocked_amount :: "'w nt_config \<Rightarrow> nt_event \<Rightarrow> nat" where
  "unlocked_amount cfg (TokensUnlocked who n) = (if who = EthereumSovereignAccount cfg then 0 else n)"
| "unlocked_amount cfg _ = 0"

definition total_sent :: "'w nt_state \<Rightarrow> nat" where
  "total_sent s = sum_list (map sent_amount (nt_events s))"

definition total_unlocked :: "'w nt_config \<Rightarrow> 'w nt_state \<Rightarrow> nat" where
  "total_unlocked cfg s = sum_list (map (unlocked_amount cfg) (nt_events s))"

text \<open>
  What the runtime configuration provides: the balances pallet keeps its laws, the sovereign
  account does not receive the fees, and delivering a message does not move balances.
\<close>

definition nt_config_ok :: "'w nt_config \<Rightarrow> bool" where
  "nt_config_ok cfg \<longleftrightarrow> currency_laws (Currency cfg) \<and> FeeRecipient cfg \<noteq> EthereumSovereignAccount cfg \<and>
     (\<forall>m w r w' a. nt_deliver cfg m w = (Inr r, w') \<longrightarrow> cur_balance (Currency cfg) a w' = cur_balance (Currency cfg) a w)"

section \<open>Lemmas\<close>

lemma currency_transfer:
  assumes "currency_laws C" and "cur_transfer C a b n w = Some w'"
  shows "n \<le> cur_balance C a w"
    and "cur_balance C c w' = (if a = b then cur_balance C c w
           else if c = a then cur_balance C a w - n
           else if c = b then cur_balance C b w + n else cur_balance C c w)"
    and "cur_minimum_balance C \<le> cur_balance C a w'"
  using assms unfolding currency_laws_def by metis+

lemma nt_transfer_cases:
  assumes "nt_transfer cfg a b n s = Inr s'"
  obtains w where "cur_transfer (Currency cfg) a b n (nt_world s) = Some w" "s' = s\<lparr>nt_world := w\<rparr>"
  using assms by (auto simp: nt_transfer_def split: option.splits)

lemma transfer_to_ethereum_cases:
  assumes "transfer_to_ethereum cfg og recipient amount fee s = Inr s'"
  obtains who token_id w1 w2 ticket mid w3 where "og = SignedOrigin who" "\<not> Paused s"
    "NativeTokenId cfg (nt_world s) = Some token_id" "0 < amount" "0 < fee" "recipient \<noteq> 0"
    "cur_transfer (Currency cfg) who (FeeRecipient cfg) fee (nt_world s) = Some w1"
    "cur_transfer (Currency cfg) who (EthereumSovereignAccount cfg) amount w1 = Some w2"
    "nt_validate cfg (build_mint_message cfg token_id recipient amount fee w2) = Inr ticket"
    "nt_deliver cfg ticket w2 = (Inr mid, w3)"
    "s' = s\<lparr>nt_world := w3, nt_events := nt_events s @
       [TokensLocked who amount, TokensTransferredToEthereum who recipient amount]\<rparr>"
  using assms
  by (auto simp: transfer_to_ethereum_def lock_tokens_def send_mint_message_def nt_deposit_def
      elim!: nt_transfer_cases split: origin.splits option.splits if_splits sum.splits prod.splits)

lemma unlock_tokens_cases:
  assumes "unlock_tokens cfg who amount s = Inr s'"
  obtains w where "cur_transfer (Currency cfg) (EthereumSovereignAccount cfg) who amount (nt_world s) = Some w"
    "s' = s\<lparr>nt_world := w, nt_events := nt_events s @ [TokensUnlocked who amount]\<rparr>"
  using assms
  by (auto simp: unlock_tokens_def nt_deposit_def Let_def elim!: nt_transfer_cases split: if_splits sum.splits)

lemma nt_config_okD:
  assumes "nt_config_ok cfg"
  shows "currency_laws (Currency cfg)" "FeeRecipient cfg \<noteq> EthereumSovereignAccount cfg"
    "nt_deliver cfg m w = (Inr r, w') \<Longrightarrow> cur_balance (Currency cfg) a w' = cur_balance (Currency cfg) a w"
  using assms unfolding nt_config_ok_def by blast+

lemma nt_step_backing:
  assumes "nt_step cfg s d s'" and ok: "nt_config_ok cfg"
  shows "int (total_locked_balance cfg s') + int (total_unlocked cfg s') + int (total_sent s) =
    int (total_locked_balance cfg s) + int (total_unlocked cfg s) + int (total_sent s') + d"
  using assms(1)
proof cases
  case (transfer_out og recipient amount fee)
  from transfer_out(2) show ?thesis
  proof (cases rule: transfer_to_ethereum_cases)
    case (1 who token_id w1 w2 ticket mid w3)
    then show ?thesis
      using transfer_out(1,3) nt_config_okD [OF ok] currency_transfer(2) [OF nt_config_okD(1) [OF ok] 1(7)]
        currency_transfer(2) [OF nt_config_okD(1) [OF ok] 1(8)]
      by (auto simp: total_locked_balance_def total_unlocked_def total_sent_def)
  qed
next
  case (transfer_in who amount)
  from transfer_in(2) show ?thesis
  proof (cases rule: unlock_tokens_cases)
    case (1 w)
    then show ?thesis
      using transfer_in(1) currency_transfer(1,2) [OF nt_config_okD(1) [OF ok] 1(1)]
      by (auto simp: total_locked_balance_def total_unlocked_def total_sent_def)
  qed
qed (auto simp: pause_def unpause_def nt_deposit_def total_locked_balance_def total_unlocked_def
    total_sent_def split: if_splits)

lemma nt_run_backing:
  assumes "nt_run cfg s d s'" and "nt_config_ok cfg"
  shows "int (total_locked_balance cfg s') + int (total_unlocked cfg s') + int (total_sent s) =
    int (total_locked_balance cfg s) + int (total_unlocked cfg s) + int (total_sent s') + d"
  using assms(1)
proof induction
  case (run_step d s' e s'')
  then show ?case using nt_step_backing [OF run_step(2) assms(2)] by linarith
qed simp

text \<open>Unlocking does not look at the pause switch.\<close>

lemma unlock_ignores_pause:
  "unlock_tokens cfg who amount (s\<lparr>Paused := b\<rparr>) =
     map_sum id (\<lambda>s'. s'\<lparr>Paused := b\<rparr>) (unlock_tokens cfg who amount s)"
  by (auto simp: unlock_tokens_def nt_transfer_def nt_deposit_def Let_def split: option.splits)

section \<open>Sample configuration\<close>

type_synonym sample_bal = "(AccountId \<Rightarrow> nat) \<times> outbound_msg list"

definition sample_currency :: "sample_bal currency" where
  "sample_currency =
     \<lparr>cur_transfer = (\<lambda>a b n (bal, q). if bal a < n + 1 then None
        else Some ((\<lambda>c. if a = b then bal c else if c = a then bal a - n else if c = b then bal b + n else bal c), q)),
      cur_balance = (\<lambda>a (bal, q). bal a), cur_minimum_balance = 1\<rparr>"

definition sample_nt :: "sample_bal nt_config" where
  "sample_nt = \<lparr>Currency = sample_currency, EthereumSovereignAccount = 99, nt_validate = Inr,
     nt_deliver = (\<lambda>m (bal, q). (Inr (om_id m), (bal, q @ [m]))), FeeRecipient = 98, PauseOrigin = ensure_root,
     NativeTokenId = (\<lambda>_. Some 42), unique_id = (\<lambda>_ _. 7)\<rparr>"

definition sample_nt_state :: "sample_bal nt_state" where
  "sample_nt_state = \<lparr>Paused = False, nt_events = [], nt_world = (\<lambda>_. 1000, [])\<rparr>"

definition sample_nt_sent :: "sample_bal nt_state" where
  "sample_nt_sent = projr (transfer_to_ethereum sample_nt (SignedOrigin 1) 5 300 20 sample_nt_state)"

lemmas sample_nt_defs = sample_nt_def sample_currency_def sample_nt_state_def sample_nt_sent_def
  transfer_to_ethereum_def lock_tokens_def nt_transfer_def send_mint_message_def build_mint_message_def
  nt_deposit_def

lemma sample_nt_ok: "nt_config_ok sample_nt"
  by (auto simp: nt_config_ok_def currency_laws_def sample_nt_def sample_currency_def split: if_splits)

lemma sample_nt_sent_ok:
  "transfer_to_ethereum sample_nt (SignedOrigin 1) 5 300 20 sample_nt_state = Inr sample_nt_sent"
  by (simp add: sample_nt_defs Let_def)

section \<open>Properties\<close>

text \<open>
  A transfer to Ethereum succeeds only when the pallet is not paused, the token is
  registered, and amount, fee and recipient are non-zero; then the fee has moved to the fee
  recipient, the amount to the sovereign account, nothing else has been taken from the sender, and
  exactly one message was delivered, which mints this amount for this recipient with this fee.
\<close>

theorem transfer_to_ethereum_exact:
  assumes ok: "nt_config_ok cfg" and tr: "transfer_to_ethereum cfg (SignedOrigin who) recipient amount fee s = Inr s'"
    and "who \<noteq> EthereumSovereignAccount cfg" and "who \<noteq> FeeRecipient cfg"
  shows "\<not> Paused s \<and> 0 < amount \<and> 0 < fee \<and> recipient \<noteq> 0 \<and>
    (let bal = (\<lambda>a st. cur_balance (Currency cfg) a (nt_world st)) in
      bal who s' + amount + fee = bal who s \<and>
      bal (EthereumSovereignAccount cfg) s' = bal (EthereumSovereignAccount cfg) s + amount \<and>
      bal (FeeRecipient cfg) s' = bal (FeeRecipient cfg) s + fee) \<and>
    (\<exists>token m ticket w mid. NativeTokenId cfg (nt_world s) = Some token \<and>
      om_commands m = [MintForeignToken token recipient amount] \<and> om_fee m = fee \<and>
      nt_validate cfg m = Inr ticket \<and> nt_deliver cfg ticket w = (Inr mid, nt_world s'))"
  using tr
proof (cases rule: transfer_to_ethereum_cases)
  case (1 who' token_id w1 w2 ticket mid w3)
  note laws = nt_config_okD(1) [OF ok]
  have "who' = who" using 1(1) by simp
  then have "cur_balance (Currency cfg) who w3 + amount + fee = cur_balance (Currency cfg) who (nt_world s) \<and>
      cur_balance (Currency cfg) (EthereumSovereignAccount cfg) w3 =
        cur_balance (Currency cfg) (EthereumSovereignAccount cfg) (nt_world s) + amount \<and>
      cur_balance (Currency cfg) (FeeRecipient cfg) w3 = cur_balance (Currency cfg) (FeeRecipient cfg) (nt_world s) + fee"
    using assms(3,4) nt_config_okD(2,3) [OF ok] 1(10)
      currency_transfer(1,2) [OF laws 1(7)] currency_transfer(1,2) [OF laws 1(8)]
    by auto
  moreover have "om_commands (build_mint_message cfg token_id recipient amount fee w2) =
        [MintForeignToken token_id recipient amount]" "om_fee (build_mint_message cfg token_id recipient amount fee w2) = fee"
    by (simp_all add: build_mint_message_def Let_def)
  ultimately show ?thesis using 1 by (auto simp: Let_def)
qed

theorem transfer_to_ethereum_exact_witness:
  "cur_balance sample_currency 1 (nt_world sample_nt_sent) + 300 + 20 = 1000 \<and>
   cur_balance sample_currency 99 (nt_world sample_nt_sent) = 1300 \<and>
   cur_balance sample_currency 98 (nt_world sample_nt_sent) = 1020"
  using transfer_to_ethereum_exact [OF sample_nt_ok sample_nt_sent_ok]
  by (simp add: sample_nt_def sample_nt_state_def sample_currency_def Let_def)

text \<open>
  C12. Backing of the bridged tokens: over every sequence of transfers, unlocks for any account, pauses and
  arbitrary changes by the rest of the chain, the sovereign account holds exactly what it held before, plus the
  amounts sent to Ethereum, minus the amounts unlocked for other accounts, plus or minus what the rest of the
  chain itself moved into or out of the sovereign account.
\<close>

theorem bridged_tokens_backed:
  assumes "nt_run cfg s d s'" and "nt_config_ok cfg" and "nt_events s = []"
  shows "int (total_locked_balance cfg s') + int (total_unlocked cfg s') =
    int (total_locked_balance cfg s) + int (total_sent s') + d"
  using nt_run_backing [OF assms(1,2)] assms(3) by (simp add: total_unlocked_def total_sent_def)

theorem bridged_tokens_backed_witness:
  "\<exists>s'. unlock_tokens sample_nt 99 7 (sample_nt_sent\<lparr>nt_world := ((\<lambda>_. 1500), [])\<rparr>) = Inr s' \<and>
    int (total_locked_balance sample_nt s') + int (total_unlocked sample_nt s') = 1000 + int (total_sent s') + 200 \<and>
    total_sent s' = 300 \<and> total_unlocked sample_nt s' = 0"
proof -
  let ?s1 = "sample_nt_sent\<lparr>nt_world := ((\<lambda>_. 1500), [])\<rparr>"
  let ?s2 = "?s1\<lparr>nt_events := nt_events ?s1 @ [TokensUnlocked 99 7]\<rparr>"
  have unlock: "unlock_tokens sample_nt 99 7 ?s1 = Inr ?s2"
    by (simp add: unlock_tokens_def nt_transfer_def nt_deposit_def sample_nt_def sample_currency_def sat_sub_def Let_def)
  have bal: "cur_balance (Currency sample_nt) (EthereumSovereignAccount sample_nt) (nt_world sample_nt_sent) = 1300"
      "cur_balance (Currency sample_nt) (EthereumSovereignAccount sample_nt) ((\<lambda>_. 1500), []) = 1500"
    by (simp_all add: sample_nt_defs Let_def)
  have "nt_run sample_nt sample_nt_state (0 + 0) sample_nt_sent"
    by (rule run_step [OF run_refl nt_step.transfer_out [OF sample_nt_sent_ok]]) (simp add: sample_nt_def)
  then have "nt_run sample_nt sample_nt_state (0 + 0 + 200) ?s1"
    using run_step [OF _ nt_step.outside [of sample_nt sample_nt_sent "((\<lambda>_. 1500), [])", unfolded bal]] by fastforce
  then have "nt_run sample_nt sample_nt_state (0 + 0 + 200 + 0) ?s2"
    by (rule run_step [OF _ nt_step.transfer_in [OF unlock]])
  from bridged_tokens_backed [OF this sample_nt_ok] unlock show ?thesis
    by (simp add: total_locked_balance_def total_sent_def total_unlocked_def sample_nt_defs Let_def)
qed

end
