(* ===== verification/Inbound_Queue.thy ===== *)
theory Inbound_Queue
  imports Sparse_Bitmap Bridge_Types Native_Transfer External_Validators
begin

text \<open>
  Messages from Ethereum: the pallet \<open>pallets/inbound-queue-v2\<close> with its nonce bitmap, and the two
  message processors of \<open>primitives/bridge/src/lib.rs\<close> that the runtime composes to a tuple. The first
  hands a validator set to the external-validators pallet, the second unlocks native tokens.

  The verifier, the codecs and the reward ledger are parameters. The lemmas show that the bitmap
  records exactly the received nonces over all interleavings, that a nonce is received at most
  once, and that only verified messages of the authorized origin reach the validator set.
\<close>

section \<open>Message processors\<close>

datatype dispatch_error = OtherError string | ModuleEv ev_error | ModuleNt nt_error

record 'w message_processor =
  can_process :: "AccountId \<Rightarrow> inbound_message \<Rightarrow> 'w \<Rightarrow> bool"
  process :: "AccountId \<Rightarrow> inbound_message \<Rightarrow> 'w \<Rightarrow> dispatch_error + byte list \<times> 'w"

text \<open>The implementation for tuples: the first element that can process the message does.\<close>

fun tuple_can_process :: "'w message_processor list \<Rightarrow> AccountId \<Rightarrow> inbound_message \<Rightarrow> 'w \<Rightarrow> bool" where
  "tuple_can_process [] who m w = False"
| "tuple_can_process (p # ps) who m w = (if can_process p who m w then True else tuple_can_process ps who m w)"

fun tuple_process ::
  "'w message_processor list \<Rightarrow> AccountId \<Rightarrow> inbound_message \<Rightarrow> 'w \<Rightarrow> dispatch_error + byte list \<times> 'w" where
  "tuple_process [] who m w = Inl (OtherError ''No handler found for message!'')"
| "tuple_process (p # ps) who m w =
     (if can_process p who m w then process p who m w else tuple_process ps who m w)"

section \<open>The validator-set processor\<close>

datatype inbound_command = ReceiveValidators "AccountId list" nat

datatype el_message = V1 inbound_command

record el_payload =
  elp_message_id :: "byte list"
  elp_message :: el_message

definition EL_MESSAGE_ID :: "byte list" where "EL_MESSAGE_ID = [112, 21, 0, 56]"

definition NATIVE_TRANSFER_MESSAGE_ID :: "byte list" where "NATIVE_TRANSFER_MESSAGE_ID = [112, 21, 0, 57]"

definition id_bytes :: "byte list \<Rightarrow> byte list" where
  "id_bytes mid = mid @ replicate (32 - length mid) 0"

record 'x bridge_world =
  bw_ev :: ev_state
  bw_nt :: "'x nt_state"

text \<open>\<open>decode_all\<close> is the SCALE decoding of the payload that must consume every byte.\<close>

definition el_can_process ::
  "ev_config \<Rightarrow> (byte list \<Rightarrow> el_payload option) \<Rightarrow> AccountId \<Rightarrow> inbound_message \<Rightarrow> 'x bridge_world \<Rightarrow> bool" where
  "el_can_process evc decode_all who message w =
     (case im_xcm message of
        Raw payload \<Rightarrow>
          (case decode_all payload of
             Some p \<Rightarrow> elp_message_id p = EL_MESSAGE_ID \<and> im_origin message = AuthorizedOrigin evc
           | None \<Rightarrow> False)
      | CreateAsset _ _ \<Rightarrow> False)"

definition el_process ::
  "ev_config \<Rightarrow> (byte list \<Rightarrow> el_payload option) \<Rightarrow> AccountId \<Rightarrow> inbound_message \<Rightarrow> 'x bridge_world \<Rightarrow>
     dispatch_error + byte list \<times> 'x bridge_world" where
  "el_process evc decode_all who message w =
     (if im_origin message \<noteq> AuthorizedOrigin evc then Inl (OtherError ''unauthorized validator-set origin'')
      else case im_xcm message of
        CreateAsset _ _ \<Rightarrow> Inl (OtherError ''Invalid Message'')
      | Raw payload \<Rightarrow>
          (case decode_all payload of
             None \<Rightarrow> Inl (OtherError ''unable to parse the message payload'')
           | Some p \<Rightarrow>
               (case elp_message p of V1 (ReceiveValidators vs external_index) \<Rightarrow>
                  (case set_external_validators_inner evc vs external_index (bw_ev w) of
                     Inl e \<Rightarrow> Inl (ModuleEv e)
                   | Inr s \<Rightarrow> Inr (id_bytes EL_MESSAGE_ID, w\<lparr>bw_ev := s\<rparr>)))))"

definition eigenlayer_processor ::
  "ev_config \<Rightarrow> (byte list \<Rightarrow> el_payload option) \<Rightarrow> 'x bridge_world message_processor" where
  "eigenlayer_processor evc decode_all =
     \<lparr>can_process = el_can_process evc decode_all, process = el_process evc decode_all\<rparr>"

section \<open>The native token processor\<close>

text \<open>\<open>H160::decode\<close> reads 20 bytes, most significant first, and ignores what follows.\<close>

definition decode_h160 :: "byte list \<Rightarrow> H160 option" where
  "decode_h160 bs = (if length bs < 20 then None
     else Some (foldl (\<lambda>a b. push_bit 8 a OR ucast b) 0 (take 20 bs)))"

definition extract_recipient_from_claimer :: "byte list \<Rightarrow> dispatch_error + AccountId" where
  "extract_recipient_from_claimer claimer =
     (case decode_h160 claimer of
        None \<Rightarrow> Inl (OtherError ''Invalid Ethereum address in claimer'')
      | Some a \<Rightarrow> Inr a)"

fun is_native :: "H256 \<Rightarrow> ethereum_asset \<Rightarrow> bool" where
  "is_native native_token_id (ForeignTokenERC20 token_id _) = (token_id = native_token_id)"
| "is_native native_token_id (NativeTokenERC20 _ _) = False"

fun asset_value :: "ethereum_asset \<Rightarrow> nat" where
  "asset_value (ForeignTokenERC20 _ v) = v"
| "asset_value (NativeTokenERC20 _ v) = v"

definition native_can_process ::
  "'x nt_config \<Rightarrow> AccountId \<Rightarrow> inbound_message \<Rightarrow> 'x bridge_world \<Rightarrow> bool" where
  "native_can_process ntc who message w =
     (case NativeTokenId ntc (nt_world (bw_nt w)) of
        None \<Rightarrow> False
      | Some native_token_id \<Rightarrow> im_assets message \<noteq> [] \<and> list_all (is_native native_token_id) (im_assets message))"

text \<open>The sum of the values wraps at \<open>u128\<close> in the production profile.\<close>

definition native_amount :: "H256 \<Rightarrow> inbound_message \<Rightarrow> nat" where
  "native_amount native_token_id message =
     sum_list (map asset_value (filter (is_native native_token_id) (im_assets message))) mod (u128_max + 1)"

definition native_process ::
  "'x nt_config \<Rightarrow> AccountId \<Rightarrow> inbound_message \<Rightarrow> 'x bridge_world \<Rightarrow>
     dispatch_error + byte list \<times> 'x bridge_world" where
  "native_process ntc who message w =
     (case NativeTokenId ntc (nt_world (bw_nt w)) of
        None \<Rightarrow> Inl (OtherError ''Native token not registered'')
      | Some native_token_id \<Rightarrow>
          (let token_amount = native_amount native_token_id message in
           if token_amount = 0 then Inl (OtherError ''No native token found in assets'')
           else case im_claimer message of
             None \<Rightarrow> Inl (OtherError ''No claimer specified in message'')
           | Some claimer \<Rightarrow>
               (case extract_recipient_from_claimer claimer of
                  Inl e \<Rightarrow> Inl e
                | Inr recipient \<Rightarrow>
                    (case unlock_tokens ntc recipient token_amount (bw_nt w) of
                       Inl e \<Rightarrow> Inl (ModuleNt e)
                     | Inr s \<Rightarrow> Inr (id_bytes NATIVE_TRANSFER_MESSAGE_ID, w\<lparr>bw_nt := s\<rparr>)))))"

definition native_processor :: "'x nt_config \<Rightarrow> 'x bridge_world message_processor" where
  "native_processor ntc = \<lparr>can_process = native_can_process ntc, process = native_process ntc\<rparr>"

section \<open>The pallet\<close>

datatype iq_event =
    MessageReceived u64 "byte list"
  | OperatingModeChanged basic_operating_mode

datatype iq_error =
    IqBadOrigin
  | IqHalted
  | IqVerification verification_error
  | InvalidMessage
  | IqInvalidGateway
  | InvalidNonce
  | IqDispatch dispatch_error

record ('p, 'w) iq_config =
  iq_Verifier :: "event_log \<Rightarrow> 'p \<Rightarrow> 'w \<Rightarrow> verification_error option"
  iq_GatewayAddress :: H160
  MessageProcessor :: "'w message_processor list"
  iq_abi :: abi_codec
  iq_RewardPayment :: "AccountId \<Rightarrow> nat \<Rightarrow> 'w \<Rightarrow> 'w"

record 'w iq_state =
  NonceBitmap :: bitmap
  OperatingMode :: basic_operating_mode
  iq_events :: "iq_event list"
  iq_world :: 'w

definition iq_genesis :: "'w \<Rightarrow> 'w iq_state" where
  "iq_genesis w = \<lparr>NonceBitmap = (\<lambda>_. 0), OperatingMode = BasicNormal, iq_events = [], iq_world = w\<rparr>"

definition iq_process_message ::
  "('p, 'w) iq_config \<Rightarrow> AccountId \<Rightarrow> inbound_message \<Rightarrow> 'w iq_state \<Rightarrow> iq_error + 'w iq_state" where
  "iq_process_message cfg relayer message s =
     (if iq_GatewayAddress cfg \<noteq> im_gateway message then Inl IqInvalidGateway
      else let nonce = im_nonce message; relayer_fee = im_relayer_fee message in
        if bitmap_get (NonceBitmap s) (ucast nonce) then Inl InvalidNonce
        else case tuple_process (MessageProcessor cfg) relayer message (iq_world s) of
          Inl e \<Rightarrow> Inl (IqDispatch e)
        | Inr (message_id, w) \<Rightarrow>
            let w = (if relayer_fee \<noteq> 0 then iq_RewardPayment cfg relayer relayer_fee w else w) in
            Inr (s\<lparr>iq_world := w, NonceBitmap := bitmap_set (NonceBitmap s) (ucast nonce),
                   iq_events := iq_events s @ [MessageReceived nonce message_id]\<rparr>))"

definition submit ::
  "('p, 'w) iq_config \<Rightarrow> origin \<Rightarrow> 'p event_proof \<Rightarrow> 'w iq_state \<Rightarrow> iq_error + 'w iq_state" where
  "submit cfg og event s =
     (case og of
        SignedOrigin who \<Rightarrow>
          (if is_halted (OperatingMode s) then Inl IqHalted
           else case iq_Verifier cfg (ep_event_log event) (ep_proof event) (iq_world s) of
             Some e \<Rightarrow> Inl (IqVerification e)
           | None \<Rightarrow>
               (case message_try_from (iq_abi cfg) (ep_event_log event) of
                  None \<Rightarrow> Inl InvalidMessage
                | Some message \<Rightarrow> iq_process_message cfg who message s))
      | _ \<Rightarrow> Inl IqBadOrigin)"

definition iq_set_operating_mode ::
  "origin \<Rightarrow> basic_operating_mode \<Rightarrow> 'w iq_state \<Rightarrow> iq_error + 'w iq_state" where
  "iq_set_operating_mode og mode s =
     (if ensure_root og
      then Inr (s\<lparr>OperatingMode := mode, iq_events := iq_events s @ [OperatingModeChanged mode]\<rparr>)
      else Inl IqBadOrigin)"

text \<open>The runtime's ledger registers nothing.\<close>

definition dummy_reward_payment :: "AccountId \<Rightarrow> nat \<Rightarrow> 'w \<Rightarrow> 'w" where
  "dummy_reward_payment who amount w = w"

section \<open>The transition system\<close>

inductive iq_step :: "('p, 'w) iq_config \<Rightarrow> 'w iq_state \<Rightarrow> 'w iq_state \<Rightarrow> bool" for cfg where
  submitted: "submit cfg og event s = Inr s' \<Longrightarrow> iq_step cfg s s'"
| mode_set: "iq_set_operating_mode og mode s = Inr s' \<Longrightarrow> iq_step cfg s s'"
| outside: "iq_step cfg s (s\<lparr>iq_world := w\<rparr>)"

abbreviation iq_steps :: "('p, 'w) iq_config \<Rightarrow> 'w iq_state \<Rightarrow> 'w iq_state \<Rightarrow> bool" where
  "iq_steps cfg \<equiv> (iq_step cfg)\<^sup>*\<^sup>*"

text \<open>The nonces announced as received, in order.\<close>

fun event_nonce :: "iq_event \<Rightarrow> u64 list" where
  "event_nonce (MessageReceived n _) = [n]"
| "event_nonce (OperatingModeChanged _) = []"

definition received :: "'w iq_state \<Rightarrow> u64 list" where
  "received s = concat (map event_nonce (iq_events s))"

definition iq_inv :: "'w iq_state \<Rightarrow> bool" where
  "iq_inv s \<longleftrightarrow> distinct (received s) \<and> (\<forall>n. bitmap_get (NonceBitmap s) (ucast n) \<longleftrightarrow> n \<in> set (received s))"

section \<open>Lemmas\<close>

lemma ucast_u64_inject: "ucast (n :: u64) = (ucast m :: u128) \<longleftrightarrow> n = m"
proof
  assume eq: "ucast n = (ucast m :: u128)"
  show "n = m"
  proof (rule bit_word_eqI)
    fix k assume "k < LENGTH(64)"
    then show "bit n k = bit m k"
      using arg_cong [OF eq, of "\<lambda>w. bit w k"] by (simp add: bit_simps)
  qed
qed simp

lemma submit_cases:
  assumes "submit cfg og event s = Inr s'"
  obtains who m mid w where "og = SignedOrigin who" "OperatingMode s = BasicNormal"
    "iq_Verifier cfg (ep_event_log event) (ep_proof event) (iq_world s) = None"
    "message_try_from (iq_abi cfg) (ep_event_log event) = Some m" "im_gateway m = iq_GatewayAddress cfg"
    "\<not> bitmap_get (NonceBitmap s) (ucast (im_nonce m))"
    "tuple_process (MessageProcessor cfg) who m (iq_world s) = Inr (mid, w)"
    "s' = s\<lparr>iq_world := (if im_relayer_fee m \<noteq> 0 then iq_RewardPayment cfg who (im_relayer_fee m) w else w),
       NonceBitmap := bitmap_set (NonceBitmap s) (ucast (im_nonce m)),
       iq_events := iq_events s @ [MessageReceived (im_nonce m) mid]\<rparr>"
proof -
  have "OperatingMode s = BasicNormal"
    using assms by (cases "OperatingMode s") (auto simp: submit_def is_halted_def split: origin.splits)
  then show thesis
    using assms that
    by (auto simp: submit_def iq_process_message_def Let_def
        split: origin.splits option.splits if_splits sum.splits)
qed

lemma submit_event:
  "submit cfg og event s = Inr s' \<Longrightarrow> \<exists>m mid. message_try_from (iq_abi cfg) (ep_event_log event) = Some m \<and>
     iq_events s' = iq_events s @ [MessageReceived (im_nonce m) mid]"
  by (erule submit_cases) simp

lemma iq_step_inv: "iq_step cfg s s' \<Longrightarrow> iq_inv s \<Longrightarrow> iq_inv s'"
proof (induction rule: iq_step.induct)
  case (submitted og event s s')
  from submitted(1) show ?case
    by (cases rule: submit_cases)
      (use submitted(2) in \<open>auto simp: iq_inv_def received_def bitmap_get_set ucast_u64_inject\<close>)
next
  case (mode_set og mode s s')
  then show ?case by (auto simp: iq_inv_def received_def iq_set_operating_mode_def split: if_splits)
qed (simp add: iq_inv_def received_def)

lemma iq_genesis_inv: "iq_inv (iq_genesis w)"
  by (simp add: iq_inv_def iq_genesis_def received_def bitmap_get_bit)

lemma iq_steps_inv: "iq_steps cfg s s' \<Longrightarrow> iq_inv s \<Longrightarrow> iq_inv s'"
  by (induction rule: rtranclp_induct) (auto intro: iq_step_inv)

lemma iq_step_bitmap_mono:
  "iq_step cfg s s' \<Longrightarrow> bitmap_get (NonceBitmap s) n \<Longrightarrow> bitmap_get (NonceBitmap s') n"
proof (induction rule: iq_step.induct)
  case (submitted og event s s')
  from submitted(1) show ?case
    by (cases rule: submit_cases) (use submitted(2) nonces.seen_mono in auto)
next
  case (mode_set og mode s s')
  then show ?case by (auto simp: iq_set_operating_mode_def split: if_splits)
qed simp

lemma iq_steps_bitmap_mono:
  "iq_steps cfg s s' \<Longrightarrow> bitmap_get (NonceBitmap s) n \<Longrightarrow> bitmap_get (NonceBitmap s') n"
  by (induction rule: rtranclp_induct) (auto intro: iq_step_bitmap_mono)

text \<open>Only the first of the two processors changes the external-validators pallet.\<close>

lemma native_process_ev: "native_process ntc who m w = Inr (mid, w') \<Longrightarrow> bw_ev w' = bw_ev w"
  by (auto simp: native_process_def Let_def split: option.splits if_splits sum.splits)

lemma el_process_cases:
  assumes "el_process evc decode_all who m w = Inr (mid, w')"
  obtains payload p vs idx where "im_origin m = AuthorizedOrigin evc" "im_xcm m = Raw payload"
    "decode_all payload = Some p" "elp_message p = V1 (ReceiveValidators vs idx)"
    "set_external_validators_inner evc vs idx (bw_ev w) = Inr (bw_ev w')" "bw_nt w' = bw_nt w"
  using assms
  by (auto simp: el_process_def split: if_splits inbound_payload.splits option.splits el_message.splits
      inbound_command.splits sum.splits)

text \<open>
  Only verified messages of the authorized origin change the external-validators pallet.
\<close>

lemma submit_changes_set:
  assumes "MessageProcessor cfg = [eigenlayer_processor evc decode_all, native_processor ntc]"
    and "iq_RewardPayment cfg = dummy_reward_payment"
    and sub: "submit cfg og event s = Inr s'" and "bw_ev (iq_world s') \<noteq> bw_ev (iq_world s)"
  shows "OperatingMode s = BasicNormal \<and>
    iq_Verifier cfg (ep_event_log event) (ep_proof event) (iq_world s) = None \<and>
    log_address (ep_event_log event) = iq_GatewayAddress cfg \<and>
    (\<exists>m payload p vs idx. message_try_from (iq_abi cfg) (ep_event_log event) = Some m \<and>
       im_origin m = AuthorizedOrigin evc \<and> im_xcm m = Raw payload \<and> decode_all payload = Some p \<and>
       elp_message_id p = EL_MESSAGE_ID \<and> elp_message p = V1 (ReceiveValidators vs idx) \<and>
       set_external_validators_inner evc vs idx (bw_ev (iq_world s)) = Inr (bw_ev (iq_world s')))"
  using sub
proof (cases rule: submit_cases)
  case (1 who m mid w)
  have w: "bw_ev w = bw_ev (iq_world s')"
    using 1(8) assms(2) by (simp add: dummy_reward_payment_def)
  have can: "el_can_process evc decode_all who m (iq_world s)"
  proof (rule ccontr)
    assume "\<not> ?thesis"
    then have "native_process ntc who m (iq_world s) = Inr (mid, w)"
      using 1(7) assms(1) by (simp add: eigenlayer_processor_def native_processor_def split: if_splits)
    then show False using native_process_ev w assms(4) by metis
  qed
  then have "el_process evc decode_all who m (iq_world s) = Inr (mid, w)"
    using 1(7) assms(1) by (simp add: eigenlayer_processor_def)
  then show ?thesis
  proof (cases rule: el_process_cases)
    case (1 payload p vs idx)
    with can have "elp_message_id p = EL_MESSAGE_ID" by (simp add: el_can_process_def)
    then show ?thesis
      using 1 \<open>OperatingMode s = BasicNormal\<close> \<open>message_try_from (iq_abi cfg) (ep_event_log event) = Some m\<close>
        \<open>iq_Verifier cfg (ep_event_log event) (ep_proof event) (iq_world s) = None\<close> w
        message_try_from_gateway \<open>im_gateway m = iq_GatewayAddress cfg\<close> by metis
  qed
qed

section \<open>Sample configuration\<close>

text \<open>
  A concrete bridge: a log's data byte is the nonce, the payload of a message is empty and
  decodes to the set of one validator for era one, every proof verifies.
\<close>

definition sample_abi :: abi_codec where
  "sample_abi =
     \<lparr>decode_outbound_message_accepted = (\<lambda>_ data. case data of [] \<Rightarrow> None
        | b # _ \<Rightarrow> Some (ucast b, \<lparr>gp_origin = 3, gp_assets = [], gp_xcm = (0, []), gp_claimer = [],
            gp_value = 0, gp_execution_fee = 0, gp_relayer_fee = 0\<rparr>)),
      decode_native_token = (\<lambda>_. None), decode_foreign_token = (\<lambda>_. None), decode_create_asset = (\<lambda>_. None)\<rparr>"

definition sample_evc :: ev_config where
  "sample_evc = (sample_cfg 6)\<lparr>AuthorizedOrigin := 3\<rparr>"

definition sample_decode :: "byte list \<Rightarrow> el_payload option" where
  "sample_decode bs = Some \<lparr>elp_message_id = EL_MESSAGE_ID, elp_message = V1 (ReceiveValidators [5] 1)\<rparr>"

definition sample_iq :: "(unit, sample_bal bridge_world) iq_config" where
  "sample_iq = \<lparr>iq_Verifier = (\<lambda>_ _ _. None), iq_GatewayAddress = 7,
     MessageProcessor = [eigenlayer_processor sample_evc sample_decode, native_processor sample_nt],
     iq_abi = sample_abi, iq_RewardPayment = dummy_reward_payment\<rparr>"

definition sample_event :: "byte \<Rightarrow> unit event_proof" where
  "sample_event n = \<lparr>ep_event_log = \<lparr>log_address = 7, log_topics = [], log_data = [n]\<rparr>, ep_proof = ()\<rparr>"

definition sample_iq_start :: "sample_bal bridge_world iq_state" where
  "sample_iq_start = iq_genesis \<lparr>bw_ev = sample_state 6, bw_nt = sample_nt_state\<rparr>"

definition sample_iq_next :: "sample_bal bridge_world iq_state" where
  "sample_iq_next = projr (submit sample_iq (SignedOrigin 1) (sample_event 9) sample_iq_start)"

lemma sample_set: "\<exists>s1. set_external_validators_inner sample_evc [5] 1 (sample_state 6) = Inr s1 \<and> s1 \<noteq> sample_state 6"
  by (simp add: sample_evc_def set_external_validators_inner_def validate_target_era_def sample_eval ev_deposit_def)

lemma sample_submit:
  "submit sample_iq (SignedOrigin 1) (sample_event 9) sample_iq_start = Inr sample_iq_next"
proof -
  obtain s1 where s1: "set_external_validators_inner sample_evc [5] 1 (sample_state 6) = Inr s1"
    using sample_set by auto
  have "AuthorizedOrigin sample_evc = 3" by (simp add: sample_evc_def)
  then show ?thesis
    using s1 by (simp add: sample_iq_next_def submit_def sample_iq_def sample_event_def sample_iq_start_def
        iq_genesis_def is_halted_def message_try_from_def sample_abi_def payload_try_from_def
        iq_process_message_def bitmap_get_bit eigenlayer_processor_def el_can_process_def sample_decode_def
        el_process_def Let_def)
qed

definition native_message :: inbound_message where
  "native_message = \<lparr>im_gateway = 7, im_nonce = 1, im_origin = 4, im_assets = [ForeignTokenERC20 42 30, ForeignTokenERC20 42 20],
     im_xcm = Raw [], im_claimer = Some (replicate 20 1), im_value = 0, im_execution_fee = 0, im_relayer_fee = 0\<rparr>"

section \<open>Properties\<close>

text \<open>
  C10. Replay protection: after any sequence of submissions, mode changes and changes behind the
  pallet no nonce has been received twice, and a message from the Gateway is refused for its
  nonce exactly if that nonce has been received.
\<close>

theorem inbound_replay_protection:
  assumes "iq_steps cfg (iq_genesis w) s" and "im_gateway m = iq_GatewayAddress cfg"
  shows "distinct (received s) \<and>
    (iq_process_message cfg relayer m s = Inl InvalidNonce \<longleftrightarrow> im_nonce m \<in> set (received s))"
proof -
  have "iq_inv s" using iq_steps_inv [OF assms(1) iq_genesis_inv] .
  then show ?thesis
    using assms(2) by (auto simp: iq_inv_def iq_process_message_def Let_def split: sum.splits prod.splits)
qed

theorem inbound_replay_protection_witness:
  "distinct (received sample_iq_next) \<and> received sample_iq_next = [9] \<and>
   iq_process_message sample_iq 2 (native_message\<lparr>im_nonce := 9\<rparr>) sample_iq_next = Inl InvalidNonce"
proof -
  have steps: "iq_steps sample_iq (iq_genesis \<lparr>bw_ev = sample_state 6, bw_nt = sample_nt_state\<rparr>) sample_iq_next"
    using iq_step.submitted [OF sample_submit] unfolding sample_iq_start_def by (rule r_into_rtranclp)
  obtain m mid where m: "message_try_from (iq_abi sample_iq) (ep_event_log (sample_event 9)) = Some m"
      and ev: "iq_events sample_iq_next = iq_events sample_iq_start @ [MessageReceived (im_nonce m) mid]"
    using submit_event [OF sample_submit] by auto
  have "im_nonce m = 9"
    using m by (auto simp: sample_iq_def sample_event_def message_try_from_def sample_abi_def
        payload_try_from_def Let_def)
  with ev have rec: "received sample_iq_next = [9]"
    by (simp add: received_def sample_iq_start_def iq_genesis_def)
  show ?thesis
    using inbound_replay_protection [OF steps, of "native_message\<lparr>im_nonce := 9\<rparr>" 2] rec
    by (simp add: native_message_def sample_iq_def)
qed

text \<open>
  A message of native tokens: when the second processor handles it, it unlocks for the address
  in the first 20 bytes of the claimer field the sum of all asset values, reduced at the width of
  \<open>u128\<close>, and changes nothing else; the pause switch of the transfer pallet plays no role.
\<close>

theorem native_message_unlocks:
  assumes "native_can_process ntc who m w" and "native_process ntc who m w = Inr (mid, w')"
  shows "\<exists>claimer recipient s. im_claimer m = Some claimer \<and> decode_h160 claimer = Some recipient \<and>
    unlock_tokens ntc recipient (sum_list (map asset_value (im_assets m)) mod (u128_max + 1)) (bw_nt w) = Inr s \<and>
    w' = w\<lparr>bw_nt := s\<rparr> \<and> mid = id_bytes NATIVE_TRANSFER_MESSAGE_ID"
proof -
  obtain t where t: "NativeTokenId ntc (nt_world (bw_nt w)) = Some t" "filter (is_native t) (im_assets m) = im_assets m"
    using assms(1) by (auto simp: native_can_process_def list_all_iff split: option.splits)
  then show ?thesis
    using assms(2)
    by (auto simp: native_process_def native_amount_def extract_recipient_from_claimer_def Let_def
        split: option.splits if_splits sum.splits)
qed

theorem native_message_unlocks_witness:
  "\<exists>w' recipient s. native_process sample_nt 1 native_message \<lparr>bw_ev = ev_empty, bw_nt = sample_nt_state\<rparr> =
     Inr (id_bytes NATIVE_TRANSFER_MESSAGE_ID, w') \<and>
   unlock_tokens sample_nt recipient 50 sample_nt_state = Inr s \<and> bw_nt w' = s"
proof -
  let ?w = "\<lparr>bw_ev = ev_empty, bw_nt = sample_nt_state\<rparr>"
  have can: "native_can_process sample_nt 1 native_message ?w"
    by (simp add: native_can_process_def native_message_def sample_nt_def)
  obtain w' where w': "native_process sample_nt 1 native_message ?w = Inr (id_bytes NATIVE_TRANSFER_MESSAGE_ID, w')"
    by (simp add: native_process_def native_message_def native_amount_def extract_recipient_from_claimer_def
        decode_h160_def unlock_tokens_def sample_nt_defs Let_def sat_simps u128_max_def)
  from native_message_unlocks [OF can w'] w' show ?thesis
    by (auto simp: native_message_def u128_max_def)
qed

end
