(* ===== verification/Validator_Message.thy ===== *)
theory Validator_Message
  imports Service_Manager Inbound_Queue
begin

unbundle bit_operations_syntax

text \<open>
  The validator-set message between the two chains: the encoder of the contracts
  (\<open>contracts/src/libraries/DataHavenSnowbridgeMessages.sol\<close>) and the derived decoder of the runtime
  (\<open>primitives/bridge/src/lib.rs\<close>). The SCALE codecs of compact lengths and of 64-bit integers are
  third-party on both sides: the record \<open>scale_codec\<close>, with the law that decoding what was encoded
  gives the value and the bytes that follow.

  The lemmas show that the runtime decodes exactly what the contract encoded, and how the
  processor of the runtime treats a message that the contract built.
\<close>

section \<open>The encoder on Ethereum\<close>

record scale_codec =
  encodeCompactU32 :: "nat \<Rightarrow> byte list"
  encodeU64 :: "nat \<Rightarrow> byte list"
  decodeCompactU32 :: "byte list \<Rightarrow> (nat \<times> byte list) option"
  decodeU64 :: "byte list \<Rightarrow> (nat \<times> byte list) option"

definition codec_law :: "scale_codec \<Rightarrow> bool" where
  "codec_law c \<longleftrightarrow>
     (\<forall>n rest. n < 2 ^ 32 \<longrightarrow> decodeCompactU32 c (encodeCompactU32 c n @ rest) = Some (n, rest)) \<and>
     (\<forall>n rest. n < 2 ^ 64 \<longrightarrow> decodeU64 c (encodeU64 c n @ rest) = Some (n, rest))"

definition EL_MESSAGE_ID_sol :: "byte list" where "EL_MESSAGE_ID_sol = [0x70, 0x15, 0x00, 0x38]"

definition Message_V0 :: byte where "Message_V0 = 0"
definition OutboundCommandV1_ReceiveValidators :: byte where "OutboundCommandV1_ReceiveValidators = 0"

definition scaleEncodeNewValidatorSetMessagePayload :: "scale_codec \<Rightarrow> address list \<Rightarrow> nat \<Rightarrow> byte list" where
  "scaleEncodeNewValidatorSetMessagePayload c validatorSet externalIndex =
     (let validatorsLen = length validatorSet mod 2 ^ 32;
          validatorsFlattened = foldl (\<lambda>acc v. acc @ h160_bytes v) [] validatorSet
      in EL_MESSAGE_ID_sol @ [Message_V0] @ [OutboundCommandV1_ReceiveValidators] @
         encodeCompactU32 c validatorsLen @ validatorsFlattened @ encodeU64 c externalIndex)"

section \<open>The decoder of the runtime\<close>

fun decode_h160s :: "nat \<Rightarrow> byte list \<Rightarrow> (AccountId list \<times> byte list) option" where
  "decode_h160s 0 bs = Some ([], bs)"
| "decode_h160s (Suc n) bs =
     (case decode_h160 bs of
        None \<Rightarrow> None
      | Some v \<Rightarrow> (case decode_h160s n (drop 20 bs) of
          None \<Rightarrow> None
        | Some (vs, rest) \<Rightarrow> Some (v # vs, rest)))"

definition decode_inbound_command :: "scale_codec \<Rightarrow> byte list \<Rightarrow> (inbound_command \<times> byte list) option" where
  "decode_inbound_command c bs =
     (case bs of [] \<Rightarrow> None
      | tag # bs \<Rightarrow>
          if tag \<noteq> 0 then None
          else (case decodeCompactU32 c bs of None \<Rightarrow> None
           | Some (n, bs) \<Rightarrow>
               (case decode_h160s n bs of None \<Rightarrow> None
                | Some (vs, bs) \<Rightarrow>
                    (case decodeU64 c bs of None \<Rightarrow> None
                     | Some (external_index, bs) \<Rightarrow> Some (ReceiveValidators vs external_index, bs)))))"

definition decode_message_enum :: "scale_codec \<Rightarrow> byte list \<Rightarrow> (el_message \<times> byte list) option" where
  "decode_message_enum c bs =
     (case bs of [] \<Rightarrow> None
      | tag # bs \<Rightarrow>
          if tag \<noteq> 0 then None
          else (case decode_inbound_command c bs of None \<Rightarrow> None | Some (cmd, bs) \<Rightarrow> Some (V1 cmd, bs)))"

definition decode_payload :: "scale_codec \<Rightarrow> byte list \<Rightarrow> (el_payload \<times> byte list) option" where
  "decode_payload c bs =
     (if length bs < 4 then None
      else case decode_message_enum c (drop 4 bs) of
        None \<Rightarrow> None
      | Some (message, bs') \<Rightarrow> Some (\<lparr>elp_message_id = take 4 bs, elp_message = message\<rparr>, bs'))"

text \<open>\<open>decode_all\<close> refuses a payload with bytes left over.\<close>

definition decode_message :: "scale_codec \<Rightarrow> byte list \<Rightarrow> el_payload option" where
  "decode_message c payload =
     (case decode_payload c payload of
        Some (p, rest) \<Rightarrow> if rest = [] then Some p else None
      | None \<Rightarrow> None)"

section \<open>Lemmas\<close>

lemma length_h160_bytes [simp]: "length (h160_bytes w) = 20"
  by (simp add: h160_bytes_def)

lemma h160_join:
  "k \<le> 20 \<Longrightarrow> foldl (\<lambda>a b. push_bit 8 a OR ucast b) 0 (map (\<lambda>i. ucast (drop_bit (8 * (19 - i)) w) :: byte) [0..<k])
     = drop_bit (8 * (20 - k)) (w :: H160)"
proof (induction k)
  case 0
  show ?case by (rule bit_word_eqI) (simp add: bit_simps)
next
  case (Suc k)
  have k: "8 * (20 - k) = 8 + 8 * (19 - k)" using Suc.prems by simp
  have "push_bit 8 (drop_bit (8 * (20 - k)) w) OR ucast (ucast (drop_bit (8 * (19 - k)) w) :: byte) =
      drop_bit (8 * (19 - k)) w"
    unfolding k by (rule bit_word_eqI) (auto simp: bit_simps)
  then show ?case using Suc by simp
qed

lemma decode_h160_bytes [simp]: "decode_h160 (h160_bytes w @ rest) = Some w"
  using h160_join [of 20 w] by (simp add: decode_h160_def h160_bytes_def)

lemma toAddress_h160_bytes: "a \<noteq> 0 \<Longrightarrow> toAddress (h160_bytes a) = Inr a"
  using h160_join [of 20 a] by (simp add: toAddress_def h160_bytes_def)

lemma flatten_concat: "foldl (\<lambda>acc v. acc @ h160_bytes v) acc vs = acc @ concat (map h160_bytes vs)"
  by (induction vs arbitrary: acc) simp_all

lemma decode_h160s_flat [simp]: "decode_h160s (length vs) (concat (map h160_bytes vs) @ rest) = Some (vs, rest)"
  by (induction vs) simp_all

lemma decode_encoded:
  assumes "codec_law c" "length vs < 2 ^ 32" "era < 2 ^ 64"
  shows "decode_message c (scaleEncodeNewValidatorSetMessagePayload c vs era) =
    Some \<lparr>elp_message_id = EL_MESSAGE_ID, elp_message = V1 (ReceiveValidators vs era)\<rparr>"
proof -
  have dec: "decodeCompactU32 c (encodeCompactU32 c (length vs) @ rest) = Some (length vs, rest)"
      "decodeU64 c (encodeU64 c era) = Some (era, [])" for rest
    using assms unfolding codec_law_def by (simp, metis append_Nil2)
  show ?thesis
    using assms(2)
    by (simp add: scaleEncodeNewValidatorSetMessagePayload_def EL_MESSAGE_ID_sol_def Message_V0_def
        OutboundCommandV1_ReceiveValidators_def decode_message_def decode_payload_def decode_message_enum_def
        decode_inbound_command_def dec flatten_concat EL_MESSAGE_ID_def)
qed

section \<open>A codec of fixed width\<close>

text \<open>A codec that obeys the law: little-endian integers of four and eight bytes.\<close>

fun le_bytes :: "nat \<Rightarrow> nat \<Rightarrow> byte list" where
  "le_bytes 0 n = []"
| "le_bytes (Suc k) n = word_of_nat n # le_bytes k (n div 256)"

fun le_value :: "byte list \<Rightarrow> nat" where
  "le_value [] = 0"
| "le_value (b # bs) = unat b + 256 * le_value bs"

definition le_decode :: "nat \<Rightarrow> byte list \<Rightarrow> (nat \<times> byte list) option" where
  "le_decode k bs = (if length bs < k then None else Some (le_value (take k bs), drop k bs))"

definition fixed_codec :: scale_codec where
  "fixed_codec = \<lparr>encodeCompactU32 = le_bytes 4, encodeU64 = le_bytes 8,
     decodeCompactU32 = le_decode 4, decodeU64 = le_decode 8\<rparr>"

lemma le_bytes_length [simp]: "length (le_bytes k n) = k"
  by (induction k arbitrary: n) simp_all

lemma le_value_bytes: "n < 256 ^ k \<Longrightarrow> le_value (le_bytes k n) = n"
  by (induction k arbitrary: n) (auto simp: unat_of_nat less_mult_imp_div_less)

lemma fixed_codec_law: "codec_law fixed_codec"
  by (simp add: codec_law_def fixed_codec_def le_decode_def le_value_bytes)

section \<open>Properties\<close>

text \<open>
  The runtime decodes what the contract encodes: a payload of the contract for any list of
  validators and any era parses on the other chain to the same list in the same order, the same
  era, and the message id that the processor accepts, with no byte left over. (With codecs of both
  chains that agree, as SCALE prescribes.)
\<close>

theorem validator_message_roundtrip:
  assumes "codec_law c" "length vs < 2 ^ 32" "era < 2 ^ 64"
  shows "decode_message c (scaleEncodeNewValidatorSetMessagePayload c vs era) =
    Some \<lparr>elp_message_id = EL_MESSAGE_ID, elp_message = V1 (ReceiveValidators vs era)\<rparr>"
  by (rule decode_encoded [OF assms])

theorem validator_message_roundtrip_witness:
  "decode_message fixed_codec (scaleEncodeNewValidatorSetMessagePayload fixed_codec [80, 70] 3) =
    Some \<lparr>elp_message_id = EL_MESSAGE_ID, elp_message = V1 (ReceiveValidators [80, 70] 3)\<rparr>"
  using validator_message_roundtrip [OF fixed_codec_law, of "[80, 70]" 3] by simp

end
