(* ===== verification/Evm_Permits.thy ===== *)
theory Evm_Permits
  imports Merkle_Tree
begin

text \<open>
  What the EVM precompiles share: the call context, the outcome of a call, and EIP-712 permits as
  \<open>precompiles/erc20-balances/src/eip2612.rs\<close> and \<open>precompiles/call-permit/src/lib.rs\<close> compute them.
  Keccak, the recovery of a public key and the ABI encoding of words are third-party: the record
  \<open>permit_crypto\<close>. The interface \<open>one_time_permits\<close> says what a nonce promises: it never falls, and
  an accepted permit raises that of its owner.
\<close>

section \<open>Calls\<close>

record evm_context =
  ctx_address :: H160
  ctx_caller :: H160
  ctx_apparent_value :: nat

record evm_transfer =
  tr_source :: H160
  tr_target :: H160
  tr_value :: nat

datatype exit_reason = Succeed | RevertExit | ErrorExit string | FatalExit string

datatype evm_failure =
    EvmRevert string
  | EvmRevertOutput "byte list"
  | EvmError string
  | EvmFatal string
  | EvmPanic

definition u256_max :: nat where "u256_max = 2 ^ 256 - 1"

text \<open>The question-mark operator, and the outcome of a call that is dispatched to the runtime.\<close>

definition and_then :: "'e + 'a \<Rightarrow> ('a \<Rightarrow> 'e + 'b) \<Rightarrow> 'e + 'b" where
  "and_then r f = (case r of Inl e \<Rightarrow> Inl e | Inr x \<Rightarrow> f x)"

lemma and_then_Inr: "and_then r f = Inr y \<longleftrightarrow> (\<exists>x. r = Inr x \<and> f x = Inr y)"
  by (auto simp: and_then_def split: sum.splits)

definition dispatch_result :: "'w option \<Rightarrow> evm_failure + 'w" where
  "dispatch_result r = (case r of None \<Rightarrow> Inl (EvmRevert ''Dispatched call failed'') | Some w \<Rightarrow> Inr w)"

lemma dispatch_result_Inr: "dispatch_result r = Inr w \<longleftrightarrow> r = Some w"
  by (auto simp: dispatch_result_def split: option.splits)

section \<open>Permits\<close>

record permit_crypto =
  pm_keccak :: hasher
  pm_recover :: "byte list \<Rightarrow> H256 \<Rightarrow> byte list option"
  pm_encode :: "H256 list \<Rightarrow> byte list"
  pm_chain_id :: nat

definition ascii :: "string \<Rightarrow> byte list" where
  "ascii = map (\<lambda>c. word_of_nat (of_char c))"

definition PERMIT_DOMAIN :: string where
  "PERMIT_DOMAIN = ''EIP712Domain(string name,string version,uint256 chainId,address verifyingContract)''"

definition compute_domain_separator :: "permit_crypto \<Rightarrow> string \<Rightarrow> H160 \<Rightarrow> H256" where
  "compute_domain_separator pc nm address =
     pm_keccak pc (pm_encode pc
       [pm_keccak pc (ascii PERMIT_DOMAIN), pm_keccak pc (ascii nm), pm_keccak pc (ascii ''1''),
        word_of_nat (pm_chain_id pc), ucast address])"

definition pre_digest :: "permit_crypto \<Rightarrow> H256 \<Rightarrow> H256 list \<Rightarrow> byte list" where
  "pre_digest pc domain_separator content =
     [0x19, 0x01] @ be_bytes domain_separator @ be_bytes (pm_keccak pc (pm_encode pc content))"

definition permit_digest :: "permit_crypto \<Rightarrow> H256 \<Rightarrow> H256 list \<Rightarrow> H256" where
  "permit_digest pc domain_separator content = pm_keccak pc (pre_digest pc domain_separator content)"

definition signature :: "H256 \<Rightarrow> H256 \<Rightarrow> byte \<Rightarrow> byte list" where
  "signature r s v = be_bytes r @ be_bytes s @ [v]"

definition key_address :: "permit_crypto \<Rightarrow> byte list \<Rightarrow> H160" where
  "key_address pc key = ucast (pm_keccak pc key)"

text \<open>The check of a signature against the owner; \<^term>\<open>None\<close> is acceptance.\<close>

definition check_permit :: "permit_crypto \<Rightarrow> byte list \<Rightarrow> H256 \<Rightarrow> H160 \<Rightarrow> evm_failure option" where
  "check_permit pc sig permit owner =
     (case pm_recover pc sig permit of
        None \<Rightarrow> Some (EvmRevert ''Invalid permit'')
      | Some key \<Rightarrow>
          let signer = key_address pc key in
          if signer \<noteq> 0 \<and> signer = owner then None else Some (EvmRevert ''Invalid permit''))"

section \<open>One signature, one digest\<close>

text \<open>
  What the replay results rely on, for one signature and two permit contents. ECDSA reads a digest as a
  number modulo the order of the group of secp256k1, so the key recovered from a signature determines the digest
  modulo that order. The encoding of words is injective, and neither Keccak (for the digests: Keccak modulo
  the order) nor the derivation of addresses collides on the values in question.
\<close>

definition secp256k1_order :: nat where
  "secp256k1_order = 0xFFFFFFFFFFFFFFFFFFFFFFFFFFFFFFFEBAAEDCE6AF48A03BBFD25E8CD0364141"

definition recover_binds :: "permit_crypto \<Rightarrow> byte list \<Rightarrow> bool" where
  "recover_binds pc sig \<longleftrightarrow>
     (\<forall>d d' k. pm_recover pc sig d = Some k \<longrightarrow> pm_recover pc sig d' = Some k \<longrightarrow>
        unat d mod secp256k1_order = unat d' mod secp256k1_order)"

definition no_collision :: "permit_crypto \<Rightarrow> byte list \<Rightarrow> H256 \<Rightarrow> H256 list \<Rightarrow> H256 list \<Rightarrow> bool" where
  "no_collision pc sig ds c c' \<longleftrightarrow>
     inj_on (pm_encode pc) {c, c'} \<and>
     inj_on (pm_keccak pc) {pm_encode pc c, pm_encode pc c'} \<and>
     inj_on (\<lambda>x. unat (pm_keccak pc x) mod secp256k1_order) {pre_digest pc ds c, pre_digest pc ds c'} \<and>
     inj_on (key_address pc) {k. pm_recover pc sig (permit_digest pc ds c) = Some k \<or>
       pm_recover pc sig (permit_digest pc ds c') = Some k}"

lemma accepted_contents_agree:
  assumes "check_permit pc sig (permit_digest pc ds c) owner = None"
    and "check_permit pc sig (permit_digest pc ds c') owner = None"
    and "recover_binds pc sig" "no_collision pc sig ds c c'"
  shows "c = c'"
proof -
  have i: "inj_on (pm_encode pc) {c, c'}"
      "inj_on (pm_keccak pc) {pm_encode pc c, pm_encode pc c'}"
      "inj_on (\<lambda>x. unat (pm_keccak pc x) mod secp256k1_order) {pre_digest pc ds c, pre_digest pc ds c'}"
      "inj_on (key_address pc) {k. pm_recover pc sig (permit_digest pc ds c) = Some k \<or>
         pm_recover pc sig (permit_digest pc ds c') = Some k}"
    using assms(4) by (simp_all only: no_collision_def)
  obtain k k' where k: "pm_recover pc sig (permit_digest pc ds c) = Some k" "key_address pc k = owner"
      "pm_recover pc sig (permit_digest pc ds c') = Some k'" "key_address pc k' = owner"
    using assms(1,2) by (auto simp: check_permit_def Let_def split: option.splits if_splits)
  have "k = k'" by (rule inj_onD [OF i(4)]) (use k in auto)
  then have "unat (permit_digest pc ds c) mod secp256k1_order = unat (permit_digest pc ds c') mod secp256k1_order"
    using k(1,3) assms(3) unfolding recover_binds_def by blast
  then have "pre_digest pc ds c = pre_digest pc ds c'"
    unfolding permit_digest_def by (rule inj_onD [OF i(3)]) auto
  then have "be_bytes (pm_keccak pc (pm_encode pc c)) = be_bytes (pm_keccak pc (pm_encode pc c'))"
    by (simp add: pre_digest_def)
  then have "pm_keccak pc (pm_encode pc c) = pm_keccak pc (pm_encode pc c')"
    by (simp only: be_bytes_inject)
  then have "pm_encode pc c = pm_encode pc c'" by (rule inj_onD [OF i(2)]) auto
  then show ?thesis by (rule inj_onD [OF i(1)]) auto
qed

section \<open>Nonces\<close>

locale one_time_permits =
  fixes nonce :: "'s \<Rightarrow> H160 \<Rightarrow> nat"
    and step :: "'s \<Rightarrow> 's \<Rightarrow> bool"
    and accepts :: "H160 \<Rightarrow> 's \<Rightarrow> 's \<Rightarrow> bool"
  assumes step_mono: "step s s' \<Longrightarrow> nonce s a \<le> nonce s' a"
    and accepts_raises: "accepts a s s' \<Longrightarrow> nonce s a < nonce s' a"
begin

lemma steps_mono: "step\<^sup>*\<^sup>* s s' \<Longrightarrow> nonce s a \<le> nonce s' a"
  by (induction rule: rtranclp_induct) (auto dest: step_mono intro: order_trans)

text \<open>The nonce of an accepted permit is never current again.\<close>

lemma nonce_spent: "accepts a s s1 \<Longrightarrow> step\<^sup>*\<^sup>* s1 s2 \<Longrightarrow> nonce s a < nonce s2 a"
  using accepts_raises steps_mono by (blast intro: less_le_trans)

end

section \<open>A concrete scheme\<close>

text \<open>
  A hash of the length and the last two bytes, an encoding of one byte per word, and a recovery that
  knows one digest and gives a key with the address 2010.
\<close>

definition sample_keccak :: hasher where
  "sample_keccak bs = word_of_nat (unat (last bs) + unat (last (butlast bs)) + 1000 * length bs)"

definition sample_crypto :: "H256 \<Rightarrow> permit_crypto" where
  "sample_crypto d =
     \<lparr>pm_keccak = sample_keccak, pm_recover = (\<lambda>sig e. if e = d then Some [5, 5] else None),
      pm_encode = map ucast, pm_chain_id = 55931\<rparr>"

lemma sample_key: "key_address (sample_crypto d) [5, 5] = 2010"
  by (simp add: key_address_def sample_crypto_def sample_keccak_def)

lemma sample_recover_binds: "recover_binds (sample_crypto d) sig"
  by (simp add: recover_binds_def sample_crypto_def)

lemma sample_check: "check_permit (sample_crypto d) sig d 2010 = None"
  using sample_key [of d] by (simp add: check_permit_def) (simp add: sample_crypto_def)

lemma sample_crypto_hashes:
  "compute_domain_separator (sample_crypto d) = compute_domain_separator (sample_crypto 0)"
  "pre_digest (sample_crypto d) = pre_digest (sample_crypto 0)"
  "permit_digest (sample_crypto d) = permit_digest (sample_crypto 0)"
  by (simp_all add: fun_eq_iff compute_domain_separator_def pre_digest_def permit_digest_def sample_crypto_def)

lemma be_bytes_tail:
  "last (xs @ be_bytes w) = ucast w" "last (butlast (xs @ be_bytes w)) = ucast (drop_bit 8 w)"
proof -
  have "be_bytes w = map (\<lambda>i. ucast (drop_bit (8 * (31 - i)) w)) [0..<30] @ [ucast (drop_bit 8 w), ucast w]"
    by (simp add: be_bytes_def upt_rec)
  then show "last (xs @ be_bytes w) = ucast w" "last (butlast (xs @ be_bytes w)) = ucast (drop_bit 8 w)"
    by (simp_all add: butlast_append)
qed

lemma sample_pre_hash:
  "sample_keccak (pre_digest (sample_crypto 0) ds c) =
     (let h = sample_keccak (map ucast c) in word_of_nat (unat (ucast h :: byte) + unat (ucast (drop_bit 8 h) :: byte) + 66000))"
  by (simp add: sample_keccak_def pre_digest_def be_bytes_tail [of "_ # _ # be_bytes ds", simplified] Let_def)
    (simp add: sample_crypto_def sample_keccak_def)

text \<open>Contents that end in a nonce and a deadline, for the nonces zero and one.\<close>

lemma sample_no_collision:
  assumes "length xs = 4 \<or> length xs = 6"
  shows "no_collision (sample_crypto d) sig ds (xs @ [0, 9]) (xs @ [1, 9])"
proof -
  let ?enc = "map ucast :: H256 list \<Rightarrow> byte list" and ?pre = "pre_digest (sample_crypto 0) ds"
  let ?c = "xs @ [0, 9]" and ?c' = "xs @ [1, 9]"
  have h: "sample_keccak (map ucast xs @ [0, 9]) = (if length xs = 4 then 6009 else 8009)"
      "sample_keccak (map ucast xs @ [1, 9]) = (if length xs = 4 then 6010 else 8010)"
    using assms by (auto simp: sample_keccak_def butlast_append)
  let ?z = "\<lambda>x. unat (sample_keccak x) mod secp256k1_order"
  have "distinct (map ?enc [?c, ?c'])" by simp
  moreover have "distinct (map sample_keccak [?enc ?c, ?enc ?c'])" using assms by (auto simp: h)
  moreover have "distinct (map ?z [?pre ?c, ?pre ?c'])"
    using assms by (auto simp: sample_pre_hash h Let_def secp256k1_order_def)
  ultimately have "inj_on ?enc (set [?c, ?c'])" "inj_on sample_keccak (set [?enc ?c, ?enc ?c'])" "inj_on ?z (set [?pre ?c, ?pre ?c'])"
    by (simp_all only: distinct_map)
  moreover have "pm_encode (sample_crypto d) = ?enc" "pm_keccak (sample_crypto d) = sample_keccak"
    by (simp_all add: sample_crypto_def)
  moreover have "inj_on f {k. pm_recover (sample_crypto d) sig e = Some k \<or> pm_recover (sample_crypto d) sig e' = Some k}"
    for f :: "byte list \<Rightarrow> H160" and e e'
    by (rule inj_onI) (auto simp: sample_crypto_def split: if_splits)
  ultimately show ?thesis
    unfolding no_collision_def sample_crypto_hashes [of d] by (simp only: list.set simp_thms)
qed

end
