(* ===== verification/Erc20_Balances.thy ===== *)
theory Erc20_Balances
  imports Evm_Permits
begin

text \<open>
  The precompile that shows the native currency to the EVM as an ERC-20 token with EIP-2612 permits:
  \<open>precompiles/erc20-balances/src/lib.rs\<close> and \<open>eip2612.rs\<close>. The balances pallet and the clock are
  third-party (the record \<open>erc20_env\<close>); account ids are addresses, as in the runtimes. Gas is not
  modelled: running out of it reverts the call like every other failure.

  The lemmas show that spenders cannot exceed what they were granted, that tokens move only with an
  authorization, and that a permit is used at most once.
\<close>

section \<open>State\<close>

datatype erc20_log =
    LogTransfer H160 H160 H256
  | LogApproval H160 H160 H256
  | LogDeposit H160 nat
  | LogWithdrawal H160 H256

record 'w erc20_env =
  er_crypto :: permit_crypto
  er_name :: string
  is_native_currency :: bool
  transfer_allow_death :: "AccountId \<Rightarrow> AccountId \<Rightarrow> nat \<Rightarrow> 'w \<Rightarrow> 'w option"
  usable_balance :: "AccountId \<Rightarrow> 'w \<Rightarrow> nat"
  total_issuance :: "'w \<Rightarrow> nat"
  timestamp_now :: "'w \<Rightarrow> nat"

record 'w erc20_state =
  Approves :: "AccountId \<Rightarrow> AccountId \<Rightarrow> nat option"
  Nonces :: "H160 \<Rightarrow> H256"
  er_logs :: "erc20_log list"
  er_world :: 'w

type_synonym 'w erc20_result = "evm_failure + 'w erc20_state"

definition er_log :: "erc20_log \<Rightarrow> 'w erc20_state \<Rightarrow> 'w erc20_state" where
  "er_log l s = s\<lparr>er_logs := er_logs s @ [l]\<rparr>"

definition set_approval :: "AccountId \<Rightarrow> AccountId \<Rightarrow> nat \<Rightarrow> 'w erc20_state \<Rightarrow> 'w erc20_state" where
  "set_approval owner spender amount s =
     s\<lparr>Approves := (Approves s)(owner := (Approves s owner)(spender := Some amount))\<rparr>"

section \<open>Views\<close>

definition u256_to_amount :: "H256 \<Rightarrow> nat option" where
  "u256_to_amount value = (if unat value \<le> u128_max then Some (unat value) else None)"

definition total_supply :: "'w erc20_env \<Rightarrow> 'w erc20_state \<Rightarrow> nat" where
  "total_supply env s = total_issuance env (er_world s)"

definition balance_of :: "'w erc20_env \<Rightarrow> H160 \<Rightarrow> 'w erc20_state \<Rightarrow> nat" where
  "balance_of env owner s = usable_balance env owner (er_world s)"

definition allowance :: "H160 \<Rightarrow> H160 \<Rightarrow> 'w erc20_state \<Rightarrow> nat" where
  "allowance owner spender s = (case Approves s owner spender of None \<Rightarrow> 0 | Some n \<Rightarrow> n)"

definition nonces :: "H160 \<Rightarrow> 'w erc20_state \<Rightarrow> H256" where
  "nonces owner s = Nonces s owner"

section \<open>Operations\<close>

text \<open>Amounts beyond 128 bits saturate in an approval; the log keeps the value given.\<close>

definition approved_amount :: "H256 \<Rightarrow> nat" where
  "approved_amount value = (case u256_to_amount value of None \<Rightarrow> u128_max | Some n \<Rightarrow> n)"

definition approve :: "evm_context \<Rightarrow> H160 \<Rightarrow> H256 \<Rightarrow> 'w erc20_state \<Rightarrow> 'w erc20_result" where
  "approve ctx spender value s =
     Inr (er_log (LogApproval (ctx_caller ctx) spender value)
            (set_approval (ctx_caller ctx) spender (approved_amount value) s))"

definition try_dispatch :: "'w erc20_state \<Rightarrow> 'w option \<Rightarrow> 'w erc20_result" where
  "try_dispatch s r =
     (case r of None \<Rightarrow> Inl (EvmRevert ''Dispatched call failed'') | Some w \<Rightarrow> Inr (s\<lparr>er_world := w\<rparr>))"

definition erc20_transfer :: "'w erc20_env \<Rightarrow> evm_context \<Rightarrow> H160 \<Rightarrow> H256 \<Rightarrow> 'w erc20_state \<Rightarrow> 'w erc20_result" where
  "erc20_transfer env ctx to value s =
     (case u256_to_amount value of
        None \<Rightarrow> Inl (EvmRevert ''value: Value is too large for balance type'')
      | Some amount \<Rightarrow>
          (case try_dispatch s (transfer_allow_death env (ctx_caller ctx) to amount (er_world s)) of
             Inl e \<Rightarrow> Inl e
           | Inr s \<Rightarrow> Inr (er_log (LogTransfer (ctx_caller ctx) to value) s)))"

definition spend_allowance :: "H160 \<Rightarrow> H160 \<Rightarrow> nat \<Rightarrow> 'w erc20_state \<Rightarrow> 'w erc20_result" where
  "spend_allowance from caller amount s =
     (case Approves s from caller of
        None \<Rightarrow> Inl (EvmRevert ''spender not allowed'')
      | Some allowed \<Rightarrow>
          (case checked_sub allowed amount of
             None \<Rightarrow> Inl (EvmRevert ''trying to spend more than allowed'')
           | Some allowed \<Rightarrow> Inr (set_approval from caller allowed s)))"

definition transfer_from ::
  "'w erc20_env \<Rightarrow> evm_context \<Rightarrow> H160 \<Rightarrow> H160 \<Rightarrow> H256 \<Rightarrow> 'w erc20_state \<Rightarrow> 'w erc20_result" where
  "transfer_from env ctx from to value s =
     (case u256_to_amount value of
        None \<Rightarrow> Inl (EvmRevert ''value: Value is too large for balance type'')
      | Some amount \<Rightarrow>
          (case (if ctx_caller ctx \<noteq> from then spend_allowance from (ctx_caller ctx) amount s else Inr s) of
             Inl e \<Rightarrow> Inl e
           | Inr s \<Rightarrow>
               (case try_dispatch s (transfer_allow_death env from to amount (er_world s)) of
                  Inl e \<Rightarrow> Inl e
                | Inr s \<Rightarrow> Inr (er_log (LogTransfer from to value) s))))"

text \<open>The EVM has moved the value to the precompile before the call.\<close>

definition deposit :: "'w erc20_env \<Rightarrow> evm_context \<Rightarrow> 'w erc20_state \<Rightarrow> 'w erc20_result" where
  "deposit env ctx s =
     (if \<not> is_native_currency env then Inl (EvmRevert ''Unknown selector'')
      else if u128_max < ctx_apparent_value ctx then Inl (EvmRevert ''Value is too large for balance type'')
      else if ctx_apparent_value ctx = 0 then Inl (EvmRevert ''deposited amount must be non-zero'')
      else case try_dispatch s (transfer_allow_death env (ctx_address ctx) (ctx_caller ctx) (ctx_apparent_value ctx) (er_world s)) of
        Inl e \<Rightarrow> Inl e
      | Inr s \<Rightarrow> Inr (er_log (LogDeposit (ctx_caller ctx) (ctx_apparent_value ctx)) s))"

definition withdraw :: "'w erc20_env \<Rightarrow> evm_context \<Rightarrow> H256 \<Rightarrow> 'w erc20_state \<Rightarrow> 'w erc20_result" where
  "withdraw env ctx value s =
     (if \<not> is_native_currency env then Inl (EvmRevert ''Unknown selector'')
      else if unat value > usable_balance env (ctx_caller ctx) (er_world s)
      then Inl (EvmRevert ''Trying to withdraw more than owned'')
      else Inr (er_log (LogWithdrawal (ctx_caller ctx) value) s))"

section \<open>Permits\<close>

definition PERMIT_TYPEHASH :: string where
  "PERMIT_TYPEHASH = ''Permit(address owner,address spender,uint256 value,uint256 nonce,uint256 deadline)''"

definition permit_content :: "permit_crypto \<Rightarrow> H160 \<Rightarrow> H160 \<Rightarrow> H256 \<Rightarrow> H256 \<Rightarrow> H256 \<Rightarrow> H256 list" where
  "permit_content pc owner spender value nonce deadline =
     [pm_keccak pc (ascii PERMIT_TYPEHASH), ucast owner, ucast spender, value, nonce, deadline]"

definition generate_permit ::
  "'w erc20_env \<Rightarrow> H160 \<Rightarrow> H160 \<Rightarrow> H160 \<Rightarrow> H256 \<Rightarrow> H256 \<Rightarrow> H256 \<Rightarrow> H256" where
  "generate_permit env address owner spender value nonce deadline =
     permit_digest (er_crypto env) (compute_domain_separator (er_crypto env) (er_name env) address)
       (permit_content (er_crypto env) owner spender value nonce deadline)"

definition permit_seconds :: "nat \<Rightarrow> nat" where
  "permit_seconds now = min now u128_max div 1000"

definition permit ::
  "'w erc20_env \<Rightarrow> evm_context \<Rightarrow> H160 \<Rightarrow> H160 \<Rightarrow> H256 \<Rightarrow> H256 \<Rightarrow> byte \<Rightarrow> H256 \<Rightarrow> H256 \<Rightarrow>
     'w erc20_state \<Rightarrow> 'w erc20_result" where
  "permit env ctx owner spender value deadline v r sg s =
     (if \<not> permit_seconds (timestamp_now env (er_world s)) \<le> unat deadline then Inl (EvmRevert ''Permit expired'')
      else let nonce = Nonces s owner;
               digest = generate_permit env (ctx_address ctx) owner spender value nonce deadline in
        case check_permit (er_crypto env) (signature r sg v) digest owner of
          Some e \<Rightarrow> Inl e
        | None \<Rightarrow>
            if unat nonce = u256_max then Inl EvmPanic
            else Inr (er_log (LogApproval owner spender value)
                   (set_approval owner spender (approved_amount value) (s\<lparr>Nonces := (Nonces s)(owner := nonce + 1)\<rparr>))))"

section \<open>Calls\<close>

datatype 'w er_call =
    CallApprove evm_context H160 H256
  | CallTransfer evm_context H160 H256
  | CallTransferFrom evm_context H160 H160 H256
  | CallDeposit evm_context
  | CallWithdraw evm_context H256
  | CallPermit evm_context H160 H160 H256 H256 byte H256 H256
  | Elsewhere 'w

text \<open>\<open>Elsewhere\<close> is any change of the chain outside the precompile.\<close>

fun er_dispatch :: "'w erc20_env \<Rightarrow> 'w er_call \<Rightarrow> 'w erc20_state \<Rightarrow> 'w erc20_result" where
  "er_dispatch env (CallApprove ctx spender value) s = approve ctx spender value s"
| "er_dispatch env (CallTransfer ctx to value) s = erc20_transfer env ctx to value s"
| "er_dispatch env (CallTransferFrom ctx from to value) s = transfer_from env ctx from to value s"
| "er_dispatch env (CallDeposit ctx) s = deposit env ctx s"
| "er_dispatch env (CallWithdraw ctx value) s = withdraw env ctx value s"
| "er_dispatch env (CallPermit ctx owner spender value deadline v r sg) s = permit env ctx owner spender value deadline v r sg s"
| "er_dispatch env (Elsewhere w) s = Inr (s\<lparr>er_world := w\<rparr>)"

text \<open>A failing call reverts.\<close>

definition er_exec :: "'w erc20_env \<Rightarrow> 'w erc20_state \<Rightarrow> 'w er_call \<Rightarrow> 'w erc20_state" where
  "er_exec env s c = (case er_dispatch env c s of Inl _ \<Rightarrow> s | Inr s' \<Rightarrow> s')"

inductive er_step :: "'w erc20_env \<Rightarrow> 'w erc20_state \<Rightarrow> 'w erc20_state \<Rightarrow> bool" for env where
  called: "er_dispatch env c s = Inr s' \<Longrightarrow> er_step env s s'"

text \<open>What a call spends of an allowance, and what it grants.\<close>

fun call_spends :: "AccountId \<Rightarrow> AccountId \<Rightarrow> 'w er_call \<Rightarrow> nat" where
  "call_spends owner spender (CallTransferFrom ctx from to value) =
     (if from = owner \<and> ctx_caller ctx = spender then unat value else 0)"
| "call_spends owner spender _ = 0"

fun call_grants :: "AccountId \<Rightarrow> AccountId \<Rightarrow> 'w er_call \<Rightarrow> nat list" where
  "call_grants owner spender (CallApprove ctx sp value) =
     (if ctx_caller ctx = owner \<and> sp = spender then [approved_amount value] else [])"
| "call_grants owner spender (CallPermit ctx ow sp value deadline v r sg) =
     (if ow = owner \<and> sp = spender then [approved_amount value] else [])"
| "call_grants owner spender _ = []"

fun spent :: "'w erc20_env \<Rightarrow> AccountId \<Rightarrow> AccountId \<Rightarrow> 'w erc20_state \<Rightarrow> 'w er_call list \<Rightarrow> nat" where
  "spent env owner spender s [] = 0"
| "spent env owner spender s (c # cs) =
     (case er_dispatch env c s of
        Inl _ \<Rightarrow> spent env owner spender s cs
      | Inr s' \<Rightarrow> call_spends owner spender c + spent env owner spender s' cs)"

fun granted :: "'w erc20_env \<Rightarrow> AccountId \<Rightarrow> AccountId \<Rightarrow> 'w erc20_state \<Rightarrow> 'w er_call list \<Rightarrow> nat list" where
  "granted env owner spender s [] = []"
| "granted env owner spender s (c # cs) =
     (case er_dispatch env c s of
        Inl _ \<Rightarrow> granted env owner spender s cs
      | Inr s' \<Rightarrow> call_grants owner spender c @ granted env owner spender s' cs)"

section \<open>Lemmas\<close>

lemmas er_defs = approve_def erc20_transfer_def transfer_from_def deposit_def withdraw_def permit_def
  try_dispatch_def spend_allowance_def er_log_def set_approval_def

lemmas er_splits = if_splits option.splits sum.splits

lemma u256_to_amount_Some [simp]: "u256_to_amount v = Some n \<longleftrightarrow> unat v \<le> u128_max \<and> n = unat v"
  by (auto simp: u256_to_amount_def)

lemma checked_sub_Some [simp]: "checked_sub a b = Some n \<longleftrightarrow> b \<le> a \<and> n = a - b"
  by (auto simp: checked_sub_def)

text \<open>One accepted call and one allowance.\<close>

lemma er_dispatch_allowance:
  assumes "er_dispatch env c s = Inr s'" "owner \<noteq> spender"
  shows "(case call_grants owner spender c of
      [] \<Rightarrow> call_spends owner spender c + allowance owner spender s' = allowance owner spender s
    | n # _ \<Rightarrow> call_spends owner spender c = 0 \<and> allowance owner spender s' = n)"
  using assms by (cases c) (auto simp: er_defs allowance_def Let_def split: er_splits)

lemma allowance_run:
  assumes "owner \<noteq> spender"
  shows "spent env owner spender s cs + allowance owner spender (foldl (er_exec env) s cs) \<le>
      allowance owner spender s + sum_list (granted env owner spender s cs)"
    and "granted env owner spender s cs = [] \<Longrightarrow>
      spent env owner spender s cs + allowance owner spender (foldl (er_exec env) s cs) = allowance owner spender s"
proof (induction cs arbitrary: s)
  case (Cons c cs)
  {
    case 1
    show ?case
      using Cons.IH(1) [of s] Cons.IH(1) [of "projr (er_dispatch env c s)"] er_dispatch_allowance [of env c s _ owner spender] assms
      by (cases "er_dispatch env c s"; cases "call_grants owner spender c") (fastforce simp: er_exec_def)+
  next
    case 2
    then show ?case
      using Cons.IH(2) [of s] Cons.IH(2) [of "projr (er_dispatch env c s)"] er_dispatch_allowance [of env c s _ owner spender] assms
      by (cases "er_dispatch env c s") (auto simp: er_exec_def)
  }
qed simp_all

text \<open>
  What the precompile relies on: a transfer takes no more than the sender can use, and lowers no
  other balance.
\<close>

definition transfer_law :: "'w erc20_env \<Rightarrow> bool" where
  "transfer_law env \<longleftrightarrow>
     (\<forall>a b n w w'. transfer_allow_death env a b n w = Some w' \<longrightarrow>
        n \<le> usable_balance env a w \<and> (\<forall>c. c \<noteq> a \<longrightarrow> usable_balance env c w \<le> usable_balance env c w'))"

fun is_elsewhere :: "'w er_call \<Rightarrow> bool" where
  "is_elsewhere (Elsewhere _) = True"
| "is_elsewhere _ = False"

text \<open>The permit interface: nonces only rise.\<close>

definition er_nonce :: "'w erc20_state \<Rightarrow> H160 \<Rightarrow> nat" where
  "er_nonce s a = unat (Nonces s a)"

definition er_accepts :: "'w erc20_env \<Rightarrow> H160 \<Rightarrow> 'w erc20_state \<Rightarrow> 'w erc20_state \<Rightarrow> bool" where
  "er_accepts env owner s s' \<longleftrightarrow>
     (\<exists>ctx spender value deadline v r sg. permit env ctx owner spender value deadline v r sg s = Inr s')"

lemma unat_nonce_Suc: "unat (n :: H256) \<noteq> u256_max \<Longrightarrow> unat (n + 1) = unat n + 1"
  using unsigned_less [of n, where 'a = nat] by (simp add: unat_word_ariths(1) u256_max_def)

lemma permit_nonce:
  assumes "permit env ctx owner spender value deadline v r sg s = Inr s'"
  shows "er_nonce s' a = (if a = owner then er_nonce s a + 1 else er_nonce s a)"
  using assms
  by (auto simp: permit_def er_nonce_def er_log_def set_approval_def Let_def unat_nonce_Suc split: er_splits)

lemma er_dispatch_nonce: "er_dispatch env c s = Inr s' \<Longrightarrow> er_nonce s a \<le> er_nonce s' a"
proof (cases c)
  case (CallPermit ctx ow sp amount dl v r sg)
  moreover assume "er_dispatch env c s = Inr s'"
  ultimately show ?thesis using permit_nonce [of env ctx ow sp amount dl v r sg s s' a] by simp
qed (auto simp: er_defs er_nonce_def split: er_splits)

interpretation erp: one_time_permits er_nonce "er_step env" "er_accepts env" for env
proof
  show "er_step env s s' \<Longrightarrow> er_nonce s a \<le> er_nonce s' a" for s s' a
    by (auto elim!: er_step.cases intro: er_dispatch_nonce)
  show "er_accepts env a s s' \<Longrightarrow> er_nonce s a < er_nonce s' a" for s s' a
    by (auto simp: er_accepts_def permit_nonce)
qed

section \<open>Sample configuration\<close>

text \<open>
  Balances as a function, no existential deposit, a clock at zero.
\<close>

definition sample_er_env :: "H256 \<Rightarrow> (AccountId \<Rightarrow> nat) erc20_env" where
  "sample_er_env d =
     \<lparr>er_crypto = sample_crypto d, er_name = ''HAVE'', is_native_currency = True,
      transfer_allow_death = (\<lambda>a b n w. if n \<le> w a then Some ((w(a := w a - n))(b := (w(a := w a - n)) b + n)) else None),
      usable_balance = (\<lambda>a w. w a), total_issuance = (\<lambda>w. 100), timestamp_now = (\<lambda>w. 0)\<rparr>"

definition sample_er_state :: "(AccountId \<Rightarrow> nat) erc20_state" where
  "sample_er_state = \<lparr>Approves = (\<lambda>_ _. None), Nonces = (\<lambda>_. 0), er_logs = [], er_world = (\<lambda>_. 0)(5 := 60, 6 := 40)\<rparr>"

definition sample_ctx :: "H160 \<Rightarrow> evm_context" where
  "sample_ctx caller = \<lparr>ctx_address = 2050, ctx_caller = caller, ctx_apparent_value = 0\<rparr>"

section \<open>Properties\<close>

text \<open>
  C31. A spender never gets more than was granted: over any sequence of calls, failing ones
  included, what it moved out of an owner's account by \<open>transferFrom\<close> plus the allowance that is
  left is at most the allowance at the start plus all grants by approvals and permits on the way;
  and as long as the owner grants nothing new, the two sides are equal.
\<close>

theorem allowance_bounds_spending:
  assumes "owner \<noteq> spender"
  shows "spent env owner spender s calls + allowance owner spender (foldl (er_exec env) s calls) \<le>
      allowance owner spender s + sum_list (granted env owner spender s calls) \<and>
    (granted env owner spender s calls = [] \<longrightarrow>
      spent env owner spender s calls + allowance owner spender (foldl (er_exec env) s calls) = allowance owner spender s)"
  using allowance_run [OF assms] by blast

definition sample_er_calls :: "(AccountId \<Rightarrow> nat) er_call list" where
  "sample_er_calls =
     [CallApprove (sample_ctx 5) 6 30, CallTransferFrom (sample_ctx 6) 5 7 20, CallTransferFrom (sample_ctx 6) 5 7 20]"

theorem allowance_bounds_spending_witness:
  "spent (sample_er_env 0) 5 6 sample_er_state sample_er_calls = 20 \<and>
   20 + allowance 5 6 (foldl (er_exec (sample_er_env 0)) sample_er_state sample_er_calls) \<le> 30"
proof -
  have "spent (sample_er_env 0) 5 6 sample_er_state sample_er_calls = 20"
      "granted (sample_er_env 0) 5 6 sample_er_state sample_er_calls = [30]" "allowance 5 6 sample_er_state = 0"
    by (simp_all add: sample_er_calls_def er_defs u256_to_amount_def approved_amount_def checked_sub_def u128_max_def
        sample_er_env_def sample_er_state_def sample_ctx_def allowance_def)
  then show ?thesis using allowance_bounds_spending [of 5 6 "sample_er_env 0" sample_er_state sample_er_calls] by simp
qed

text \<open>
  C32. Tokens leave an account only with an authorization: if a call of the precompile succeeds and
  lowers the usable balance of an account, then the account is the caller, or the caller moved the
  value by \<open>transferFrom\<close> within the allowance it had from the account, which is lowered by that
  value, or the account is the precompile's own and the call is a deposit, which returns the value
  that came with it.
\<close>

theorem tokens_leave_only_authorized:
  assumes "transfer_law env" "er_dispatch env c s = Inr s'" "\<not> is_elsewhere c"
    and less: "balance_of env a s' < balance_of env a s"
  shows "(\<exists>ctx to n. ctx_caller ctx = a \<and> c = CallTransfer ctx to n) \<or>
    (\<exists>ctx to n. ctx_caller ctx = a \<and> c = CallTransferFrom ctx a to n) \<or>
    (\<exists>ctx to n. c = CallTransferFrom ctx a to n \<and> unat n \<le> allowance a (ctx_caller ctx) s \<and>
       allowance a (ctx_caller ctx) s' = allowance a (ctx_caller ctx) s - unat n) \<or>
    (\<exists>ctx. ctx_address ctx = a \<and> c = CallDeposit ctx)"
proof -
  have law: "\<And>b d n w w'. transfer_allow_death env b d n w = Some w' \<Longrightarrow> a \<noteq> b \<Longrightarrow>
      usable_balance env a w \<le> usable_balance env a w'"
    using assms(1) unfolding transfer_law_def by blast
  have law': "\<And>b d n w w'. transfer_allow_death env b d n w = Some w' \<Longrightarrow>
      usable_balance env a w' < usable_balance env a w \<Longrightarrow> b = a"
    using law not_le by blast
  show ?thesis
    using assms(2,3) less
    by (cases c) (auto simp: er_defs balance_of_def allowance_def Let_def split: er_splits dest!: law')
qed

lemma sample_transfer_law: "transfer_law (sample_er_env d)"
  by (auto simp: transfer_law_def sample_er_env_def split: if_splits)

theorem tokens_leave_only_authorized_witness:
  "\<exists>s1 s2. er_dispatch (sample_er_env 0) (CallApprove (sample_ctx 5) 6 30) sample_er_state = Inr s1 \<and>
     er_dispatch (sample_er_env 0) (CallTransferFrom (sample_ctx 6) 5 7 20) s1 = Inr s2 \<and>
     balance_of (sample_er_env 0) 5 s2 = 40 \<and> allowance 5 6 s2 = allowance 5 6 s1 - 20"
proof -
  define s1 where "s1 = projr (er_dispatch (sample_er_env 0) (CallApprove (sample_ctx 5) 6 30) sample_er_state)"
  define s2 where "s2 = projr (er_dispatch (sample_er_env 0) (CallTransferFrom (sample_ctx 6) 5 7 20) s1)"
  note ev = s1_def s2_def er_defs u256_to_amount_def approved_amount_def checked_sub_def u128_max_def
    sample_er_env_def sample_er_state_def sample_ctx_def balance_of_def
  have 1: "er_dispatch (sample_er_env 0) (CallApprove (sample_ctx 5) 6 30) sample_er_state = Inr s1"
      "er_dispatch (sample_er_env 0) (CallTransferFrom (sample_ctx 6) 5 7 20) s1 = Inr s2"
      "balance_of (sample_er_env 0) 5 s2 = 40" "balance_of (sample_er_env 0) 5 s1 = 60"
    by (simp_all add: ev)
  have "unat (20 :: H256) = 20" by simp
  with tokens_leave_only_authorized [OF sample_transfer_law 1(2), of 5] 1 show ?thesis
    by (auto simp: sample_ctx_def)
qed

text \<open>
  A permit is good for one use: once it has been accepted, the same permit is refused in every
  later state of the precompile, whatever happens in between. (With a signature whose recovered key
  determines the digest, and no collision among the digests of the two nonces in question.)
\<close>

theorem permit_not_replayable:
  assumes "permit env ctx owner spender value deadline v r sg s = Inr s1" "(er_step env)\<^sup>*\<^sup>* s1 s2"
    and "ctx_address ctx' = ctx_address ctx" "recover_binds (er_crypto env) (signature r sg v)"
    and "no_collision (er_crypto env) (signature r sg v)
      (compute_domain_separator (er_crypto env) (er_name env) (ctx_address ctx))
      (permit_content (er_crypto env) owner spender value (Nonces s owner) deadline)
      (permit_content (er_crypto env) owner spender value (Nonces s2 owner) deadline)"
  shows "\<exists>e. permit env ctx' owner spender value deadline v r sg s2 = Inl e"
proof (rule ccontr)
  assume "\<not> ?thesis"
  then obtain s3 where s3: "permit env ctx' owner spender value deadline v r sg s2 = Inr s3"
    by (cases "permit env ctx' owner spender value deadline v r sg s2") auto
  have "permit_content (er_crypto env) owner spender value (Nonces s owner) deadline =
      permit_content (er_crypto env) owner spender value (Nonces s2 owner) deadline"
    using assms(1,3) s3
    by (intro accepted_contents_agree [OF _ _ assms(4,5)])
      (auto simp: permit_def generate_permit_def Let_def split: er_splits)
  then have "Nonces s owner = Nonces s2 owner" by (simp add: permit_content_def)
  moreover have "er_nonce s owner < er_nonce s2 owner"
    using assms(1) by (intro erp.nonce_spent [OF _ assms(2)]) (unfold er_accepts_def, blast)
  ultimately show False by (simp add: er_nonce_def)
qed

definition sample_content :: "H256 \<Rightarrow> H256 list" where
  "sample_content n = permit_content (sample_crypto 0) 2010 6 30 n 9"

definition sample_digest :: H256 where
  "sample_digest = permit_digest (sample_crypto 0) (compute_domain_separator (sample_crypto 0) ''HAVE'' 2050) (sample_content 0)"

lemma sample_content_hash: "permit_content (sample_crypto d) ow sp n = permit_content (sample_crypto 0) ow sp n"
  by (simp add: fun_eq_iff permit_content_def sample_crypto_def)

lemma sample_content_no_collision:
  "no_collision (sample_crypto d) sig ds (sample_content 0) (sample_content 1)"
  unfolding sample_content_def permit_content_def
  using sample_no_collision [of "[sample_keccak (ascii PERMIT_TYPEHASH), 2010, 6, 30]" d sig ds]
  by (simp add: sample_crypto_def)

theorem permit_not_replayable_witness:
  "\<exists>s1 e. permit (sample_er_env sample_digest) (sample_ctx 7) 2010 6 30 9 0 0 0 sample_er_state = Inr s1 \<and>
     permit (sample_er_env sample_digest) (sample_ctx 8) 2010 6 30 9 0 0 0 s1 = Inl e"
proof -
  let ?env = "sample_er_env sample_digest"
  have key: "key_address (sample_crypto sample_digest) [5, 5] = 2010"
    by (simp add: key_address_def sample_crypto_def sample_keccak_def)
  have env: "er_crypto ?env = sample_crypto sample_digest" "timestamp_now ?env w = 0" for w
    by (simp_all add: sample_er_env_def)
  have d: "generate_permit ?env 2050 2010 6 30 0 9 = sample_digest"
    by (simp add: generate_permit_def sample_er_env_def sample_crypto_hashes [of sample_digest] sample_content_hash [of sample_digest])
      (simp add: sample_digest_def sample_content_def)
  have "check_permit (sample_crypto sample_digest) (signature 0 0 0) sample_digest 2010 = None"
    using key by (simp add: check_permit_def) (simp add: sample_crypto_def)
  then obtain s1 where s1: "permit ?env (sample_ctx 7) 2010 6 30 9 0 0 0 sample_er_state = Inr s1" "Nonces s1 2010 = 1"
    using d by (simp add: permit_def env sample_er_state_def sample_ctx_def u256_max_def er_log_def set_approval_def permit_seconds_def)
  have "recover_binds (sample_crypto sample_digest) sig" for sig
    by (simp add: recover_binds_def sample_crypto_def)
  then have "\<exists>e. permit ?env (sample_ctx 8) 2010 6 30 9 0 0 0 s1 = Inl e"
    using permit_not_replayable [OF s1(1) rtranclp.rtrancl_refl, of "sample_ctx 8"] sample_content_no_collision s1(2)
    by (simp add: sample_ctx_def sample_er_env_def sample_er_state_def sample_content_hash [of sample_digest] sample_content_def)
  then show ?thesis using s1(1) by blast
qed

end
