(* ===== verification/Call_Permit.thy ===== *)
theory Call_Permit
  imports Evm_Permits
begin

text \<open>
  The precompile that dispatches a signed call on behalf of its signer:
  \<open>precompiles/call-permit/src/lib.rs\<close>. The EVM is third-party: a function that runs a call on the
  whole state, so that the call may come back to the precompile. What is assumed of it is that
  nonces do not fall, since the precompile alone writes them.

  The lemmas show that an accepted permit runs exactly the signed call, after its nonce was
  consumed, and that it is refused ever after, from inside the call as well.
\<close>

section \<open>State\<close>

record 'w cp_state =
  cp_Nonces :: "H160 \<Rightarrow> H256"
  cp_world :: 'w

record 'w cp_env =
  cp_crypto :: permit_crypto
  cp_now :: "'w \<Rightarrow> nat"
  call_cost :: "nat \<Rightarrow> nat"
  evm_call :: "H160 \<Rightarrow> evm_transfer option \<Rightarrow> byte list \<Rightarrow> nat \<Rightarrow> evm_context \<Rightarrow> 'w cp_state \<Rightarrow>
    exit_reason \<times> byte list \<times> 'w cp_state"

definition CALL_DATA_LIMIT :: nat where "CALL_DATA_LIMIT = 2 ^ 16"

definition CALL_PERMIT_TYPEHASH :: string where
  "CALL_PERMIT_TYPEHASH = ''CallPermit(address from,address to,uint256 value,bytes data,uint64 gaslimit,uint256 nonce,uint256 deadline)''"

definition call_permit_content ::
  "permit_crypto \<Rightarrow> H160 \<Rightarrow> H160 \<Rightarrow> H256 \<Rightarrow> byte list \<Rightarrow> u64 \<Rightarrow> H256 \<Rightarrow> H256 \<Rightarrow> H256 list" where
  "call_permit_content pc from to value data gaslimit nonce deadline =
     [pm_keccak pc (ascii CALL_PERMIT_TYPEHASH), ucast from, ucast to, value, pm_keccak pc data, ucast gaslimit,
      nonce, deadline]"

definition cp_domain_separator :: "permit_crypto \<Rightarrow> H160 \<Rightarrow> H256" where
  "cp_domain_separator pc address = compute_domain_separator pc ''Call Permit Precompile'' address"

definition cp_generate_permit ::
  "permit_crypto \<Rightarrow> H160 \<Rightarrow> H160 \<Rightarrow> H160 \<Rightarrow> H256 \<Rightarrow> byte list \<Rightarrow> u64 \<Rightarrow> H256 \<Rightarrow> H256 \<Rightarrow> H256" where
  "cp_generate_permit pc address from to value data gaslimit nonce deadline =
     permit_digest pc (cp_domain_separator pc address)
       (call_permit_content pc from to value data gaslimit nonce deadline)"

section \<open>Dispatch\<close>

text \<open>\<open>remaining_gas\<close> is the gas left to the precompile after its fixed costs.\<close>

definition cp_dispatch ::
  "'w cp_env \<Rightarrow> evm_context \<Rightarrow> nat \<Rightarrow> H160 \<Rightarrow> H160 \<Rightarrow> H256 \<Rightarrow> byte list \<Rightarrow> u64 \<Rightarrow> H256 \<Rightarrow> byte \<Rightarrow> H256 \<Rightarrow> H256 \<Rightarrow>
     'w cp_state \<Rightarrow> evm_failure + (byte list \<times> 'w cp_state)" where
  "cp_dispatch env ctx remaining_gas from to value data gas_limit deadline v r sg s =
     (if CALL_DATA_LIMIT < length data then Inl (EvmRevert ''data: Value is too large for length'')
      else let total_cost = unat gas_limit + call_cost env (unat value) in
        if u64_max < total_cost then Inl (EvmRevert ''Call require too much gas (uint64 overflow)'')
        else if total_cost > remaining_gas then Inl (EvmRevert ''Gaslimit is too low to dispatch provided call'')
        else if \<not> min (cp_now env (cp_world s)) u128_max div 1000 \<le> unat deadline then Inl (EvmRevert ''Permit expired'')
        else let nonce = cp_Nonces s from;
                 permit = cp_generate_permit (cp_crypto env) (ctx_address ctx) from to value data gas_limit nonce deadline in
          case check_permit (cp_crypto env) (signature r sg v) permit from of
            Some e \<Rightarrow> Inl e
          | None \<Rightarrow>
              if unat nonce = u256_max then Inl EvmPanic
              else let s = s\<lparr>cp_Nonces := (cp_Nonces s)(from := nonce + 1)\<rparr>;
                       sub_context = \<lparr>ctx_address = to, ctx_caller = from, ctx_apparent_value = unat value\<rparr>;
                       tr = (if value = 0 then None else Some \<lparr>tr_source = from, tr_target = to, tr_value = unat value\<rparr>) in
                case evm_call env to tr data (unat gas_limit) sub_context s of
                  (reason, output, s') \<Rightarrow>
                    (case reason of
                       ErrorExit e \<Rightarrow> Inl (EvmError e)
                     | FatalExit e \<Rightarrow> Inl (EvmFatal e)
                     | RevertExit \<Rightarrow> Inl (EvmRevertOutput output)
                     | Succeed \<Rightarrow> Inr (output, s')))"

definition cp_nonces :: "H160 \<Rightarrow> 'w cp_state \<Rightarrow> H256" where
  "cp_nonces owner s = cp_Nonces s owner"

section \<open>The transition system\<close>

inductive cp_step :: "'w cp_env \<Rightarrow> 'w cp_state \<Rightarrow> 'w cp_state \<Rightarrow> bool" for env where
  dispatched: "cp_dispatch env ctx gas from to value data gas_limit deadline v r sg s = Inr (out, s') \<Longrightarrow> cp_step env s s'"
| outside: "cp_step env s (s\<lparr>cp_world := w\<rparr>)"

definition cp_nonce :: "'w cp_state \<Rightarrow> H160 \<Rightarrow> nat" where
  "cp_nonce s a = unat (cp_Nonces s a)"

text \<open>The EVM writes the nonces through the precompile only, which raises them.\<close>

definition evm_keeps_nonces :: "'w cp_env \<Rightarrow> bool" where
  "evm_keeps_nonces env \<longleftrightarrow>
     (\<forall>to tr data gas ctx s reason out s' a. evm_call env to tr data gas ctx s = (reason, out, s') \<longrightarrow>
        cp_nonce s a \<le> cp_nonce s' a)"

definition cp_accepts :: "'w cp_env \<Rightarrow> H160 \<Rightarrow> 'w cp_state \<Rightarrow> 'w cp_state \<Rightarrow> bool" where
  "cp_accepts env from s s' \<longleftrightarrow> evm_keeps_nonces env \<and>
     (\<exists>ctx gas to value data gas_limit deadline v r sg out.
        cp_dispatch env ctx gas from to value data gas_limit deadline v r sg s = Inr (out, s'))"

section \<open>Lemmas\<close>

text \<open>An accepted dispatch: the check that it passed and the call that it made.\<close>

lemma cp_dispatch_accepted:
  assumes "cp_dispatch env ctx gas from to value data gas_limit deadline v r sg s = Inr (out, s1)"
  shows "check_permit (cp_crypto env) (signature r sg v)
      (cp_generate_permit (cp_crypto env) (ctx_address ctx) from to value data gas_limit (cp_Nonces s from) deadline) from = None"
    and "unat (cp_Nonces s from) \<noteq> u256_max"
    and "evm_call env to (if value = 0 then None else Some \<lparr>tr_source = from, tr_target = to, tr_value = unat value\<rparr>) data
      (unat gas_limit) \<lparr>ctx_address = to, ctx_caller = from, ctx_apparent_value = unat value\<rparr>
      (s\<lparr>cp_Nonces := (cp_Nonces s)(from := cp_Nonces s from + 1)\<rparr>) = (Succeed, out, s1)"
  using assms by (auto simp: cp_dispatch_def Let_def split: if_splits option.splits prod.splits exit_reason.splits)

lemma cp_nonce_next:
  "unat (cp_Nonces s from) \<noteq> u256_max \<Longrightarrow>
     cp_nonce (s\<lparr>cp_Nonces := (cp_Nonces s)(from := cp_Nonces s from + 1)\<rparr>) a =
       (if a = from then cp_nonce s a + 1 else cp_nonce s a)"
  using unsigned_less [of "cp_Nonces s from", where 'a = nat]
  by (auto simp: cp_nonce_def unat_word_ariths(1) u256_max_def)

lemma evm_keeps_noncesD:
  "evm_keeps_nonces env \<Longrightarrow> evm_call env to tr data gas ctx s = (reason, out, s') \<Longrightarrow> cp_nonce s a \<le> cp_nonce s' a"
  unfolding evm_keeps_nonces_def by blast

lemma cp_dispatch_nonce:
  assumes "cp_dispatch env ctx gas from to value data gas_limit deadline v r sg s = Inr (out, s1)" "evm_keeps_nonces env"
  shows "(if a = from then cp_nonce s a + 1 else cp_nonce s a) \<le> cp_nonce s1 a"
  using evm_keeps_noncesD [OF assms(2) cp_dispatch_accepted(3) [OF assms(1)], of a]
    cp_nonce_next [OF cp_dispatch_accepted(2) [OF assms(1)], of a] by simp

lemma cp_step_nonce: "cp_step env s s' \<Longrightarrow> evm_keeps_nonces env \<Longrightarrow> cp_nonce s a \<le> cp_nonce s' a"
proof (induction rule: cp_step.induct)
  case dispatched
  from cp_dispatch_nonce [OF dispatched, of a] show ?case by (simp split: if_splits)
qed (simp add: cp_nonce_def)

definition cp_lawful_step :: "'w cp_env \<Rightarrow> 'w cp_state \<Rightarrow> 'w cp_state \<Rightarrow> bool" where
  "cp_lawful_step env s s' \<longleftrightarrow> evm_keeps_nonces env \<and> cp_step env s s'"

interpretation cpp: one_time_permits cp_nonce "cp_lawful_step env" "cp_accepts env" for env
proof
  show "cp_lawful_step env s s' \<Longrightarrow> cp_nonce s a \<le> cp_nonce s' a" for s s' a
    by (auto simp: cp_lawful_step_def intro: cp_step_nonce)
  show "cp_accepts env a s s' \<Longrightarrow> cp_nonce s a < cp_nonce s' a" for s s' a
    unfolding cp_accepts_def by (elim conjE exE, drule cp_dispatch_nonce [where a = a], auto)
qed

text \<open>A permit whose nonce has been passed is refused.\<close>

lemma cp_stale_refused:
  assumes "check_permit (cp_crypto env) (signature r sg v)
      (cp_generate_permit (cp_crypto env) (ctx_address ctx) fr to value data gas_limit n deadline) fr = None"
    and "unat n < cp_nonce t fr" "ctx_address ctx' = ctx_address ctx" "recover_binds (cp_crypto env) (signature r sg v)"
    and "no_collision (cp_crypto env) (signature r sg v) (cp_domain_separator (cp_crypto env) (ctx_address ctx))
      (call_permit_content (cp_crypto env) fr to value data gas_limit n deadline)
      (call_permit_content (cp_crypto env) fr to value data gas_limit (cp_Nonces t fr) deadline)"
  shows "\<exists>e. cp_dispatch env ctx' gas fr to value data gas_limit deadline v r sg t = Inl e"
proof (rule ccontr)
  assume "\<not> ?thesis"
  then obtain out t' where "cp_dispatch env ctx' gas fr to value data gas_limit deadline v r sg t = Inr (out, t')"
    by (cases "cp_dispatch env ctx' gas fr to value data gas_limit deadline v r sg t") auto
  from cp_dispatch_accepted(1) [OF this] assms(1,3)
  have "call_permit_content (cp_crypto env) fr to value data gas_limit n deadline =
      call_permit_content (cp_crypto env) fr to value data gas_limit (cp_Nonces t fr) deadline"
    by (intro accepted_contents_agree [OF _ _ assms(4,5)]) (simp_all add: cp_generate_permit_def)
  then show False using assms(2) by (simp add: call_permit_content_def cp_nonce_def)
qed

section \<open>Properties\<close>

text \<open>
  C33. An accepted permit runs the signed call once. The EVM gets exactly the call of the permit: the
  target, the data, the value taken from the signer, the gas limit, with the signer as the caller,
  in a state where the signer's nonce is already one higher. From then on, inside that call
  and after it, the same permit is refused whatever happens in between. This assumes an EVM that does not lower the
  nonces, that a signature from which the same key is recovered for two digests has them equal modulo the group order, and
  that Keccak (for the two digests: Keccak modulo the group order), the encoding and the derivation of addresses do not collide on
  the two permits that differ in their nonces.
\<close>

theorem call_permit_runs_once:
  assumes "evm_keeps_nonces env" "cp_dispatch env ctx gas signer to value data gas_limit deadline v r sg s = Inr (out, s1)"
  shows "\<exists>s0. s0 = s\<lparr>cp_Nonces := (cp_Nonces s)(signer := cp_Nonces s signer + 1)\<rparr> \<and>
    evm_call env to (if value = 0 then None else Some \<lparr>tr_source = signer, tr_target = to, tr_value = unat value\<rparr>) data
      (unat gas_limit) \<lparr>ctx_address = to, ctx_caller = signer, ctx_apparent_value = unat value\<rparr> s0 = (Succeed, out, s1) \<and>
    (\<forall>t ctx' gas'. ((cp_step env)\<^sup>*\<^sup>* s0 t \<or> (cp_step env)\<^sup>*\<^sup>* s1 t) \<and> ctx_address ctx' = ctx_address ctx \<and>
       recover_binds (cp_crypto env) (signature r sg v) \<and>
       no_collision (cp_crypto env) (signature r sg v) (cp_domain_separator (cp_crypto env) (ctx_address ctx))
         (call_permit_content (cp_crypto env) signer to value data gas_limit (cp_Nonces s signer) deadline)
         (call_permit_content (cp_crypto env) signer to value data gas_limit (cp_Nonces t signer) deadline) \<longrightarrow>
       (\<exists>e. cp_dispatch env ctx' gas' signer to value data gas_limit deadline v r sg t = Inl e))"
proof -
  let ?s0 = "s\<lparr>cp_Nonces := (cp_Nonces s)(signer := cp_Nonces s signer + 1)\<rparr>"
  note acc = cp_dispatch_accepted [OF assms(2)]
  have lawful: "(cp_lawful_step env)\<^sup>*\<^sup>* a b" if "(cp_step env)\<^sup>*\<^sup>* a b" for a b
    using that by (rule rtranclp_mono [THEN predicate2D, rotated]) (simp add: le_fun_def cp_lawful_step_def assms(1))
  have "unat (cp_Nonces s signer) < cp_nonce t signer" if "(cp_step env)\<^sup>*\<^sup>* ?s0 t \<or> (cp_step env)\<^sup>*\<^sup>* s1 t" for t
  proof -
    have "cp_nonce ?s0 signer \<le> cp_nonce t signer \<or> cp_nonce s1 signer \<le> cp_nonce t signer"
      using that lawful cpp.steps_mono by blast
    moreover have "cp_nonce ?s0 signer = cp_nonce s signer + 1" "cp_nonce s signer + 1 \<le> cp_nonce s1 signer"
      using cp_nonce_next [OF acc(2), of signer] cp_dispatch_nonce [OF assms(2,1), of signer] by auto
    ultimately show ?thesis by (auto simp: cp_nonce_def [of s])
  qed
  with cp_stale_refused [OF acc(1)] acc(3) show ?thesis by blast
qed

text \<open>An EVM where every call succeeds at once.\<close>

definition sample_call_content :: "H256 \<Rightarrow> H256 list" where
  "sample_call_content n = call_permit_content (sample_crypto 0) 2010 6 1 [1, 2] 100 n 9"

definition sample_call_digest :: H256 where
  "sample_call_digest = permit_digest (sample_crypto 0) (cp_domain_separator (sample_crypto 0) 2058) (sample_call_content 0)"

definition sample_cp_env :: "unit cp_env" where
  "sample_cp_env =
     \<lparr>cp_crypto = sample_crypto sample_call_digest, cp_now = (\<lambda>_. 5000), call_cost = (\<lambda>n. 700),
      evm_call = (\<lambda>to tr data gas ctx s. (Succeed, data, s))\<rparr>"

definition sample_cp_state :: "unit cp_state" where
  "sample_cp_state = \<lparr>cp_Nonces = (\<lambda>_. 0), cp_world = ()\<rparr>"

lemma sample_call_content_eq:
  "call_permit_content (sample_crypto d) 2010 6 1 [1, 2] 100 n 9 =
     [sample_keccak (ascii CALL_PERMIT_TYPEHASH), 2010, 6, 1, sample_keccak [1, 2], 100] @ [n, 9]"
  by (simp add: call_permit_content_def sample_crypto_def)

theorem call_permit_runs_once_witness:
  "\<exists>s1 e. cp_dispatch sample_cp_env \<lparr>ctx_address = 2058, ctx_caller = 7, ctx_apparent_value = 0\<rparr> 900 2010 6 1 [1, 2] 100 9 0 0 0
       sample_cp_state = Inr ([1, 2], s1) \<and>
     cp_dispatch sample_cp_env \<lparr>ctx_address = 2058, ctx_caller = 8, ctx_apparent_value = 0\<rparr> 900 2010 6 1 [1, 2] 100 9 0 0 0 s1 = Inl e"
proof -
  let ?ctx = "\<lambda>a. \<lparr>ctx_address = 2058, ctx_caller = a, ctx_apparent_value = 0\<rparr>"
  let ?s1 = "sample_cp_state\<lparr>cp_Nonces := (cp_Nonces sample_cp_state)(2010 := 1)\<rparr>"
  have env: "cp_crypto sample_cp_env = sample_crypto sample_call_digest" "cp_now sample_cp_env () = 5000"
      "call_cost sample_cp_env n = 700" "evm_call sample_cp_env to tr data gas c s = (Succeed, data, s)" for n to tr data gas c s
    by (simp_all add: sample_cp_env_def)
  have "cp_generate_permit (sample_crypto sample_call_digest) 2058 2010 6 1 [1, 2] 100 0 9 = sample_call_digest"
    unfolding cp_generate_permit_def cp_domain_separator_def sample_crypto_hashes [of sample_call_digest]
    by (simp add: sample_call_content_eq) (simp add: sample_call_digest_def sample_call_content_def sample_call_content_eq cp_domain_separator_def)
  then have d: "cp_dispatch sample_cp_env (?ctx 7) 900 2010 6 1 [1, 2] 100 9 0 0 0 sample_cp_state = Inr ([1, 2], ?s1)"
    by (simp add: cp_dispatch_def env sample_check Let_def)
      (simp add: env sample_cp_state_def CALL_DATA_LIMIT_def u64_max_def u128_max_def u256_max_def sample_check)
  have "evm_keeps_nonces sample_cp_env"
    by (simp add: evm_keeps_nonces_def sample_cp_env_def)
  from call_permit_runs_once [OF this d]
  have "\<exists>e. cp_dispatch sample_cp_env (?ctx 8) 900 2010 6 1 [1, 2] 100 9 0 0 0 ?s1 = Inl e"
    using sample_no_collision [of "[sample_keccak (ascii CALL_PERMIT_TYPEHASH), 2010, 6, 1, sample_keccak [1, 2], 100]"]
    by (auto simp: env sample_recover_binds sample_call_content_eq sample_cp_state_def)
  then show ?thesis using d by blast
qed

end
