(* ===== verification/Batch_Precompile.thy ===== *)
theory Batch_Precompile
  imports Evm_Permits
begin

text \<open>
  The precompile that makes several calls on behalf of its caller: \<open>precompiles/batch/src/lib.rs\<close>,
  with its three modes and its gas accounting. The EVM is third-party: a function on the gas left
  and the world. What is assumed of it is that a call costs at most its own price and the gas
  forwarded to it.

  The lemmas show which calls each mode makes, in which order and with which gas, what it logs of
  them, when it stops and with which error, and that the gas set aside for the logs is always enough.
\<close>

section \<open>The precompile\<close>

datatype mode = BatchSome | BatchSomeUntilFailure | BatchAll

datatype batch_log = SubcallSucceeded nat | SubcallFailed nat

record 'w batch_handle =
  bh_gas :: nat
  bh_logs :: "batch_log list"
  bh_world :: 'w

record 'w batch_env =
  bt_log_cost :: nat
  bt_call_cost :: "nat \<Rightarrow> nat"
  bt_call :: "H160 \<Rightarrow> evm_transfer option \<Rightarrow> byte list \<Rightarrow> nat \<Rightarrow> evm_context \<Rightarrow> nat \<times> 'w \<Rightarrow>
    exit_reason \<times> byte list \<times> nat \<times> 'w"

type_synonym 'w batch_result = "evm_failure + 'w batch_handle"

text \<open>One turn of the loop either returns from the function or goes on.\<close>

datatype 'w flow = Return "'w batch_result" | Continue "'w batch_handle"

definition record_log :: "'w batch_env \<Rightarrow> batch_log \<Rightarrow> 'w batch_handle \<Rightarrow> 'w batch_result" where
  "record_log env l h =
     (if bh_gas h < bt_log_cost env then Inl (EvmError ''OutOfGas'')
      else Inr (h\<lparr>bh_gas := bh_gas h - bt_log_cost env, bh_logs := bh_logs h @ [l]\<rparr>))"

definition not_enough_gas :: "'w batch_env \<Rightarrow> mode \<Rightarrow> nat \<Rightarrow> 'w batch_handle \<Rightarrow> 'w flow" where
  "not_enough_gas env mode i h =
     (case record_log env (SubcallFailed i) h of
        Inl e \<Rightarrow> Return (Inl e)
      | Inr h \<Rightarrow>
          (case mode of
             BatchAll \<Rightarrow> Return (Inl (EvmError ''OutOfGas''))
           | BatchSomeUntilFailure \<Rightarrow> Return (Inr h)
           | BatchSome \<Rightarrow> Continue h))"

definition log_reason :: "'w batch_env \<Rightarrow> exit_reason \<Rightarrow> nat \<Rightarrow> 'w batch_handle \<Rightarrow> 'w batch_result" where
  "log_reason env reason i h =
     (case reason of
        RevertExit \<Rightarrow> record_log env (SubcallFailed i) h
      | ErrorExit _ \<Rightarrow> record_log env (SubcallFailed i) h
      | Succeed \<Rightarrow> record_log env (SubcallSucceeded i) h
      | FatalExit _ \<Rightarrow> Inr h)"

definition proceed :: "mode \<Rightarrow> exit_reason \<Rightarrow> byte list \<Rightarrow> 'w batch_handle \<Rightarrow> 'w flow" where
  "proceed mode reason output h =
     (case reason of
        FatalExit e \<Rightarrow> Return (Inl (EvmFatal e))
      | RevertExit \<Rightarrow>
          (case mode of BatchAll \<Rightarrow> Return (Inl (EvmRevertOutput output))
           | BatchSomeUntilFailure \<Rightarrow> Return (Inr h) | BatchSome \<Rightarrow> Continue h)
      | ErrorExit e \<Rightarrow>
          (case mode of BatchAll \<Rightarrow> Return (Inl (EvmError e))
           | BatchSomeUntilFailure \<Rightarrow> Return (Inr h) | BatchSome \<Rightarrow> Continue h)
      | Succeed \<Rightarrow> Continue h)"

definition subcall ::
  "'w batch_env \<Rightarrow> mode \<Rightarrow> evm_context \<Rightarrow> nat \<Rightarrow> H160 \<Rightarrow> nat \<Rightarrow> byte list \<Rightarrow> nat option \<Rightarrow> 'w batch_handle \<Rightarrow> 'w flow" where
  "subcall env mode ctx i address value call_data gas_limit h =
     (let sub_context = \<lparr>ctx_address = address, ctx_caller = ctx_caller ctx, ctx_apparent_value = value\<rparr>;
          tr = (if value = 0 then None
                else Some \<lparr>tr_source = ctx_caller ctx, tr_target = address, tr_value = value\<rparr>) in
      case checked_sub (bh_gas h) (bt_log_cost env) of
        None \<Rightarrow> Return (if mode = BatchAll then Inl (EvmError ''OutOfGas'') else Inr h)
      | Some forwarded \<Rightarrow>
          (case checked_sub forwarded (bt_call_cost env value) of
             None \<Rightarrow> not_enough_gas env mode i h
           | Some forwarded \<Rightarrow>
               let limit = (case gas_limit of None \<Rightarrow> forwarded | Some l \<Rightarrow> l) in
               if forwarded < limit then not_enough_gas env mode i h
               else case bt_call env address tr call_data limit sub_context (bh_gas h, bh_world h) of
                 (reason, output, g, w) \<Rightarrow>
                   (case log_reason env reason i (h\<lparr>bh_gas := g, bh_world := w\<rparr>) of
                      Inl e \<Rightarrow> Return (Inl e)
                    | Inr h \<Rightarrow> proceed mode reason output h)))"

text \<open>Entry \<open>i\<close> of an array that may be too short.\<close>

definition at :: "'a list \<Rightarrow> nat \<Rightarrow> 'a option" where
  "at xs i = (if i < length xs then Some (xs ! i) else None)"

definition gas_limit_at :: "nat list \<Rightarrow> nat \<Rightarrow> nat option" where
  "gas_limit_at gas_limits i = (case at gas_limits i of None \<Rightarrow> None | Some x \<Rightarrow> if x = 0 then None else Some x)"

fun batch_loop ::
  "'w batch_env \<Rightarrow> mode \<Rightarrow> evm_context \<Rightarrow> nat list \<Rightarrow> byte list list \<Rightarrow> nat list \<Rightarrow> nat \<Rightarrow> H160 list \<Rightarrow>
     'w batch_handle \<Rightarrow> 'w batch_result" where
  "batch_loop env mode ctx values calls_data gas_limits i [] h = Inr h"
| "batch_loop env mode ctx values calls_data gas_limits i (address # addresses) h =
     (case subcall env mode ctx i address (case at values i of None \<Rightarrow> 0 | Some v \<Rightarrow> v)
             (case at calls_data i of None \<Rightarrow> [] | Some d \<Rightarrow> d) (gas_limit_at gas_limits i) h of
        Return r \<Rightarrow> r
      | Continue h \<Rightarrow> batch_loop env mode ctx values calls_data gas_limits (i + 1) addresses h)"

definition inner_batch ::
  "'w batch_env \<Rightarrow> mode \<Rightarrow> evm_context \<Rightarrow> H160 list \<Rightarrow> nat list \<Rightarrow> byte list list \<Rightarrow> nat list \<Rightarrow>
     'w batch_handle \<Rightarrow> 'w batch_result" where
  "inner_batch env mode ctx to values call_data gas_limit h =
     batch_loop env mode ctx values call_data gas_limit 0 to h"

definition batch_some where "batch_some env = inner_batch env BatchSome"
definition batch_some_until_failure where "batch_some_until_failure env = inner_batch env BatchSomeUntilFailure"
definition batch_all where "batch_all env = inner_batch env BatchAll"

section \<open>Lemmas\<close>

text \<open>A call costs at most its price and what was forwarded to it.\<close>

definition gas_law :: "'w batch_env \<Rightarrow> bool" where
  "gas_law env \<longleftrightarrow>
     (\<forall>a tr d l ctx g w reason out g' w'. bt_call env a tr d l ctx (g, w) = (reason, out, g', w') \<longrightarrow>
        g \<le> g' + l + bt_call_cost env (ctx_apparent_value ctx))"

text \<open>
  The reference, without modes: the call that entry \<open>i\<close> of the batch makes in a given state, from the caller,
  with the value, data and gas limit of the entry (none, empty and everything left where the arrays are too short or
  the limit is zero); no call when the gas left does not cover its report, its price and its limit.
\<close>

definition entry_call ::
  "'w batch_env \<Rightarrow> evm_context \<Rightarrow> H160 list \<Rightarrow> nat list \<Rightarrow> byte list list \<Rightarrow> nat list \<Rightarrow> nat \<Rightarrow> 'w batch_handle \<Rightarrow>
     (exit_reason \<times> byte list \<times> nat \<times> 'w) option" where
  "entry_call env ctx to vals call_data gas_limit i h =
     (let v = (if i < length vals then vals ! i else 0); d = (if i < length call_data then call_data ! i else []);
          reserved = bt_log_cost env + bt_call_cost env v; spare = bh_gas h - reserved;
          limit = (if i < length gas_limit \<and> gas_limit ! i \<noteq> 0 then gas_limit ! i else spare) in
      if reserved \<le> bh_gas h \<and> limit \<le> spare
      then Some (bt_call env (to ! i)
             (if v = 0 then None else Some \<lparr>tr_source = ctx_caller ctx, tr_target = to ! i, tr_value = v\<rparr>) d limit
             \<lparr>ctx_address = to ! i, ctx_caller = ctx_caller ctx, ctx_apparent_value = v\<rparr> (bh_gas h, bh_world h))
      else None)"

text \<open>One entry done: whether it succeeded, and the state after its report, which is paid for.\<close>

definition report :: "'w batch_env \<Rightarrow> bool \<Rightarrow> nat \<Rightarrow> nat \<Rightarrow> 'w \<Rightarrow> 'w batch_handle \<Rightarrow> (bool \<times> 'w batch_handle) option" where
  "report env ok i g w h =
     (if bt_log_cost env \<le> g
      then Some (ok, \<lparr>bh_gas = g - bt_log_cost env,
             bh_logs = bh_logs h @ [if ok then SubcallSucceeded i else SubcallFailed i], bh_world = w\<rparr>)
      else None)"

definition entry_done ::
  "'w batch_env \<Rightarrow> (nat \<Rightarrow> 'w batch_handle \<Rightarrow> (exit_reason \<times> byte list \<times> nat \<times> 'w) option) \<Rightarrow> nat \<Rightarrow> 'w batch_handle \<Rightarrow>
     (bool \<times> 'w batch_handle) option" where
  "entry_done env call i h =
     (case call i h of
        None \<Rightarrow> report env False i (bh_gas h) (bh_world h) h
      | Some (reason, out, g, w) \<Rightarrow>
          (case reason of FatalExit _ \<Rightarrow> None | Succeed \<Rightarrow> report env True i g w h | _ \<Rightarrow> report env False i g w h))"

text \<open>The entries from \<open>i\<close> on done one after the other, with the given successes and failures.\<close>

fun entries_done ::
  "'w batch_env \<Rightarrow> (nat \<Rightarrow> 'w batch_handle \<Rightarrow> (exit_reason \<times> byte list \<times> nat \<times> 'w) option) \<Rightarrow> nat \<Rightarrow> 'w batch_handle \<Rightarrow>
     bool list \<Rightarrow> 'w batch_handle option" where
  "entries_done env call i h [] = Some h"
| "entries_done env call i h (ok # oks) =
     (case entry_done env call i h of
        None \<Rightarrow> None
      | Some (b, h1) \<Rightarrow> if b = ok then entries_done env call (i + 1) h1 oks else None)"

text \<open>How a batch that has come to entry \<open>i\<close> ends.\<close>

definition batch_ends ::
  "'w batch_env \<Rightarrow> mode \<Rightarrow> (nat \<Rightarrow> 'w batch_handle \<Rightarrow> (exit_reason \<times> byte list \<times> nat \<times> 'w) option) \<Rightarrow> nat \<Rightarrow> nat \<Rightarrow>
     'w batch_handle \<Rightarrow> 'w batch_result \<Rightarrow> bool" where
  "batch_ends env mode call n i h r \<longleftrightarrow>
     (case r of
        Inr h' \<Rightarrow> (\<exists>oks. entries_done env call i h oks = Some h' \<and> i + length oks \<le> n \<and>
          (case mode of
             BatchAll \<Rightarrow> i + length oks = n \<and> False \<notin> set oks
           | BatchSome \<Rightarrow> i + length oks = n \<or> bh_gas h' < bt_log_cost env
           | BatchSomeUntilFailure \<Rightarrow> False \<notin> set (butlast oks) \<and>
               (i + length oks = n \<or> bh_gas h' < bt_log_cost env \<or> oks \<noteq> [] \<and> \<not> last oks)))
      | Inl e \<Rightarrow> (\<exists>oks h1. entries_done env call i h oks = Some h1 \<and> i + length oks < n \<and>
          (mode = BatchSome \<or> False \<notin> set oks) \<and>
          (case call (i + length oks) h1 of
             None \<Rightarrow> mode = BatchAll \<and> e = EvmError ''OutOfGas''
           | Some (reason, out, _, _) \<Rightarrow>
               (case reason of
                  FatalExit x \<Rightarrow> e = EvmFatal x
                | RevertExit \<Rightarrow> mode = BatchAll \<and> e = EvmRevertOutput out
                | ErrorExit x \<Rightarrow> mode = BatchAll \<and> e = EvmError x
                | Succeed \<Rightarrow> False))))"

lemma entry_call_gas:
  assumes "gas_law env" "entry_call env ctx to vals ds gs i h = Some (reason, out, g, w)"
  shows "bt_log_cost env \<le> g"
proof -
  let ?v = "if i < length vals then vals ! i else 0"
  obtain a tr d l c where r: "bt_call env a tr d l c (bh_gas h, bh_world h) = (reason, out, g, w)"
      "ctx_apparent_value c = ?v" "bt_log_cost env + bt_call_cost env ?v \<le> bh_gas h"
      "l \<le> bh_gas h - (bt_log_cost env + bt_call_cost env ?v)"
    using assms(2) unfolding entry_call_def Let_def by (auto split: if_splits)
  have "bh_gas h \<le> g + l + bt_call_cost env ?v" using assms(1) r(1,2) unfolding gas_law_def by metis
  then show ?thesis using r(3,4) by linarith
qed

text \<open>A turn of the loop, in terms of the reference.\<close>

lemma subcall_entry:
  fixes env ctx to vals ds gs
  defines "call \<equiv> entry_call env ctx to vals ds gs"
  assumes law: "gas_law env"
  shows "subcall env mode ctx i (to ! i) (case at vals i of None \<Rightarrow> 0 | Some v \<Rightarrow> v) (case at ds i of None \<Rightarrow> [] | Some d \<Rightarrow> d)
      (gas_limit_at gs i) h =
    (if bh_gas h < bt_log_cost env then Return (if mode = BatchAll then Inl (EvmError ''OutOfGas'') else Inr h)
     else case entry_done env call i h of
       Some (True, h1) \<Rightarrow> Continue h1
     | Some (False, h1) \<Rightarrow>
         (case mode of BatchSome \<Rightarrow> Continue h1 | BatchSomeUntilFailure \<Rightarrow> Return (Inr h1)
          | BatchAll \<Rightarrow> Return (Inl (case call i h of Some (RevertExit, out, _, _) \<Rightarrow> EvmRevertOutput out
              | Some (ErrorExit x, _, _, _) \<Rightarrow> EvmError x | _ \<Rightarrow> EvmError ''OutOfGas'')))
     | None \<Rightarrow> Return (Inl (case call i h of Some (FatalExit x, _, _, _) \<Rightarrow> EvmFatal x | _ \<Rightarrow> EvmPanic)))"
proof -
  define v where "v = (if i < length vals then vals ! i else 0)"
  define d where "d = (if i < length ds then ds ! i else [])"
  let ?a = "to ! i" and ?gl = "gas_limit_at gs i"
  let ?res = "bt_log_cost env + bt_call_cost env v"
  let ?lim = "case ?gl of None \<Rightarrow> bh_gas h - ?res | Some l \<Rightarrow> l"
  let ?tr = "if v = 0 then None else Some \<lparr>tr_source = ctx_caller ctx, tr_target = ?a, tr_value = v\<rparr>"
  let ?sc = "\<lparr>ctx_address = ?a, ctx_caller = ctx_caller ctx, ctx_apparent_value = v\<rparr>"
  have at: "(case at vals i of None \<Rightarrow> 0 | Some v \<Rightarrow> v) = v" "(case at ds i of None \<Rightarrow> [] | Some d \<Rightarrow> d) = d"
    by (simp_all add: at_def v_def d_def)
  have call: "call i h = (if ?res \<le> bh_gas h \<and> ?lim \<le> bh_gas h - ?res
      then Some (bt_call env ?a ?tr d ?lim ?sc (bh_gas h, bh_world h)) else None)"
    unfolding call_def entry_call_def Let_def by (simp add: gas_limit_at_def at_def v_def d_def)
  show ?thesis
  proof (cases "bh_gas h < bt_log_cost env")
    case True
    then show ?thesis by (simp add: subcall_def checked_sub_def Let_def)
  next
    case log: False
    show ?thesis
    proof (cases "call i h")
      case None
      then have "subcall env mode ctx i ?a v d ?gl h = not_enough_gas env mode i h"
        using log unfolding call by (auto simp: subcall_def checked_sub_def Let_def split: if_splits)
      then show ?thesis
        using None log unfolding at by (cases mode) (simp_all add: not_enough_gas_def record_log_def entry_done_def report_def)
    next
      case (Some r)
      obtain reason out g w where r: "r = (reason, out, g, w)" by (metis prod_cases4)
      have g: "bt_log_cost env \<le> g" using entry_call_gas [OF law] Some unfolding r call_def by blast
      have "bt_call env ?a ?tr d ?lim ?sc (bh_gas h, bh_world h) = (reason, out, g, w)" and
          c: "?res \<le> bh_gas h" "?lim \<le> bh_gas h - ?res"
        using Some unfolding call r by (simp_all split: if_splits)
      moreover have "bt_log_cost env \<le> bh_gas h" "bt_call_cost env v \<le> bh_gas h - bt_log_cost env" using c(1) by linarith+
      ultimately have "subcall env mode ctx i ?a v d ?gl h =
          (case log_reason env reason i (h\<lparr>bh_gas := g, bh_world := w\<rparr>) of
             Inl e \<Rightarrow> Return (Inl e) | Inr h \<Rightarrow> proceed mode reason out h)"
        by (simp add: subcall_def checked_sub_def Let_def)
      then show ?thesis
        using g log Some unfolding at r
        by (cases reason; cases mode) (simp_all add: log_reason_def record_log_def proceed_def entry_done_def report_def)
    qed
  qed
qed

lemma entry_done_cases [consumes 3]:
  assumes "gas_law env" "call = entry_call env ctx to vals ds gs" "\<not> bh_gas h < bt_log_cost env"
  obtains (ok) h1 where "entry_done env call i h = Some (True, h1)"
  | (failed) h1 where "entry_done env call i h = Some (False, h1)" "call i h = None"
  | (reverted) h1 out g w where "entry_done env call i h = Some (False, h1)" "call i h = Some (RevertExit, out, g, w)"
  | (error) h1 x out g w where "entry_done env call i h = Some (False, h1)" "call i h = Some (ErrorExit x, out, g, w)"
  | (fatal) x out g w where "entry_done env call i h = None" "call i h = Some (FatalExit x, out, g, w)"
proof (cases "call i h")
  case None
  with assms(3) failed show ?thesis by (simp add: entry_done_def report_def)
next
  case (Some r)
  obtain reason out g w where r: "r = (reason, out, g, w)" by (metis prod_cases4)
  with entry_call_gas [OF assms(1)] Some have "bt_log_cost env \<le> g" unfolding assms(2) by blast
  with Some r ok reverted error fatal show ?thesis by (cases reason) (simp_all add: entry_done_def report_def)
qed

text \<open>A turn that goes on, and the ways to stop.\<close>

lemma batch_ends_step:
  assumes "entry_done env call i h = Some (ok, h1)" "ok \<or> mode = BatchSome" "batch_ends env mode call n (i + 1) h1 r"
  shows "batch_ends env mode call n i h r"
proof (cases r)
  case (Inr h')
  obtain oks where "entries_done env call (i + 1) h1 oks = Some h'" "i + 1 + length oks \<le> n" and
      m: "case mode of BatchAll \<Rightarrow> i + 1 + length oks = n \<and> False \<notin> set oks
           | BatchSome \<Rightarrow> i + 1 + length oks = n \<or> bh_gas h' < bt_log_cost env
           | BatchSomeUntilFailure \<Rightarrow> False \<notin> set (butlast oks) \<and>
               (i + 1 + length oks = n \<or> bh_gas h' < bt_log_cost env \<or> oks \<noteq> [] \<and> \<not> last oks)"
    using assms(3) unfolding batch_ends_def Inr sum.case by blast
  then show ?thesis
    using assms(1,2) by (cases mode) (auto simp: batch_ends_def Inr intro!: exI [of _ "ok # oks"] split: if_splits)
next
  case (Inl e)
  obtain oks h2 where "entries_done env call (i + 1) h1 oks = Some h2" "i + 1 + length oks < n"
      "mode = BatchSome \<or> False \<notin> set oks"
      "case call (i + 1 + length oks) h2 of
         None \<Rightarrow> mode = BatchAll \<and> e = EvmError ''OutOfGas''
       | Some (reason, out, _, _) \<Rightarrow>
           (case reason of FatalExit x \<Rightarrow> e = EvmFatal x | RevertExit \<Rightarrow> mode = BatchAll \<and> e = EvmRevertOutput out
            | ErrorExit x \<Rightarrow> mode = BatchAll \<and> e = EvmError x | Succeed \<Rightarrow> False)"
    using assms(3) unfolding batch_ends_def Inl sum.case by blast
  then show ?thesis
    using assms(1,2) unfolding batch_ends_def Inl sum.case by (intro exI [of _ "ok # oks"] exI [of _ h2]) auto
qed

lemma batch_ends_stop:
  "bh_gas h < bt_log_cost env \<Longrightarrow> mode \<noteq> BatchAll \<Longrightarrow> i \<le> n \<Longrightarrow> batch_ends env mode call n i h (Inr h)"
  "entry_done env call i h = Some (False, h1) \<Longrightarrow> i < n \<Longrightarrow> batch_ends env BatchSomeUntilFailure call n i h (Inr h1)"
  "call i h = None \<Longrightarrow> i < n \<Longrightarrow> batch_ends env BatchAll call n i h (Inl (EvmError ''OutOfGas''))"
  "call i h = Some (RevertExit, out, g, w) \<Longrightarrow> i < n \<Longrightarrow> batch_ends env BatchAll call n i h (Inl (EvmRevertOutput out))"
  "call i h = Some (ErrorExit x, out, g, w) \<Longrightarrow> i < n \<Longrightarrow> batch_ends env BatchAll call n i h (Inl (EvmError x))"
  "call i h = Some (FatalExit x, out, g, w) \<Longrightarrow> i < n \<Longrightarrow> batch_ends env mode call n i h (Inl (EvmFatal x))"
proof -
  show "entry_done env call i h = Some (False, h1) \<Longrightarrow> i < n \<Longrightarrow> batch_ends env BatchSomeUntilFailure call n i h (Inr h1)"
    by (auto simp: batch_ends_def intro!: exI [of _ "[False]"])
qed (cases mode; auto simp: batch_ends_def intro!: exI [of _ "[]"])+

lemma batch_loop_ends:
  fixes env ctx to vals ds gs
  defines "call \<equiv> entry_call env ctx to vals ds gs"
  assumes law: "gas_law env"
  shows "drop i to = as \<Longrightarrow> i \<le> length to \<Longrightarrow>
    batch_ends env mode call (length to) i h (batch_loop env mode ctx vals ds gs i as h)"
proof (induction as arbitrary: i h)
  case Nil
  then show ?case by (cases mode) (auto simp: batch_ends_def intro!: exI [of _ "[]"])
next
  case (Cons a as)
  have i: "i < length to" using Cons.prems by (cases "i < length to") auto
  then have a: "to ! i = a" "drop (i + 1) to = as" using Cons.prems(1) Cons_nth_drop_Suc [OF i] by simp_all
  have IH: "batch_ends env mode call (length to) (i + 1) h1 (batch_loop env mode ctx vals ds gs (i + 1) as h1)" for h1
    using Cons.IH [OF a(2)] i by simp
  note sub = subcall_entry [OF law, of mode ctx i to vals ds gs h, folded call_def, unfolded a(1)]
  note stop = batch_ends_stop [where i = i and n = "length to" and call = call and h = h and env = env]
  show ?case
  proof (cases "bh_gas h < bt_log_cost env")
    case True
    then have "call i h = None" by (simp add: call_def entry_call_def Let_def)
    then show ?thesis
      using sub True stop(1) [OF True _ less_imp_le [OF i], of mode] stop(3) [OF _ i] by simp
  next
    case False
    from law call_def [THEN meta_eq_to_obj_eq] False show ?thesis
    proof (cases rule: entry_done_cases [where i = i])
      case (ok h1)
      then show ?thesis using sub False batch_ends_step [OF ok _ IH] by simp
    next
      case (failed h1)
      then show ?thesis
        using sub False i stop(2) [OF failed(1)] stop(3) [OF failed(2)] batch_ends_step [OF failed(1) _ IH] by (cases mode) simp_all
    next
      case (reverted h1 out g w)
      then show ?thesis
        using sub False i stop(2) [OF reverted(1)] stop(4) [OF reverted(2)] batch_ends_step [OF reverted(1) _ IH] by (cases mode) simp_all
    next
      case (error h1 x out g w)
      then show ?thesis
        using sub False i stop(2) [OF error(1)] stop(5) [OF error(2)] batch_ends_step [OF error(1) _ IH] by (cases mode) simp_all
    next
      case (fatal x out g w)
      then show ?thesis using sub False i stop(6) [OF fatal(2)] by simp
    qed
  qed
qed

section \<open>Properties\<close>

text \<open>
  C34. What a batch does. The entries are worked off in order, each being the call of \<^term>\<open>entry_call\<close> on the state that
  the one before left, and each is reported as succeeded or failed, an entry whose call the gas does not cover as failed. A strict batch
  (\<open>BatchAll\<close>) that returns has made all calls and all succeeded; \<open>BatchSome\<close> goes on after failures and stops
  early only when the gas does not pay for another report; \<open>BatchSomeUntilFailure\<close> stops in that case or after the first failure.
  An error is that of the first entry not worked off: its call ended fatally (in any mode), or the mode is strict and the
  call reverted, failed, or could not be made for lack of gas. In particular paying for a report never fails. (With an EVM
  that charges for a call at most its price and the gas forwarded to it.)
\<close>

theorem batch_modes:
  assumes "gas_law env"
  shows "let call = entry_call env ctx to vals call_data gas_limit in
    case inner_batch env mode ctx to vals call_data gas_limit h of
      Inr h' \<Rightarrow> (\<exists>oks. entries_done env call 0 h oks = Some h' \<and> length oks \<le> length to \<and>
        (case mode of
           BatchAll \<Rightarrow> length oks = length to \<and> False \<notin> set oks
         | BatchSome \<Rightarrow> length oks = length to \<or> bh_gas h' < bt_log_cost env
         | BatchSomeUntilFailure \<Rightarrow> False \<notin> set (butlast oks) \<and>
             (length oks = length to \<or> bh_gas h' < bt_log_cost env \<or> oks \<noteq> [] \<and> \<not> last oks)))
    | Inl e \<Rightarrow> (\<exists>oks h1. entries_done env call 0 h oks = Some h1 \<and> length oks < length to \<and>
        (mode = BatchSome \<or> False \<notin> set oks) \<and>
        (case call (length oks) h1 of
           None \<Rightarrow> mode = BatchAll \<and> e = EvmError ''OutOfGas''
         | Some (reason, out, _, _) \<Rightarrow>
             (case reason of
                FatalExit x \<Rightarrow> e = EvmFatal x
              | RevertExit \<Rightarrow> mode = BatchAll \<and> e = EvmRevertOutput out
              | ErrorExit x \<Rightarrow> mode = BatchAll \<and> e = EvmError x
              | Succeed \<Rightarrow> False)))"
  using batch_loop_ends [OF assms drop_0 le0, of mode ctx to vals call_data gas_limit h]
  unfolding batch_ends_def inner_batch_def Let_def add_0 .

text \<open>An EVM where the calls to address 9 revert and every call uses 10 units of gas.\<close>

definition sample_batch_env :: "nat batch_env" where
  "sample_batch_env = \<lparr>bt_log_cost = 5, bt_call_cost = (\<lambda>v. 10),
     bt_call = (\<lambda>a tr d l ctx (g, w). if a = 9 then (RevertExit, [], g - 10, w) else (Succeed, [], g - 10, w + 1))\<rparr>"

definition sample_batch_handle :: "nat batch_handle" where
  "sample_batch_handle = \<lparr>bh_gas = 1000, bh_logs = [], bh_world = 0\<rparr>"

theorem batch_modes_witness:
  "\<exists>oks h'. inner_batch sample_batch_env BatchSomeUntilFailure \<lparr>ctx_address = 1, ctx_caller = 2, ctx_apparent_value = 0\<rparr>
      [3, 9, 4] [] [] [] sample_batch_handle = Inr h' \<and> bh_logs h' = [SubcallSucceeded 0, SubcallFailed 1] \<and>
    entries_done sample_batch_env
      (entry_call sample_batch_env \<lparr>ctx_address = 1, ctx_caller = 2, ctx_apparent_value = 0\<rparr> [3, 9, 4] [] [] []) 0
      sample_batch_handle oks = Some h' \<and>
    False \<notin> set (butlast oks) \<and> (length oks = 3 \<or> bh_gas h' < 5 \<or> oks \<noteq> [] \<and> \<not> last oks)"
proof -
  let ?ctx = "\<lparr>ctx_address = 1, ctx_caller = 2, ctx_apparent_value = 0\<rparr>"
  have law: "gas_law sample_batch_env"
    by (auto simp: gas_law_def sample_batch_env_def split: if_splits)
  have r: "inner_batch sample_batch_env BatchSomeUntilFailure ?ctx [3, 9, 4] [] [] [] sample_batch_handle =
      Inr \<lparr>bh_gas = 970, bh_logs = [SubcallSucceeded 0, SubcallFailed 1], bh_world = 1\<rparr>"
    by (simp add: inner_batch_def subcall_def checked_sub_def at_def gas_limit_at_def
        log_reason_def record_log_def proceed_def sample_batch_env_def sample_batch_handle_def)
  have n: "length [3, 9, 4 :: H160] = 3" "bt_log_cost sample_batch_env = 5" by (simp_all add: sample_batch_env_def)
  show ?thesis
    using batch_modes [OF law, where ctx = ?ctx and to = "[3, 9, 4]" and vals = "[]" and call_data = "[]" and gas_limit = "[]"
        and mode = BatchSomeUntilFailure and h = sample_batch_handle]
    unfolding r Let_def sum.case mode.case n by auto
qed

end
