(* ===== verification/Bridge_System.thy ===== *)
theory Bridge_System
  imports Bridge_Types
begin

text \<open>
  The governance of the bridge: \<open>pallets/system\<close> (agents, channels, prices, the registry of tokens)
  and \<open>pallets/system-v2\<close>, which writes the same registry and sends over the new outbound queue, with
  \<open>core/src/pricing.rs\<close>, \<open>core/src/lib.rs\<close> and the native token id of the runtime. XCM locations and
  their conversions, the two outbound queues, hashes and the balances pallet are parameters: the
  record \<open>sys_config\<close>. The first queue of the runtimes drops what it is given; it is the instance
  \<open>do_nothing_validate\<close> and \<open>do_nothing_deliver\<close>.

  The lemmas show that the registry is a bijection that only grows, and that every channel has its
  agent.
\<close>

section \<open>Prices and channels\<close>

record pricing_parameters =
  exchange_rate :: nat
  rewards_local :: nat
  rewards_remote :: nat
  fee_per_gas :: nat
  pp_multiplier :: nat

definition pricing_validate :: "pricing_parameters \<Rightarrow> bool" where
  "pricing_validate p \<longleftrightarrow>
     \<not> exchange_rate p = 0 \<and> \<not> fee_per_gas p = 0 \<and> \<not> rewards_local p = 0 \<and> \<not> rewards_remote p = 0 \<and>
     \<not> pp_multiplier p = 0"

definition meth :: "nat \<Rightarrow> nat" where
  "meth x = min (1000000000000000 * x) (2 ^ 256 - 1)"

record channel =
  ch_agent_id :: H256
  ch_para_id :: u32

definition PRIMARY_GOVERNANCE_CHANNEL :: H256 where "PRIMARY_GOVERNANCE_CHANNEL = 1"
definition SECONDARY_GOVERNANCE_CHANNEL :: H256 where "SECONDARY_GOVERNANCE_CHANNEL = 2"

definition derive_channel_id_for_sibling :: "(byte list \<Rightarrow> H256) \<Rightarrow> u32 \<Rightarrow> H256" where
  "derive_channel_id_for_sibling keccak_256 para_id =
     keccak_256 ([0x70, 0x61, 0x72, 0x61] @ map (\<lambda>i. ucast (drop_bit (8 * (3 - i)) para_id)) [0..<4])"

section \<open>Messages of the first queue\<close>

datatype agent_execute_command = V1TransferToken H160 H160 nat

datatype v1_command =
    V1AgentExecute H256 agent_execute_command
  | V1Upgrade H160 H256 "initializer option"
  | V1SetOperatingMode operating_mode
  | V1SetTokenTransferFees nat nat nat
  | V1SetPricingParameters nat nat nat
  | V1UnlockNativeToken H256 H160 H160 nat
  | V1RegisterForeignToken H256 "byte list" "byte list" byte
  | V1MintForeignToken H256 H160 nat

record v1_message =
  v1_id :: "H256 option"
  v1_channel_id :: H256
  v1_command :: v1_command

record asset_metadata =
  am_name :: "byte list"
  am_symbol :: "byte list"
  am_decimals :: byte

datatype pays_fee = PaysFeeYes AccountId | PaysFeePartial AccountId | PaysFeeNo

section \<open>State\<close>

datatype 'l sys_event =
    EvUpgrade H160 H256 "H256 option"
  | EvSetOperatingMode operating_mode
  | EvSetTokenTransferFees nat nat nat
  | EvPricingParametersChanged pricing_parameters
  | EvRegisterToken 'l H256
  | EvUpgradeV2 H160 H256 H256
  | EvSetOperatingModeV2 operating_mode
  | EvRegisterTokenV2 'l H256

datatype sys_error =
    SysBadOrigin
  | LocationConversionFailed
  | LocationReanchorFailed
  | UnsupportedLocationVersion
  | SysSend send_error
  | InvalidTokenTransferFees
  | InvalidPricingParameters
  | InvalidUpgradeParameters
  | SysTransferFailed

record ('v, 'l, 'w) sys_config =
  AgentIdOf :: "'l \<Rightarrow> H256 option"
  TokenIdOf :: "'l \<Rightarrow> H256 option"
  reanchored :: "'l \<Rightarrow> 'l option"
  to_latest :: "'v \<Rightarrow> 'l option"
  here_location :: 'l
  para_location :: "u32 \<Rightarrow> 'l"
  v1_validate :: "v1_message \<Rightarrow> send_error + (nat \<times> nat)"
  v1_deliver :: "v1_message \<Rightarrow> 'w \<Rightarrow> (send_error + H256) \<times> 'w"
  v2_validate :: "outbound_msg \<Rightarrow> send_error + outbound_msg"
  v2_deliver :: "outbound_msg \<Rightarrow> 'w \<Rightarrow> (send_error + H256) \<times> 'w"
  sys_transfer :: "AccountId \<Rightarrow> AccountId \<Rightarrow> nat \<Rightarrow> 'w \<Rightarrow> 'w option"
  sys_treasury :: AccountId
  InboundDeliveryCost :: nat
  GovernanceOrigin :: "origin \<Rightarrow> 'l option"
  FrontendOrigin :: "origin \<Rightarrow> 'l option"
  sys_keccak_256 :: "byte list \<Rightarrow> H256"
  blake2_256 :: "byte list \<Rightarrow> H256"
  message_encode :: "outbound_msg \<Rightarrow> byte list"

record ('l, 'w) sys_state =
  Agents :: "H256 \<Rightarrow> bool"
  Channels :: "H256 \<Rightarrow> channel option"
  PricingParameters :: pricing_parameters
  ForeignToNativeId :: "H256 \<Rightarrow> 'l option"
  NativeToForeignId :: "'l \<Rightarrow> H256 option"
  sys_events :: "'l sys_event list"
  sys_world :: 'w

type_synonym ('l, 'w) sys_result = "sys_error + ('l, 'w) sys_state"

definition sys_deposit :: "'l sys_event \<Rightarrow> ('l, 'w) sys_state \<Rightarrow> ('l, 'w) sys_state" where
  "sys_deposit e s = s\<lparr>sys_events := sys_events s @ [e]\<rparr>"

section \<open>The first pallet\<close>

definition v1_send ::
  "('v, 'l, 'w) sys_config \<Rightarrow> H256 \<Rightarrow> v1_command \<Rightarrow> pays_fee \<Rightarrow> ('l, 'w) sys_state \<Rightarrow> ('l, 'w) sys_result" where
  "v1_send cfg channel_id cmd pays s =
     (let message = \<lparr>v1_id = None, v1_channel_id = channel_id, v1_command = cmd\<rparr> in
      case v1_validate cfg message of
        Inl e \<Rightarrow> Inl (SysSend e)
      | Inr (local, remote) \<Rightarrow>
          (let payment = (case pays of
               PaysFeeYes account \<Rightarrow> Some (account, sat_add128 local remote)
             | PaysFeePartial account \<Rightarrow> Some (account, local)
             | PaysFeeNo \<Rightarrow> None);
               paid = (case payment of
                 Some (payer, fee) \<Rightarrow> sys_transfer cfg payer (sys_treasury cfg) fee (sys_world s)
               | None \<Rightarrow> Some (sys_world s)) in
           case paid of
             None \<Rightarrow> Inl SysTransferFailed
           | Some w \<Rightarrow>
               (case v1_deliver cfg message w of
                  (Inl e, _) \<Rightarrow> Inl (SysSend e)
                | (Inr _, w) \<Rightarrow> Inr (s\<lparr>sys_world := w\<rparr>))))"

definition sys_initialize ::
  "('v, 'l, 'w) sys_config \<Rightarrow> u32 \<Rightarrow> u32 \<Rightarrow> ('l, 'w) sys_state \<Rightarrow> ('l, 'w) sys_result" where
  "sys_initialize cfg para_id asset_hub_para_id s =
     (case AgentIdOf cfg (para_location cfg asset_hub_para_id) of
        None \<Rightarrow> Inl LocationConversionFailed
      | Some asset_hub_agent_id \<Rightarrow>
          (let asset_hub_channel_id = derive_channel_id_for_sibling (sys_keccak_256 cfg) asset_hub_para_id;
               s = s\<lparr>Agents := (Agents s)(asset_hub_agent_id := True),
                     Channels := (Channels s)(asset_hub_channel_id \<mapsto>
                       \<lparr>ch_agent_id = asset_hub_agent_id, ch_para_id = asset_hub_para_id\<rparr>)\<rparr> in
           case AgentIdOf cfg (here_location cfg) of
             None \<Rightarrow> Inl LocationConversionFailed
           | Some bridge_hub_agent_id \<Rightarrow>
               (let ch = \<lparr>ch_agent_id = bridge_hub_agent_id, ch_para_id = para_id\<rparr> in
                Inr (s\<lparr>Agents := (Agents s)(bridge_hub_agent_id := True),
                       Channels := ((Channels s)(PRIMARY_GOVERNANCE_CHANNEL \<mapsto> ch))
                                     (SECONDARY_GOVERNANCE_CHANNEL \<mapsto> ch)\<rparr>))))"

definition is_initialized :: "('l, 'w) sys_state \<Rightarrow> bool" where
  "is_initialized s \<longleftrightarrow>
     Channels s PRIMARY_GOVERNANCE_CHANNEL \<noteq> None \<and> Channels s SECONDARY_GOVERNANCE_CHANNEL \<noteq> None"

definition sys_upgrade ::
  "('v, 'l, 'w) sys_config \<Rightarrow> origin \<Rightarrow> H160 \<Rightarrow> H256 \<Rightarrow> initializer option \<Rightarrow> ('l, 'w) sys_state \<Rightarrow> ('l, 'w) sys_result" where
  "sys_upgrade cfg og impl_address impl_code_hash initializer s =
     (if \<not> ensure_root og then Inl SysBadOrigin
      else if \<not> (impl_address \<noteq> 0 \<and> impl_code_hash \<noteq> 0) then Inl InvalidUpgradeParameters
      else case v1_send cfg PRIMARY_GOVERNANCE_CHANNEL (V1Upgrade impl_address impl_code_hash initializer) PaysFeeNo s of
        Inl e \<Rightarrow> Inl e
      | Inr s \<Rightarrow> Inr (sys_deposit (EvUpgrade impl_address impl_code_hash
                   (map_option (\<lambda>i. blake2_256 cfg (init_params i)) initializer)) s))"

definition sys_set_operating_mode ::
  "('v, 'l, 'w) sys_config \<Rightarrow> origin \<Rightarrow> operating_mode \<Rightarrow> ('l, 'w) sys_state \<Rightarrow> ('l, 'w) sys_result" where
  "sys_set_operating_mode cfg og mode s =
     (if \<not> ensure_root og then Inl SysBadOrigin
      else case v1_send cfg PRIMARY_GOVERNANCE_CHANNEL (V1SetOperatingMode mode) PaysFeeNo s of
        Inl e \<Rightarrow> Inl e
      | Inr s \<Rightarrow> Inr (sys_deposit (EvSetOperatingMode mode) s))"

definition set_pricing_parameters ::
  "('v, 'l, 'w) sys_config \<Rightarrow> origin \<Rightarrow> pricing_parameters \<Rightarrow> ('l, 'w) sys_state \<Rightarrow> ('l, 'w) sys_result" where
  "set_pricing_parameters cfg og params s =
     (if \<not> ensure_root og then Inl SysBadOrigin
      else if \<not> pricing_validate params then Inl InvalidPricingParameters
      else case v1_send cfg PRIMARY_GOVERNANCE_CHANNEL
             (V1SetPricingParameters (exchange_rate params) (min (InboundDeliveryCost cfg) u128_max) (pp_multiplier params))
             PaysFeeNo (s\<lparr>PricingParameters := params\<rparr>) of
        Inl e \<Rightarrow> Inl e
      | Inr s \<Rightarrow> Inr (sys_deposit (EvPricingParametersChanged params) s))"

definition set_token_transfer_fees ::
  "('v, 'l, 'w) sys_config \<Rightarrow> origin \<Rightarrow> nat \<Rightarrow> nat \<Rightarrow> nat \<Rightarrow> ('l, 'w) sys_state \<Rightarrow> ('l, 'w) sys_result" where
  "set_token_transfer_fees cfg og create_asset_xcm transfer_asset_xcm register_token s =
     (if \<not> ensure_root og then Inl SysBadOrigin
      else if \<not> (create_asset_xcm > 0 \<and> transfer_asset_xcm > 0 \<and> register_token > meth 100)
      then Inl InvalidTokenTransferFees
      else case v1_send cfg PRIMARY_GOVERNANCE_CHANNEL
             (V1SetTokenTransferFees create_asset_xcm transfer_asset_xcm register_token) PaysFeeNo s of
        Inl e \<Rightarrow> Inl e
      | Inr s \<Rightarrow> Inr (sys_deposit (EvSetTokenTransferFees create_asset_xcm transfer_asset_xcm register_token) s))"

definition register_ids :: "'l \<Rightarrow> H256 \<Rightarrow> ('l, 'w) sys_state \<Rightarrow> ('l, 'w) sys_state" where
  "register_ids location token_id s =
     (if ForeignToNativeId s token_id = None
      then s\<lparr>NativeToForeignId := (NativeToForeignId s)(location \<mapsto> token_id),
             ForeignToNativeId := (ForeignToNativeId s)(token_id \<mapsto> location)\<rparr>
      else s)"

definition do_register_token ::
  "('v, 'l, 'w) sys_config \<Rightarrow> 'l \<Rightarrow> asset_metadata \<Rightarrow> pays_fee \<Rightarrow> ('l, 'w) sys_state \<Rightarrow> ('l, 'w) sys_result" where
  "do_register_token cfg location metadata pays s =
     (case reanchored cfg location of
        None \<Rightarrow> Inl LocationConversionFailed
      | Some location \<Rightarrow>
          (case TokenIdOf cfg location of
             None \<Rightarrow> Inl LocationConversionFailed
           | Some token_id \<Rightarrow>
               (case v1_send cfg SECONDARY_GOVERNANCE_CHANNEL
                       (V1RegisterForeignToken token_id (am_name metadata) (am_symbol metadata) (am_decimals metadata))
                       pays (register_ids location token_id s) of
                  Inl e \<Rightarrow> Inl e
                | Inr s \<Rightarrow> Inr (sys_deposit (EvRegisterToken location token_id) s))))"

definition sys_register_token ::
  "('v, 'l, 'w) sys_config \<Rightarrow> origin \<Rightarrow> 'v \<Rightarrow> asset_metadata \<Rightarrow> ('l, 'w) sys_state \<Rightarrow> ('l, 'w) sys_result" where
  "sys_register_token cfg og location metadata s =
     (if \<not> ensure_root og then Inl SysBadOrigin
      else case to_latest cfg location of
        None \<Rightarrow> Inl UnsupportedLocationVersion
      | Some location \<Rightarrow> do_register_token cfg location metadata PaysFeeNo s)"

section \<open>The second pallet\<close>

definition reanchor :: "('v, 'l, 'w) sys_config \<Rightarrow> 'l \<Rightarrow> sys_error + 'l" where
  "reanchor cfg location =
     (case reanchored cfg location of None \<Rightarrow> Inl LocationReanchorFailed | Some l \<Rightarrow> Inr l)"

definition location_to_message_origin :: "('v, 'l, 'w) sys_config \<Rightarrow> 'l \<Rightarrow> sys_error + H256" where
  "location_to_message_origin cfg location =
     (case reanchor cfg location of
        Inl e \<Rightarrow> Inl e
      | Inr l \<Rightarrow> (case AgentIdOf cfg l of None \<Rightarrow> Inl LocationConversionFailed | Some h \<Rightarrow> Inr h))"

definition v2_send ::
  "('v, 'l, 'w) sys_config \<Rightarrow> H256 \<Rightarrow> command \<Rightarrow> nat \<Rightarrow> ('l, 'w) sys_state \<Rightarrow> ('l, 'w) sys_result" where
  "v2_send cfg message_origin cmd fee s =
     (let message = \<lparr>om_origin = message_origin, om_id = 0, om_fee = fee, om_commands = [cmd]\<rparr>;
          message = message\<lparr>om_id := blake2_256 cfg (message_encode cfg message)\<rparr> in
      case v2_validate cfg message of
        Inl e \<Rightarrow> Inl (SysSend e)
      | Inr ticket \<Rightarrow>
          (case v2_deliver cfg ticket (sys_world s) of
             (Inl e, _) \<Rightarrow> Inl (SysSend e)
           | (Inr _, w) \<Rightarrow> Inr (s\<lparr>sys_world := w\<rparr>)))"

definition v2_upgrade ::
  "('v, 'l, 'w) sys_config \<Rightarrow> origin \<Rightarrow> H160 \<Rightarrow> H256 \<Rightarrow> initializer \<Rightarrow> ('l, 'w) sys_state \<Rightarrow> ('l, 'w) sys_result" where
  "v2_upgrade cfg og impl_address impl_code_hash initializer s =
     (case GovernanceOrigin cfg og of
        None \<Rightarrow> Inl SysBadOrigin
      | Some origin_location \<Rightarrow>
          (case location_to_message_origin cfg origin_location of
             Inl e \<Rightarrow> Inl e
           | Inr message_origin \<Rightarrow>
               if \<not> (impl_address \<noteq> 0 \<and> impl_code_hash \<noteq> 0) then Inl InvalidUpgradeParameters
               else case v2_send cfg message_origin (Upgrade impl_address impl_code_hash initializer) 0 s of
                 Inl e \<Rightarrow> Inl e
               | Inr s \<Rightarrow> Inr (sys_deposit (EvUpgradeV2 impl_address impl_code_hash
                            (blake2_256 cfg (init_params initializer))) s)))"

definition v2_set_operating_mode ::
  "('v, 'l, 'w) sys_config \<Rightarrow> origin \<Rightarrow> operating_mode \<Rightarrow> ('l, 'w) sys_state \<Rightarrow> ('l, 'w) sys_result" where
  "v2_set_operating_mode cfg og mode s =
     (case GovernanceOrigin cfg og of
        None \<Rightarrow> Inl SysBadOrigin
      | Some origin_location \<Rightarrow>
          (case location_to_message_origin cfg origin_location of
             Inl e \<Rightarrow> Inl e
           | Inr message_origin \<Rightarrow>
               (case v2_send cfg message_origin (SetOperatingMode mode) 0 s of
                  Inl e \<Rightarrow> Inl e
                | Inr s \<Rightarrow> Inr (sys_deposit (EvSetOperatingModeV2 mode) s))))"

definition v2_register_token ::
  "('v, 'l, 'w) sys_config \<Rightarrow> origin \<Rightarrow> 'v \<Rightarrow> 'v \<Rightarrow> asset_metadata \<Rightarrow> ('l, 'w) sys_state \<Rightarrow> ('l, 'w) sys_result" where
  "v2_register_token cfg og sender asset_id metadata s =
     (case FrontendOrigin cfg og of
        None \<Rightarrow> Inl SysBadOrigin
      | Some _ \<Rightarrow>
      (case to_latest cfg sender of
         None \<Rightarrow> Inl UnsupportedLocationVersion
       | Some sender_location \<Rightarrow>
      (case to_latest cfg asset_id of
         None \<Rightarrow> Inl UnsupportedLocationVersion
       | Some asset_location \<Rightarrow>
      (case reanchor cfg asset_location of
         Inl e \<Rightarrow> Inl e
       | Inr location \<Rightarrow>
      (case TokenIdOf cfg location of
         None \<Rightarrow> Inl LocationConversionFailed
       | Some token_id \<Rightarrow>
           (let s = register_ids location token_id s;
                cmd = RegisterForeignToken token_id (am_name metadata) (am_symbol metadata) (am_decimals metadata) in
            case location_to_message_origin cfg sender_location of
              Inl e \<Rightarrow> Inl e
            | Inr message_origin \<Rightarrow>
                (case v2_send cfg message_origin cmd 0 s of
                   Inl e \<Rightarrow> Inl e
                 | Inr s \<Rightarrow> Inr (sys_deposit (EvRegisterTokenV2 location token_id) s))))))))"

definition sys_convert :: "H256 \<Rightarrow> ('l, 'w) sys_state \<Rightarrow> 'l option" where
  "sys_convert foreign_id s = ForeignToNativeId s foreign_id"

definition sys_convert_back :: "'l \<Rightarrow> ('l, 'w) sys_state \<Rightarrow> H256 option" where
  "sys_convert_back location s = NativeToForeignId s location"

section \<open>The runtime\<close>

text \<open>The id of the native token, and the queue that does nothing.\<close>

definition datahaven_token_id :: "('v, 'l, 'w) sys_config \<Rightarrow> ('l, 'w) sys_state \<Rightarrow> H256 option" where
  "datahaven_token_id cfg s =
     (case reanchor cfg (here_location cfg) of Inl _ \<Rightarrow> None | Inr l \<Rightarrow> sys_convert_back l s)"

definition do_nothing_validate :: "v1_message \<Rightarrow> send_error + (nat \<times> nat)" where
  "do_nothing_validate message = Inr (0, 0)"

definition do_nothing_deliver :: "v1_message \<Rightarrow> 'w \<Rightarrow> (send_error + H256) \<times> 'w" where
  "do_nothing_deliver message w = (Inr 0, w)"

section \<open>The transition system\<close>

inductive sys_step :: "('v, 'l, 'w) sys_config \<Rightarrow> ('l, 'w) sys_state \<Rightarrow> ('l, 'w) sys_state \<Rightarrow> bool" for cfg where
  upgrade: "sys_upgrade cfg og a h i s = Inr s' \<Longrightarrow> sys_step cfg s s'"
| mode: "sys_set_operating_mode cfg og m s = Inr s' \<Longrightarrow> sys_step cfg s s'"
| pricing: "set_pricing_parameters cfg og p s = Inr s' \<Longrightarrow> sys_step cfg s s'"
| fees: "set_token_transfer_fees cfg og x y z s = Inr s' \<Longrightarrow> sys_step cfg s s'"
| token: "sys_register_token cfg og l md s = Inr s' \<Longrightarrow> sys_step cfg s s'"
| upgrade_v2: "v2_upgrade cfg og a h i2 s = Inr s' \<Longrightarrow> sys_step cfg s s'"
| mode_v2: "v2_set_operating_mode cfg og m s = Inr s' \<Longrightarrow> sys_step cfg s s'"
| token_v2: "v2_register_token cfg og sl l md s = Inr s' \<Longrightarrow> sys_step cfg s s'"
| outside: "sys_step cfg s (s\<lparr>sys_world := w\<rparr>)"

definition sys_genesis :: "pricing_parameters \<Rightarrow> 'w \<Rightarrow> ('l, 'w) sys_state" where
  "sys_genesis p w =
     \<lparr>Agents = (\<lambda>_. False), Channels = Map.empty, PricingParameters = p, ForeignToNativeId = Map.empty,
      NativeToForeignId = Map.empty, sys_events = [], sys_world = w\<rparr>"

section \<open>Lemmas\<close>

text \<open>
  The registry maps a location to its own token id and back, channels have registered agents, and
  both governance channels exist.
\<close>

definition sys_inv :: "('v, 'l, 'w) sys_config \<Rightarrow> ('l, 'w) sys_state \<Rightarrow> bool" where
  "sys_inv cfg s \<longleftrightarrow>
     (\<forall>t l. ForeignToNativeId s t = Some l \<longleftrightarrow> NativeToForeignId s l = Some t) \<and>
     (\<forall>l t. NativeToForeignId s l = Some t \<longrightarrow> TokenIdOf cfg l = Some t) \<and>
     (\<forall>c ch. Channels s c = Some ch \<longrightarrow> Agents s (ch_agent_id ch)) \<and> is_initialized s"

text \<open>What one call may do to the registry: nothing, or the registration of one location.\<close>

definition registers :: "('v, 'l, 'w) sys_config \<Rightarrow> ('l, 'w) sys_state \<Rightarrow> ('l, 'w) sys_state \<Rightarrow> bool" where
  "registers cfg s s' \<longleftrightarrow>
     Agents s' = Agents s \<and> Channels s' = Channels s \<and>
     (ForeignToNativeId s' = ForeignToNativeId s \<and> NativeToForeignId s' = NativeToForeignId s \<or>
      (\<exists>l t. TokenIdOf cfg l = Some t \<and> ForeignToNativeId s t = None \<and>
         NativeToForeignId s' = (NativeToForeignId s)(l \<mapsto> t) \<and> ForeignToNativeId s' = (ForeignToNativeId s)(t \<mapsto> l)))"

lemma v1_send_frame:
  "v1_send cfg c cmd pays s = Inr s' \<Longrightarrow> \<exists>w. s' = s\<lparr>sys_world := w\<rparr>"
  by (auto simp: v1_send_def Let_def split: sum.splits prod.splits option.splits)

lemma v2_send_frame:
  "v2_send cfg h cmd fee s = Inr s' \<Longrightarrow> \<exists>w. s' = s\<lparr>sys_world := w\<rparr>"
  by (auto simp: v2_send_def Let_def split: sum.splits prod.splits)

lemma register_ids_registers:
  "TokenIdOf cfg l = Some t \<Longrightarrow> registers cfg s (register_ids l t s)"
  by (auto simp: register_ids_def registers_def)

lemma registers_world: "registers cfg s s' \<Longrightarrow> registers cfg s (s'\<lparr>sys_world := w, sys_events := es\<rparr>)"
  by (simp add: registers_def)

lemma sys_step_registers: "sys_step cfg s s' \<Longrightarrow> registers cfg s s'"
proof (induction rule: sys_step.induct)
  case (token og l md s s')
  then show ?case
    by (auto simp: sys_register_token_def do_register_token_def sys_deposit_def split: if_splits option.splits sum.splits
        dest!: v1_send_frame intro!: registers_world register_ids_registers)
next
  case (token_v2 og sl l md s s')
  then show ?case
    by (auto simp: v2_register_token_def sys_deposit_def Let_def split: option.splits sum.splits
        dest!: v2_send_frame intro!: registers_world register_ids_registers)
qed (auto simp: sys_upgrade_def sys_set_operating_mode_def set_pricing_parameters_def set_token_transfer_fees_def
    v2_upgrade_def v2_set_operating_mode_def sys_deposit_def registers_def
    split: if_splits option.splits sum.splits dest!: v1_send_frame v2_send_frame)

lemma registers_inv:
  assumes "registers cfg s s'" "sys_inv cfg s"
  shows "sys_inv cfg s'"
proof -
  have a: "Agents s' = Agents s" "Channels s' = Channels s" using assms(1) by (simp_all add: registers_def)
  consider "ForeignToNativeId s' = ForeignToNativeId s" "NativeToForeignId s' = NativeToForeignId s"
    | l t where "TokenIdOf cfg l = Some t" "ForeignToNativeId s t = None"
       "NativeToForeignId s' = (NativeToForeignId s)(l \<mapsto> t)" "ForeignToNativeId s' = (ForeignToNativeId s)(t \<mapsto> l)"
    using assms(1) unfolding registers_def by blast
  then show ?thesis
  proof cases
    case 1
    then show ?thesis using assms(2) a by (simp add: sys_inv_def is_initialized_def)
  next
    case (2 l t)
    have "NativeToForeignId s l = None"
      using assms(2) 2(1,2) unfolding sys_inv_def by (metis not_None_eq option.inject option.simps(3))
    moreover have "NativeToForeignId s l' \<noteq> Some t" for l'
      using assms(2) 2(2) unfolding sys_inv_def by (metis option.simps(3))
    ultimately show ?thesis
      using assms(2) a 2 by (auto simp: sys_inv_def is_initialized_def)
  qed
qed

lemma sys_steps_inv: "(sys_step cfg)\<^sup>*\<^sup>* s s' \<Longrightarrow> sys_inv cfg s \<Longrightarrow> sys_inv cfg s'"
  by (induction rule: rtranclp_induct) (auto dest: sys_step_registers registers_inv)

lemma sys_initialize_inv:
  "sys_initialize cfg para_id hub_id (sys_genesis p w) = Inr s \<Longrightarrow> sys_inv cfg s"
  by (auto simp: sys_initialize_def sys_genesis_def sys_inv_def is_initialized_def Let_def
      PRIMARY_GOVERNANCE_CHANNEL_def SECONDARY_GOVERNANCE_CHANNEL_def split: option.splits if_splits)

lemma registers_mono:
  assumes "registers cfg s s'" "sys_inv cfg s" "NativeToForeignId s l = Some t"
  shows "NativeToForeignId s' l = Some t"
  using assms unfolding registers_def sys_inv_def
  by (metis fun_upd_apply option.inject option.simps(3))

lemma sys_steps_mono:
  "(sys_step cfg)\<^sup>*\<^sup>* s s' \<Longrightarrow> sys_inv cfg s \<Longrightarrow> NativeToForeignId s l = Some t \<Longrightarrow> NativeToForeignId s' l = Some t"
proof (induction rule: rtranclp_induct)
  case (step s' s'')
  then show ?case using registers_mono sys_step_registers sys_steps_inv by metis
qed

definition token_ids_distinct :: "('v, 'l, 'w) sys_config \<Rightarrow> bool" where
  "token_ids_distinct cfg \<longleftrightarrow> (\<forall>l l' t. TokenIdOf cfg l = Some t \<longrightarrow> TokenIdOf cfg l' = Some t \<longrightarrow> l = l')"

text \<open>A registration of the chain's own location.\<close>

lemma v2_register_here:
  assumes "v2_register_token cfg og sl al md s = Inr s1" "to_latest cfg al = Some (here_location cfg)" "sys_inv cfg s"
    and "token_ids_distinct cfg"
  obtains l t where "reanchored cfg (here_location cfg) = Some l" "TokenIdOf cfg l = Some t" "NativeToForeignId s1 l = Some t"
proof -
  obtain l t w where l: "reanchored cfg (here_location cfg) = Some l" "TokenIdOf cfg l = Some t"
      "s1 = sys_deposit (EvRegisterTokenV2 l t) ((register_ids l t s)\<lparr>sys_world := w\<rparr>)"
    using assms(1,2) by (auto simp: v2_register_token_def reanchor_def Let_def split: option.splits sum.splits dest!: v2_send_frame)
  have "NativeToForeignId (register_ids l t s) l = Some t"
  proof (cases "ForeignToNativeId s t")
    case (Some l')
    then have "NativeToForeignId s l' = Some t" "TokenIdOf cfg l' = Some t"
      using assms(3) unfolding sys_inv_def by blast+
    moreover from this(2) have "l = l'" using l(2) assms(4) unfolding token_ids_distinct_def by blast
    ultimately show ?thesis using Some by (simp add: register_ids_def)
  qed (simp add: register_ids_def)
  then show ?thesis using that [OF l(1,2)] l(3) by (simp add: sys_deposit_def)
qed

section \<open>Properties\<close>

text \<open>
  C35. Both pallets keep the registry of tokens consistent: in every state reached from an
  initialized genesis by their calls, the two lookup tables are inverse to each other and map a
  location to its own token id; every channel belongs to a registered agent, and the two
  governance channels exist.
\<close>

theorem token_registry_consistent:
  assumes "sys_initialize cfg para_id hub_id (sys_genesis p w) = Inr s0" "(sys_step cfg)\<^sup>*\<^sup>* s0 s"
  shows "(sys_convert t s = Some l \<longleftrightarrow> sys_convert_back l s = Some t) \<and>
    (sys_convert_back l s = Some t \<longrightarrow> TokenIdOf cfg l = Some t) \<and>
    (\<forall>c ch. Channels s c = Some ch \<longrightarrow> Agents s (ch_agent_id ch)) \<and> is_initialized s"
  using sys_steps_inv [OF assms(2) sys_initialize_inv [OF assms(1)]]
  unfolding sys_inv_def sys_convert_def sys_convert_back_def by blast

text \<open>A chain whose locations are numbers, with a token id each, and a queue that keeps its messages.\<close>

definition sample_sys :: "(nat, nat, outbound_msg list) sys_config" where
  "sample_sys =
     \<lparr>AgentIdOf = (\<lambda>l. Some (word_of_nat l)), TokenIdOf = (\<lambda>l. if l < 2 ^ 256 then Some (word_of_nat l) else None),
      reanchored = (\<lambda>l. Some (l + 1)), to_latest = Some, here_location = 0, para_location = (\<lambda>p. 100 + unat p),
      v1_validate = do_nothing_validate, v1_deliver = do_nothing_deliver,
      v2_validate = Inr, v2_deliver = (\<lambda>m w. (Inr 0, w @ [m])), sys_transfer = (\<lambda>a b n w. Some w), sys_treasury = 9,
      InboundDeliveryCost = 0, GovernanceOrigin = (\<lambda>og. if ensure_root og then Some 0 else None),
      FrontendOrigin = (\<lambda>og. if ensure_root og then Some 0 else None),
      sys_keccak_256 = (\<lambda>bs. 77), blake2_256 = (\<lambda>bs. 5), message_encode = (\<lambda>m. [])\<rparr>"

definition sample_prices :: pricing_parameters where
  "sample_prices = \<lparr>exchange_rate = 1, rewards_local = 1, rewards_remote = 1, fee_per_gas = 1, pp_multiplier = 1\<rparr>"

definition sample_metadata :: asset_metadata where
  "sample_metadata = \<lparr>am_name = [72], am_symbol = [72], am_decimals = 18\<rparr>"

definition sample_sys0 :: "(nat, outbound_msg list) sys_state" where
  "sample_sys0 = projr (sys_initialize sample_sys 1 2 (sys_genesis sample_prices []))"

definition sample_sys1 :: "(nat, outbound_msg list) sys_state" where
  "sample_sys1 = projr (v2_register_token sample_sys RootOrigin 0 0 sample_metadata sample_sys0)"

lemma sample_sys_calls:
  "sys_initialize sample_sys 1 2 (sys_genesis sample_prices []) = Inr sample_sys0"
  "v2_register_token sample_sys RootOrigin 0 0 sample_metadata sample_sys0 = Inr sample_sys1"
  by (simp_all add: sample_sys0_def sample_sys1_def sys_initialize_def v2_register_token_def reanchor_def
      location_to_message_origin_def v2_send_def sample_sys_def ensure_root_def Let_def)

lemma sample_sys_ids: "token_ids_distinct sample_sys"
  by (auto simp: token_ids_distinct_def sample_sys_def word_of_nat_eq_iff take_bit_nat_eq_self split: if_splits)

theorem token_registry_consistent_witness:
  "(sys_convert 1 sample_sys1 = Some 1) = (sys_convert_back 1 sample_sys1 = Some 1) \<and> is_initialized sample_sys1"
proof -
  have "(sys_step sample_sys)\<^sup>*\<^sup>* sample_sys0 sample_sys1"
    by (rule r_into_rtranclp) (rule sys_step.token_v2 [OF sample_sys_calls(2)])
  from token_registry_consistent [OF sample_sys_calls(1) this, of 1 1] show ?thesis by simp
qed

text \<open>
  The native token gets its id once and for all: after its registration succeeded, the id that
  native transfers use is the token id of the chain's location as Ethereum sees it, in every
  later state. (With token ids that do not collide.)
\<close>

theorem native_token_id_permanent:
  assumes "sys_initialize cfg para_id hub_id (sys_genesis p w) = Inr s0" "(sys_step cfg)\<^sup>*\<^sup>* s0 s"
    and "v2_register_token cfg og sl al md s = Inr s1" "to_latest cfg al = Some (here_location cfg)"
    and "token_ids_distinct cfg"
    and "(sys_step cfg)\<^sup>*\<^sup>* s1 s2"
  shows "\<exists>l t. reanchored cfg (here_location cfg) = Some l \<and> TokenIdOf cfg l = Some t \<and> datahaven_token_id cfg s2 = Some t"
proof -
  have inv: "sys_inv cfg s" by (rule sys_steps_inv [OF assms(2) sys_initialize_inv [OF assms(1)]])
  have inv1: "sys_inv cfg s1"
    using registers_inv [OF sys_step_registers [OF sys_step.token_v2 [OF assms(3)]] inv] .
  obtain l t where "reanchored cfg (here_location cfg) = Some l" "TokenIdOf cfg l = Some t" "NativeToForeignId s1 l = Some t"
    using v2_register_here [OF assms(3,4) inv assms(5)] by blast
  moreover from this(3) have "NativeToForeignId s2 l = Some t" by (rule sys_steps_mono [OF assms(6) inv1])
  ultimately show ?thesis by (simp add: datahaven_token_id_def reanchor_def sys_convert_back_def)
qed

theorem native_token_id_permanent_witness: "datahaven_token_id sample_sys sample_sys1 = Some 1"
proof -
  have "to_latest sample_sys 0 = Some (here_location sample_sys)" by (simp add: sample_sys_def)
  from native_token_id_permanent [OF sample_sys_calls(1) rtranclp.rtrancl_refl sample_sys_calls(2) this sample_sys_ids
      rtranclp.rtrancl_refl]
  show ?thesis by (auto simp: sample_sys_def)
qed

text \<open>
  With the first queue of the runtimes, a registration by the first pallet enters the registry
  that native transfers look at and announces a message to Ethereum, and sends none.
\<close>

theorem v1_registration_sends_nothing:
  assumes "v1_validate cfg = do_nothing_validate" "v1_deliver cfg = do_nothing_deliver"
    and "sys_register_token cfg og vl md s = Inr s'"
  shows "sys_world s' = sys_world s \<and> (\<exists>l t. sys_events s' = sys_events s @ [EvRegisterToken l t] \<and> ForeignToNativeId s' t \<noteq> None)"
  using assms
  by (auto simp: sys_register_token_def do_register_token_def v1_send_def do_nothing_validate_def do_nothing_deliver_def
      sys_deposit_def register_ids_def Let_def split: if_splits option.splits)

end
