(* ===== verification/Set_Submitter.thy ===== *)
theory Set_Submitter
  imports External_Validators
begin

text \<open>
  The validator-set submitter (\<open>test/tools/validator-set-submitter\<close>), the service that decides on every finalized
  session change whether to ask the service manager on Ethereum to send the next validator set. The
  chain's storage that it reads is the external-validators pallet's; the Ethereum client it writes with is a parameter. Metrics
  and logs are left out. The theory puts the submitter next to the era machine: what it submits is
  acceptable when it is submitted, each era is submitted at most once, and yet the set never runs in its target era,
  since the last session of an era begins with the next era already planned.
\<close>

section \<open>Reading the chain\<close>

definition getActiveEra :: "ev_state \<Rightarrow> active_era_info option" where
  "getActiveEra s = ActiveEra s"

definition getExternalIndex :: "ev_state \<Rightarrow> nat" where
  "getExternalIndex s = ExternalIndex s"

definition computeTargetEra :: "nat \<Rightarrow> nat" where
  "computeTargetEra activeEraIndex = activeEraIndex + 1"

text \<open>The numbers are JavaScript's, far below their limit; the subtraction is on the right side of a comparison
  with a natural number, so it may be cut off at zero.\<close>

definition isLastSessionOfEra :: "ev_config \<Rightarrow> SessionIndex \<Rightarrow> ev_state \<Rightarrow> bool" where
  "isLastSessionOfEra cfg currentSession s =
     (case ActiveEra s of
        None \<Rightarrow> False
      | Some activeEra \<Rightarrow>
          (case ErasStartSessionIndex s (ae_index activeEra) of
             None \<Rightarrow> False
           | Some eraStartSession \<Rightarrow> eraStartSession + SessionsPerEra cfg - 1 \<le> currentSession))"

section \<open>Submitting\<close>

record submitter_config =
  executionFee :: nat
  relayerFee :: nat
  dryRun :: bool

text \<open>A mined receipt that succeeded carries its logs, each with the event name the Gateway's ABI decodes, if it does.\<close>

datatype tx_receipt = Reverted | Succeeded "string option list"

text \<open>
  The Ethereum client: reading the built message (the flag says whether the call returns or throws), and sending
  \<open>sendNewValidatorSetForEra\<close> with its era, two fees and value, and waiting for the receipt (nothing when
  either throws, on an error, the timeout or an abort).
\<close>

record 'c eth_client =
  readContract :: "nat \<Rightarrow> 'c \<Rightarrow> bool"
  writeContract :: "nat \<Rightarrow> nat \<Rightarrow> nat \<Rightarrow> nat \<Rightarrow> 'c \<Rightarrow> tx_receipt option \<times> 'c"

definition submitForEra :: "'c eth_client \<Rightarrow> submitter_config \<Rightarrow> nat \<Rightarrow> 'c \<Rightarrow> bool option \<times> 'c" where
  "submitForEra cl config targetEra w =
     (let totalFee = executionFee config + relayerFee config in
      if dryRun config then (if readContract cl targetEra w then Some True else None, w)
      else case writeContract cl targetEra (executionFee config) (relayerFee config) totalFee w of
        (None, w) \<Rightarrow> (Some False, w)
      | (Some Reverted, w) \<Rightarrow> (Some False, w)
      | (Some (Succeeded logs), w) \<Rightarrow>
          (Some (list_ex (\<lambda>l. l = Some ''OutboundMessageAccepted'') logs), w))"

text \<open>The outcomes that the tick counter tells apart; an exception leaves the tick.\<close>

datatype tick_result =
    skipped_no_active_era
  | skipped_already_submitted
  | skipped_already_confirmed
  | skipped_not_last_session
  | submitted_success nat
  | submitted_failed nat
  | tick_error

text \<open>One tick, at a session and the storage then, with \<open>submittedEra\<close> as the state it closes over.\<close>

definition tick ::
  "'c eth_client \<Rightarrow> submitter_config \<Rightarrow> ev_config \<Rightarrow> SessionIndex \<Rightarrow> ev_state \<Rightarrow> nat option \<times> 'c \<Rightarrow>
     tick_result \<times> nat option \<times> 'c" where
  "tick cl config cfg currentSession s sub =
     (case sub of (submittedEra, w) \<Rightarrow>
      case getActiveEra s of
        None \<Rightarrow> (skipped_no_active_era, submittedEra, w)
      | Some activeEra \<Rightarrow>
          (let targetEra = computeTargetEra (ae_index activeEra) in
           if submittedEra = Some targetEra then (skipped_already_submitted, submittedEra, w)
           else if targetEra \<le> getExternalIndex s then (skipped_already_confirmed, Some targetEra, w)
           else if \<not> isLastSessionOfEra cfg currentSession s then (skipped_not_last_session, submittedEra, w)
           else case submitForEra cl config targetEra w of
             (None, w) \<Rightarrow> (tick_error, submittedEra, w)
           | (Some True, w) \<Rightarrow> (submitted_success targetEra, Some targetEra, w)
           | (Some False, w) \<Rightarrow> (submitted_failed targetEra, submittedEra, w)))"

text \<open>The subscription: one tick for each session change it is told of; a failing tick is logged and the next one runs.\<close>

fun startSubmitter ::
  "'c eth_client \<Rightarrow> submitter_config \<Rightarrow> ev_config \<Rightarrow> (SessionIndex \<times> ev_state) list \<Rightarrow> nat option \<times> 'c \<Rightarrow>
     tick_result list \<times> nat option \<times> 'c" where
  "startSubmitter cl config cfg [] sub = ([], sub)"
| "startSubmitter cl config cfg ((i, s) # seen) sub =
     (case tick cl config cfg i s sub of (r, sub) \<Rightarrow>
      case startSubmitter cl config cfg seen sub of (rs, sub) \<Rightarrow> (r # rs, sub))"

fun submitted_eras :: "tick_result list \<Rightarrow> nat list" where
  "submitted_eras [] = []"
| "submitted_eras (submitted_success n # rs) = n # submitted_eras rs"
| "submitted_eras (_ # rs) = submitted_eras rs"

section \<open>What a tick submits\<close>

lemma tick_attempt:
  assumes "tick cl config cfg i s (e, w) = (r, e', w')" "r = submitted_success n \<or> r = submitted_failed n"
  shows "\<exists>ae x. ActiveEra s = Some ae \<and> n = ae_index ae + 1 \<and> ExternalIndex s < n \<and> e \<noteq> Some n \<and>
    ErasStartSessionIndex s (ae_index ae) = Some x \<and> x + SessionsPerEra cfg \<le> i + 1"
  using assms
  by (auto simp: tick_def getActiveEra_def computeTargetEra_def getExternalIndex_def isLastSessionOfEra_def Let_def
      split: option.splits if_splits prod.splits bool.splits)

lemma tick_marks:
  assumes "tick cl config cfg i s (e, w) = (r, e', w')"
  shows "e' = e \<and> (\<forall>n. r \<noteq> submitted_success n) \<or>
    (\<exists>ae. ActiveEra s = Some ae \<and> e' = Some (ae_index ae + 1) \<and> (\<forall>n. r = submitted_success n \<longrightarrow> n = ae_index ae + 1 \<and> e \<noteq> Some n))"
  using assms
  by (auto simp: tick_def getActiveEra_def computeTargetEra_def Let_def
      split: option.splits if_splits prod.splits bool.splits)

definition active_index :: "ev_state \<Rightarrow> nat" where
  "active_index s = (case ActiveEra s of Some ae \<Rightarrow> ae_index ae | None \<Rightarrow> 0)"

text \<open>While the active era never goes back, what is submitted from now on lies above what was.\<close>

lemma submitted_above:
  assumes "startSubmitter cl config cfg seen (e, w) = (rs, sub')"
    and "sorted (map (\<lambda>(i, s). active_index s) seen)"
    and "\<And>n i s. e = Some n \<Longrightarrow> (i, s) \<in> set seen \<Longrightarrow> n \<le> active_index s + 1"
  shows "sorted_wrt (<) (submitted_eras rs) \<and> (\<forall>m \<in> set (submitted_eras rs). (\<forall>n. e = Some n \<longrightarrow> n < m) \<and>
    (\<exists>(i, s) \<in> set seen. m = active_index s + 1 \<and> validate_target_era m s = Inr ()))"
  using assms
proof (induction seen arbitrary: e w rs)
  case Nil
  then show ?case by simp
next
  case (Cons o1 seen)
  obtain i s where o1: "o1 = (i, s)" by fastforce
  obtain r e1 w1 where t: "tick cl config cfg i s (e, w) = (r, e1, w1)" by (metis prod.exhaust)
  obtain rs1 where st: "startSubmitter cl config cfg seen (e1, w1) = (rs1, sub')" and rs: "rs = r # rs1"
    using Cons.prems(1) by (auto simp: o1 t split: prod.splits)
  have later: "active_index s \<le> active_index s'" if "(j, s') \<in> set seen" for j s'
    using Cons.prems(2) that by (force simp: o1)
  have e1: "e1 = e \<or> e1 = Some (active_index s + 1)"
    using tick_marks [OF t] by (auto simp: active_index_def)
  have below: "n \<le> active_index s' + 1" if "e1 = Some n" "(j, s') \<in> set seen" for n j s'
    using e1 that later [OF that(2)] Cons.prems(3) [of n j s'] by auto
  have IH: "sorted_wrt (<) (submitted_eras rs1) \<and> (\<forall>m \<in> set (submitted_eras rs1). (\<forall>n. e1 = Some n \<longrightarrow> n < m) \<and>
      (\<exists>(i, s) \<in> set seen. m = active_index s + 1 \<and> validate_target_era m s = Inr ()))"
    by (rule Cons.IH [OF st]) (use Cons.prems(2) below in auto)
  have up: "\<forall>n. e = Some n \<longrightarrow> n < m" if "m \<in> set (submitted_eras rs1)" for m
    using IH that e1 Cons.prems(3) [of _ i s] by (fastforce simp: o1)
  show ?case
  proof (cases "\<exists>m. r = submitted_success m")
    case True
    then obtain m where r: "r = submitted_success m" by blast
    from tick_attempt [OF t, of m] r have m: "m = active_index s + 1" "e \<noteq> Some m" "validate_target_era m s = Inr ()"
      by (auto simp: active_index_def validate_target_era_def)
    have "e1 = Some m" using tick_marks [OF t] r by (auto simp: m(1) active_index_def)
    moreover have "\<forall>n. e = Some n \<longrightarrow> n < m" using Cons.prems(3) [of _ i s] m(1,2) by (fastforce simp: o1)
    ultimately show ?thesis using IH up m by (auto simp: rs r o1)
  next
    case False
    then have "submitted_eras rs = submitted_eras rs1" by (cases r) (auto simp: rs)
    then show ?thesis using IH up by (auto simp: o1)
  qed
qed

section \<open>Rotations seen from outside\<close>

text \<open>
  A rotation with no era planned keeps the active era and the index it runs; and after any rotation without
  \<open>ForceNone\<close>, an era in its last session has its successor planned.
\<close>

lemma new_session_frame:
  assumes "CurrentEra s = Some c" "c + 1 < u32_max"
  shows "ActiveEra (snd (new_session cfg j s)) = ActiveEra s"
    and "CurrentExternalIndex (snd (new_session cfg j s)) = CurrentExternalIndex s"
  using new_session_eq [of "c + 1" s cfg j] assms by simp_all

lemma rotate_unplanned:
  assumes inv: "era_inv cfg i s" and "i + 3 < u32_max" and act: "ActiveEra s = Some ae"
    and cur: "CurrentEra s = Some (ae_index ae)"
  shows "ActiveEra (fst (rotate_session cfg hs he i (s, w))) = Some ae"
    and "CurrentExternalIndex (fst (rotate_session cfg hs he i (s, w))) = CurrentExternalIndex s"
proof -
  let ?a = "ae_index ae + 1"
  have a: "ae_index ae \<le> i" and ok: "start_sessions_ok (HistoryDepth cfg) (ae_index ae) (ErasStartSessionIndex s)"
    using inv act cur unfolding era_inv_def by auto
  then have none: "ErasStartSessionIndex s ?a = None" using start_sessions_okD(1) [OF ok, of ?a] by auto
  have st: "start_session hs (i + 1) (s, w1) = (s, w1)" for w1
    using start_session_eq [of ?a s hs "i + 1" w1] none act a assms(2) by simp
  obtain w1 where e: "end_session he i (s, w) = (s, w1)"
    using fst_end_session [of he i "(s, w)"] by (metis fst_conv prod.collapse)
  have "fst (rotate_session cfg hs he i (s, w)) = snd (new_session cfg (i + 2) s)"
    using st [of w1] by (simp add: rotate_session_def e Let_def)
  then show "ActiveEra (fst (rotate_session cfg hs he i (s, w))) = Some ae"
    "CurrentExternalIndex (fst (rotate_session cfg hs he i (s, w))) = CurrentExternalIndex s"
    using new_session_frame [OF cur] a assms(2) act by simp_all
qed

lemma rotate_last_session_planned:
  assumes inv: "era_inv cfg i s" and "i + 3 < u32_max" and "ForceEra s \<noteq> ForceNone"
    and s1: "s1 = fst (rotate_session cfg hs he i (s, w))" and act: "ActiveEra s1 = Some ae"
    and x: "ErasStartSessionIndex s1 (ae_index ae) = Some x" "x + SessionsPerEra cfg \<le> i + 2"
  shows "CurrentEra s1 = Some (ae_index ae + 1)"
proof -
  obtain w1 where e: "end_session he i (s, w) = (s, w1)"
    using fst_end_session [of he i "(s, w)"] by (metis fst_conv prod.collapse)
  obtain s' w' where st: "start_session hs (i + 1) (s, w1) = (s', w')" "era_inv cfg (i + 1) s'"
      "CurrentEra s' = Some (ae_index (the (ActiveEra s')))" "ForceEra s' = ForceEra s"
    using era_inv_start_session [OF inv assms(2), of hs w1] by blast
  have s1': "s1 = snd (new_session cfg (i + 2) s')" using st(1) by (simp add: s1 rotate_session_def e Let_def)
  obtain ae' where ae': "ActiveEra s' = Some ae'" "ae_index ae' \<le> i + 1"
    using st(2) unfolding era_inv_def by auto
  then have c: "CurrentEra s' = Some (ae_index ae')" "ae_index ae' + 1 < u32_max" using st(3) assms(2) by auto
  have same: "ae = ae'" using new_session_frame(1) [OF c, of cfg "i + 2"] act ae' s1' by simp
  have eq: "new_session cfg (i + 2) s' =
    (if era_due cfg (i + 2) s'
     then (Some (validators s'),
           if CurrentEra s' \<noteq> None \<and> ForceEra s' = ForceNew
           then set_force_era NotForcing (plan_era cfg (ae_index ae' + 1) (i + 2) s')
           else plan_era cfg (ae_index ae' + 1) (i + 2) s')
     else (None, s'))"
    by (rule new_session_eq) (use c in simp_all)
  have "era_due cfg (i + 2) s'"
  proof (rule ccontr)
    assume no: "\<not> era_due cfg (i + 2) s'"
    then have "s1 = s'" using eq s1' by simp
    with no show False
      using x c(1) st(4) assms(3) same by (cases "ForceEra s") (auto simp: era_due_def)
  qed
  then show ?thesis using eq s1' same by simp
qed

section \<open>A missed era\<close>

text \<open>
  Era \<open>n\<close> is bound to run an older set: it is planned with an older index, or it runs one, or it is over.
\<close>

definition era_misses :: "nat \<Rightarrow> ev_state \<Rightarrow> bool" where
  "era_misses n s \<longleftrightarrow> (\<exists>ae. ActiveEra s = Some ae \<and>
     (n = ae_index ae + 1 \<and> CurrentEra s = Some n \<and> PendingExternalIndex s < n \<or>
      ae_index ae = n \<and> CurrentExternalIndex s < n \<or> n < ae_index ae))"

lemma era_misses_rotate:
  assumes inv: "era_inv cfg i s" and "i + 3 < u32_max" and miss: "era_misses n s"
  shows "era_misses n (fst (rotate_session cfg hs he i (s, w)))"
proof -
  obtain ae c where ae: "ActiveEra s = Some ae" "CurrentEra s = Some c" "c = ae_index ae \<or> c = ae_index ae + 1"
    using inv unfolding era_inv_def by auto
  show ?thesis
  proof (cases "c = ae_index ae")
    case True
    then have "CurrentEra s = Some (ae_index ae)" using ae by simp
    from rotate_unplanned [OF inv assms(2) ae(1) this, of hs he w] miss True ae show ?thesis
      by (auto simp: era_misses_def)
  next
    case False
    then have "CurrentEra s = Some (ae_index ae + 1)" using ae by simp
    from rotate_enacts(1,2) [OF inv assms(2) ae(1) this, of hs he w] miss ae show ?thesis
      by (auto simp: era_misses_def)
  qed
qed

lemma era_misses_step:
  assumes "ev_step cfg hs he x y" "era_inv cfg (fst x) (fst (snd x))" "era_misses n (fst (snd x))"
  shows "era_misses n (fst (snd y))"
  using assms(1)
proof (cases rule: ev_step.cases)
  case (rotate i sw)
  then show ?thesis using era_misses_rotate [of cfg i "fst sw" n hs he "snd sw"] assms(2,3) by simp
next
  case (call c s s' i w)
  then show ?thesis using assms(3) ev_dispatch_frame [of cfg c s s'] by (simp add: era_misses_def)
next
  case (finalize i s w now)
  then show ?thesis using assms(3)
    by (auto simp: era_misses_def ev_on_finalize_def split: option.splits)
qed

lemma era_misses_run:
  assumes "(ev_step cfg hs he)\<^sup>*\<^sup>* x y" "era_inv cfg (fst x) (fst (snd x))" "era_misses n (fst (snd x))"
  shows "era_misses n (fst (snd y))"
proof -
  have "era_inv cfg (fst y) (fst (snd y)) \<and> era_misses n (fst (snd y))"
    using assms
  proof (induction rule: rtranclp_induct)
    case (step y z)
    then show ?case using era_misses_step [OF step.hyps(2)] era_inv_step [OF step.hyps(2)] by simp
  qed simp
  then show ?thesis by simp
qed

section \<open>Properties\<close>

text \<open>
  The submitter keeps to the protocol it implements. Over the session changes it is told of, in
  which the active era never goes back, the eras it successfully submits are strictly increasing, so
  none is submitted twice, and each is one that the pallet's check of the target era accepts in the storage it
  was decided on.
\<close>

theorem submits_each_era_once:
  assumes "startSubmitter cl config cfg seen (None, w) = (rs, sub')"
    and "sorted (map (\<lambda>(i, s). active_index s) seen)"
  shows "sorted_wrt (<) (submitted_eras rs) \<and>
    (\<forall>m \<in> set (submitted_eras rs). \<exists>(i, s) \<in> set seen. m = active_index s + 1 \<and> validate_target_era m s = Inr ())"
  using submitted_above [OF assms] by fastforce

definition sample_client :: "nat list eth_client" where
  "sample_client = \<lparr>readContract = (\<lambda>_ _. True),
     writeContract = (\<lambda>n _ _ _ w. (Some (Succeeded [None, Some ''OutboundMessageAccepted'']), w @ [n]))\<rparr>"

definition sample_submitter :: submitter_config where
  "sample_submitter = \<lparr>executionFee = 1, relayerFee = 2, dryRun = False\<rparr>"

text \<open>Two sessions in an era: the second one is where the submitter acts.\<close>

abbreviation second_session :: ev_state where
  "second_session \<equiv> fst (rotate_session (sample_cfg 2) no_start_hook no_end_hook 0 (sample_state 2, ()))"

lemma second_session_fields:
  "ActiveEra second_session = Some \<lparr>ae_index = 0, ae_start = None\<rparr>" "ExternalIndex second_session = 0"
  "ErasStartSessionIndex second_session 0 = Some 0" "CurrentEra second_session = Some 1"
  by (simp_all add: rotate_session_def end_session_def start_session_def new_session_def try_trigger_new_era_def
      trigger_new_era_def clear_era_information_def sample_eval)

lemma sample_tick:
  "tick sample_client sample_submitter (sample_cfg 2) 1 second_session (None, []) = (submitted_success 1, Some 1, [1])"
  using second_session_fields
  by (simp add: tick_def getActiveEra_def computeTargetEra_def getExternalIndex_def isLastSessionOfEra_def
      submitForEra_def sample_client_def sample_submitter_def mainnet_ev_config_def)

theorem submits_each_era_once_witness:
  "\<exists>sub'. startSubmitter sample_client sample_submitter (sample_cfg 2) [(1, second_session), (1, second_session)] (None, []) =
     ([submitted_success 1, skipped_already_submitted], sub') \<and> validate_target_era 1 second_session = Inr ()"
proof -
  have t: "tick sample_client sample_submitter (sample_cfg 2) 1 second_session (Some 1, [1]) = (skipped_already_submitted, Some 1, [1])"
    using second_session_fields by (simp add: tick_def getActiveEra_def computeTargetEra_def)
  have run: "startSubmitter sample_client sample_submitter (sample_cfg 2) [(1, second_session), (1, second_session)] (None, []) =
     ([submitted_success 1, skipped_already_submitted], Some 1, [1])"
    by (simp only: startSubmitter.simps sample_tick t prod.case)
  from submits_each_era_once [OF this] show ?thesis using run by simp
qed

text \<open>
  C29. What the submitter sends never runs in the era it is sent for. Take a rotation from a reachable
  state in which governance has not switched new eras off. If the tick for the session that begins there submits the
  set for era \<open>n\<close>, then in every state of the chain after it in which \<open>n\<close> is the active era, the set that runs
  has an older index, whatever is delivered and when: the submitter waits for the last session of the active era, and by
  then era \<open>n\<close> has been planned with the validators and the index of before.
\<close>

theorem submitted_set_misses_era:
  assumes "ev_reachable cfg hs he (i, s, w)" "1 \<le> HistoryDepth cfg" "i + 3 < u32_max" "ForceEra s \<noteq> ForceNone"
    and t: "tick cl config cfg (i + 1) (fst (rotate_session cfg hs he i (s, w))) (e, v) = (submitted_success n, sub')"
    and run: "(ev_step cfg hs he)\<^sup>*\<^sup>* (i + 1, rotate_session cfg hs he i (s, w)) y"
    and act: "ActiveEra (fst (snd y)) = Some ae" "ae_index ae = n"
  shows "CurrentExternalIndex (fst (snd y)) < n"
proof -
  let ?s1 = "fst (rotate_session cfg hs he i (s, w))"
  have inv: "era_inv cfg i s" using era_inv_reachable [OF assms(1,2)] by simp
  have inv1: "era_inv cfg (i + 1) ?s1" by (rule era_inv_rotate [OF inv assms(3)])
  obtain e' v' where sub': "sub' = (e', v')" by (metis prod.exhaust)
  obtain a x where a: "ActiveEra ?s1 = Some a" "n = ae_index a + 1" "ExternalIndex ?s1 < n"
      "ErasStartSessionIndex ?s1 (ae_index a) = Some x" "x + SessionsPerEra cfg \<le> i + 2"
    using tick_attempt [OF t [unfolded sub'], of n] by auto
  have "CurrentEra ?s1 = Some n"
    using rotate_last_session_planned [OF inv assms(3,4) refl a(1,4,5)] a(2) by simp
  moreover have "PendingExternalIndex ?s1 < n"
    using inv1 a(3) unfolding era_inv_def external_index_ok_def by auto
  ultimately have "era_misses n ?s1" using a(1,2) by (auto simp: era_misses_def)
  from era_misses_run [OF run, of n] this inv1 have "era_misses n (fst (snd y))" by simp
  then show ?thesis using act by (auto simp: era_misses_def)
qed

theorem submitted_set_misses_era_witness:
  "tick sample_client sample_submitter (sample_cfg 2) 1 second_session (None, []) = (submitted_success 1, Some 1, [1]) \<and>
   (\<exists>s1. ev_dispatch (sample_cfg 2) (BridgeSetExternal [5] 1) second_session = Inr s1 \<and>
     ActiveEra (fst (rotate_session (sample_cfg 2) no_start_hook no_end_hook 1 (s1, ()))) = Some \<lparr>ae_index = 1, ae_start = None\<rparr> \<and>
     CurrentExternalIndex (fst (rotate_session (sample_cfg 2) no_start_hook no_end_hook 1 (s1, ()))) < 1)"
proof -
  let ?c = "sample_cfg 2"
  have un: "rotate_session ?c no_start_hook no_end_hook 0 (sample_state 2, ()) = (second_session, ())"
    by (rule prod_eqI) simp_all
  obtain s1 where s1: "ev_dispatch ?c (BridgeSetExternal [5] 1) second_session = Inr s1"
    using second_session_fields(1,2) by (auto simp: set_external_validators_inner_def validate_target_era_def Let_def)
  let ?y = "(2 :: SessionIndex, rotate_session ?c no_start_hook no_end_hook 1 (s1, ()))"
  have "ev_step ?c no_start_hook no_end_hook (1, second_session, ()) (1, s1, ())" by (rule ev_step.call [OF s1])
  then have "ev_step ?c no_start_hook no_end_hook
      (0 + 1, rotate_session ?c no_start_hook no_end_hook 0 (sample_state 2, ())) (1, s1, ())"
    by (simp only: un [symmetric] add_0)
  moreover have "ev_step ?c no_start_hook no_end_hook (1, s1, ()) (1 + 1, rotate_session ?c no_start_hook no_end_hook 1 (s1, ()))"
    by (rule ev_step.rotate) (simp add: u32_max_def)
  then have "ev_step ?c no_start_hook no_end_hook (1, s1, ()) ?y" by (simp only: one_add_one)
  ultimately have run: "(ev_step ?c no_start_hook no_end_hook)\<^sup>*\<^sup>*
      (0 + 1, rotate_session ?c no_start_hook no_end_hook 0 (sample_state 2, ())) ?y"
    by (rule converse_rtranclp_into_rtranclp [OF _ r_into_rtranclp])
  have cfg: "1 \<le> HistoryDepth ?c" "0 + 3 < u32_max" "ForceEra (sample_state 2) \<noteq> ForceNone"
    by (simp_all add: mainnet_ev_config_def u32_max_def sample_eval)
  have act: "ActiveEra (fst (snd ?y)) = Some \<lparr>ae_index = 1, ae_start = None\<rparr>"
  proof -
    have "era_inv ?c 0 (sample_state 2)" using era_inv_reachable [OF sample_reachable cfg(1)] by simp
    then have "era_inv ?c 1 second_session" using era_inv_rotate [of ?c 0 "sample_state 2"] cfg(2) by simp
    then have "era_inv ?c 1 s1" by (rule era_inv_call [OF s1])
    from rotate_enacts(1) [OF this, of "\<lparr>ae_index = 0, ae_start = None\<rparr>" no_start_hook no_end_hook "()"] show ?thesis
      using ev_dispatch_frame(1,2) [OF s1] second_session_fields by (simp add: u32_max_def)
  qed
  have "CurrentExternalIndex (fst (snd ?y)) < 1"
    by (rule submitted_set_misses_era [OF sample_reachable cfg _ run act]) (use sample_tick in simp_all)
  then show ?thesis using s1 sample_tick act by simp
qed

end
