(* ===== verification/Submission_Path.thy ===== *)
theory Submission_Path
  imports Submission_Adapters Service_Manager
begin

text \<open>
  The two submissions from end to end: what the runtime's adapters build
  (\<open>runtime/common/src/rewards_adapter.rs\<close>, \<open>slashes_adapter.rs\<close>) and what the contract
  (\<open>contracts/src/DataHavenServiceManager.sol\<close>) does when the agent of the bridge makes the call that the
  message carries. The Gateway between them is third-party: it makes the call as the contract's
  initiator. So is the ABI codec: the call data decodes to what was encoded.
\<close>

section \<open>The call data\<close>

text \<open>The structs of the \<open>sol!\<close> bindings as the contract's own.\<close>

definition received_rewards :: "rewards_submission \<Rightarrow> operator_rewards_submission" where
  "received_rewards sub =
     \<lparr>ors_strategies = map (\<lambda>(s, mult). (s, unat mult)) (rs_strategies sub), ors_token = rs_token sub,
      ors_operatorRewards = map (\<lambda>(op, amount). (op, unat amount)) (rs_operator_rewards sub),
      ors_startTimestamp = rs_start_timestamp sub, ors_duration = rs_duration sub,
      ors_description = rs_description sub\<rparr>"

definition received_slash :: "slashing_request \<Rightarrow> slashing_call" where
  "received_slash r =
     \<lparr>slc_operator = sr_operator r, slc_strategies = sr_strategies r, slc_wadsToSlash = map unat (sr_wads_to_slash r),
      slc_description = map (\<lambda>c. word_of_nat (of_char c)) (sr_description r)\<rparr>"

text \<open>The agent's call of the service manager with the data of a message: the call data is decoded and the function run.\<close>

definition agent_msg :: "sm_state \<Rightarrow> msg" where
  "agent_msg s = \<lparr>msg_sender = snowbridgeInitiator s, msg_value = 0\<rparr>"

fun deliver_rewards ::
  "'w sm_env \<Rightarrow> (byte list \<Rightarrow> rewards_submission option) \<Rightarrow> command list \<Rightarrow> sm_state \<times> 'w \<Rightarrow> 'w sm_result option" where
  "deliver_rewards env decode [CallContract target data gas val] (s, w) =
     (case decode data of
        None \<Rightarrow> None
      | Some sub \<Rightarrow> Some (submitRewards env (agent_msg s) (received_rewards sub) (s, w)))"
| "deliver_rewards env decode _ _ = None"

fun deliver_slashes ::
  "'w sm_env \<Rightarrow> (byte list \<Rightarrow> slashing_request list option) \<Rightarrow> command list \<Rightarrow> sm_state \<times> 'w \<Rightarrow> 'w sm_result option" where
  "deliver_slashes env decode [CallContract target data gas val] (s, w) =
     (case decode data of
        None \<Rightarrow> None
      | Some rs \<Rightarrow> Some (slashValidatorsOperator env (agent_msg s) (map received_slash rs) (s, w)))"
| "deliver_slashes env decode _ _ = None"

section \<open>Rewards\<close>

text \<open>What an era's points earn the operators that the contract knows, under their Ethereum addresses.\<close>

definition earned :: "(address \<Rightarrow> address) \<Rightarrow> nat \<Rightarrow> nat \<Rightarrow> (H160 \<times> nat) list \<Rightarrow> (address \<times> nat) list" where
  "earned eth tot infl points =
     map (\<lambda>(op, pts). (eth op, pts * infl div tot))
       (filter (\<lambda>(op, pts). eth op \<noteq> 0 \<and> 0 < pts * infl div tot) points)"

lemma earned_known:
  "known_rewards eth (filter (\<lambda>x. 0 < snd x) (map (reward_of tot infl) points)) = earned eth tot infl points"
  by (induction points) (auto simp: known_rewards_def earned_def reward_of_def)

lemma mset_known_sort: "mset (known_rewards eth (sort_key fst xs)) = mset (known_rewards eth xs)"
  by (simp add: known_rewards_def)

lemma earned_le: "sum_list (map snd (earned eth tot infl points)) \<le> sum_list (map (\<lambda>x. snd x * infl div tot) points)"
  by (induction points) (auto simp: earned_def)

text \<open>The rewards that a message carries, and how the words round-trip.\<close>

lemma built_rewards:
  assumes "build_rewards_message C utils w = (Some m, w')"
    and "points_to_rewards (eu_individual_points utils) (eu_total_points utils) (eu_inflation_amount utils) = Inr (rs, remainder)"
  obtains sub where "om_commands m = [CallContract (ra_service_manager_address C) (abi_submit_rewards C sub) SUBMIT_REWARDS_GAS_LIMIT 0]"
    "rs_token sub = whave_token_address C" "rs_operator_rewards sub = map (\<lambda>(op, amount). (op, word_of_nat amount)) rs"
    "rs_strategies sub = map (\<lambda>(st, mult). (st, word_of_nat mult)) (sort_key fst (strategies_and_multipliers C))"
    "rs_start_timestamp sub = eu_era_start_timestamp utils" "rs_duration sub = rewards_duration C"
  using assms by (auto simp: build_rewards_message_def encode_rewards_calldata_def Let_def split: if_splits)

lemma unat_amounts:
  assumes "\<And>x. x \<in> set rs \<Longrightarrow> snd x \<le> u128_max"
  shows "map (\<lambda>(op, amount). (op, unat amount)) (map (\<lambda>(op, amount). (op, word_of_nat amount :: 256 word)) rs) = rs"
proof -
  have "unat (word_of_nat n :: 256 word) = n" if "n \<le> u128_max" for n
    using that by (simp add: unsigned_of_nat take_bit_nat_eq_self u128_max_def)
  then have "unat (word_of_nat (snd x) :: 256 word) = snd x" if "x \<in> set rs" for x using assms that by blast
  then show ?thesis by (subst map_map, intro map_idI) (simp add: case_prod_unfold)
qed

text \<open>The contract on a list without overflow, in terms of the operators it knows.\<close>

lemma submitRewards_known:
  fixes s :: sm_state and sub :: operator_rewards_submission
  defines "k \<equiv> known_rewards (validatorSolochainAddressToEthAddress s) (ors_operatorRewards sub)"
  assumes "sum_list (map snd k) \<le> uint256_max"
  shows "submitRewards env (agent_msg s) sub (s, w) =
    (if k = [] then Inr (emit (RewardsSubmitted 0 0) s, w)
     else case safeIncreaseAllowance env (ors_token sub) (rewardsCoordinator env) (sum_list (map snd k)) w of
       None \<Rightarrow> Inl ExternalRevert
     | Some w1 \<Rightarrow> external (emit (RewardsSubmitted (sum_list (map snd k)) (length k)) s)
                    (rc_createSubmission env (sub\<lparr>ors_operatorRewards := sort_key fst k\<rparr>) w1))"
proof -
  have "translate_loop (validatorSolochainAddressToEthAddress s) (ors_operatorRewards sub) [] 0 = Some (k, sum_list (map snd k))"
    using assms(2) by (subst translate_loop_result) (simp add: k_def)
  then show ?thesis unfolding submitRewards_def sortOperatorRewards_sort_key by (simp add: agent_msg_def)
qed

lemma earned_sorted:
  assumes "sm_inv s" "distinct (map fst points)"
    and "mset xs = mset (earned (validatorSolochainAddressToEthAddress s) tot infl points)"
  shows "sorted_wrt (\<lambda>a b. fst a < fst b) (sort_key fst xs)"
proof -
  have "distinct (map fst (filter (\<lambda>x. 0 < snd x) (map (reward_of tot infl) points)))"
    by (rule distinct_map_filter) (use assms(2) in \<open>simp add: reward_of_def comp_def\<close>)
  from known_rewards_distinct [OF assms(1) this]
  have "distinct (map fst (earned (validatorSolochainAddressToEthAddress s) tot infl points))" by (simp add: earned_known)
  then have "distinct (map fst (sort_key fst xs))" using assms(3) by (metis mset_eq_imp_distinct_iff mset_map mset_sort)
  then show ?thesis
    using strict_sorted_iff [of "map fst (sort_key fst xs)"] sorted_sort_key [of fst xs] by (simp add: sorted_wrt_map)
qed

section \<open>Slashes\<close>

text \<open>The slash of one validator as the allocation manager is asked for it.\<close>

definition asked_slash :: "sl_config \<Rightarrow> H160 list \<Rightarrow> (address \<Rightarrow> address) \<Rightarrow> slash \<Rightarrow> slashing_params" where
  "asked_slash cfg strategies eth sl =
     \<lparr>slp_operator = eth (validator sl), slp_operatorSetId = VALIDATORS_SET_ID, slp_strategies = strategies,
      slp_wadsToSlash = replicate (length strategies) (percentage sl * MaxSlashWad cfg div 1000000000),
      slp_description = map (\<lambda>c. word_of_nat (of_char c)) (to_description (from_utf8_lossy cfg) (slash_offence sl))\<rparr>"

lemma sent_wad:
  assumes "percentage sl \<le> 1000000000" "1000000000 * MaxSlashWad cfg \<le> u128_max"
  shows "sd_wad_to_slash (slash_to_send_data cfg sl) = percentage sl * MaxSlashWad cfg div 1000000000"
    and "percentage sl * MaxSlashWad cfg div 1000000000 \<le> MaxSlashWad cfg"
proof -
  have le: "percentage sl * MaxSlashWad cfg \<le> 1000000000 * MaxSlashWad cfg" using assms(1) by simp
  then have "percentage sl * MaxSlashWad cfg div 1000000000 \<le> 1000000000 * MaxSlashWad cfg div 1000000000"
    by (rule div_le_mono)
  then show b: "percentage sl * MaxSlashWad cfg div 1000000000 \<le> MaxSlashWad cfg" by simp
  have "sat_mul128 (percentage sl) (MaxSlashWad cfg) = percentage sl * MaxSlashWad cfg"
    using le assms(2) le_trans sat_mul_exact by blast
  then show "sd_wad_to_slash (slash_to_send_data cfg sl) = percentage sl * MaxSlashWad cfg div 1000000000"
    using b by (simp add: slash_to_send_data_def checked_div_def Let_def)
qed

lemma received_asked:
  assumes "percentage sl \<le> 1000000000" "1000000000 * MaxSlashWad cfg \<le> u128_max"
  shows "slc_operator (received_slash (slashing_request_of strategies (slash_to_send_data cfg sl))) = validator sl"
    and "\<lparr>slp_operator = eth (validator sl), slp_operatorSetId = VALIDATORS_SET_ID,
          slp_strategies = slc_strategies (received_slash (slashing_request_of strategies (slash_to_send_data cfg sl))),
          slp_wadsToSlash = slc_wadsToSlash (received_slash (slashing_request_of strategies (slash_to_send_data cfg sl))),
          slp_description = slc_description (received_slash (slashing_request_of strategies (slash_to_send_data cfg sl)))\<rparr> =
       asked_slash cfg strategies eth sl"
proof -
  have "percentage sl * MaxSlashWad cfg div 1000000000 < 2 ^ 256"
    using sent_wad(2) [OF assms] assms(2) by (simp add: u128_max_def)
  then have "unat (word_of_nat (percentage sl * MaxSlashWad cfg div 1000000000) :: 256 word) =
      percentage sl * MaxSlashWad cfg div 1000000000"
    by (simp add: unsigned_of_nat take_bit_nat_eq_self)
  then show "\<lparr>slp_operator = eth (validator sl), slp_operatorSetId = VALIDATORS_SET_ID,
          slp_strategies = slc_strategies (received_slash (slashing_request_of strategies (slash_to_send_data cfg sl))),
          slp_wadsToSlash = slc_wadsToSlash (received_slash (slashing_request_of strategies (slash_to_send_data cfg sl))),
          slp_description = slc_description (received_slash (slashing_request_of strategies (slash_to_send_data cfg sl)))\<rparr> =
       asked_slash cfg strategies eth sl"
    using sent_wad(1) [OF assms]
    by (simp add: received_slash_def slashing_request_of_def asked_slash_def) (simp add: slash_to_send_data_def Let_def)
qed (simp add: received_slash_def slashing_request_of_def slash_to_send_data_def Let_def)

lemma slashes_sent_asked:
  assumes "\<And>sl. sl \<in> set sls \<Longrightarrow> percentage sl \<le> 1000000000" "1000000000 * MaxSlashWad cfg \<le> u128_max"
  shows "slashes_sent eth (map received_slash (map (slashing_request_of strategies) (map (slash_to_send_data cfg) sls))) =
    map (asked_slash cfg strategies eth) (filter (\<lambda>sl. eth (validator sl) \<noteq> 0) sls)"
  using assms(1)
proof (induction sls)
  case (Cons sl sls)
  then have "percentage sl \<le> 1000000000" by simp
  note received_asked [OF this assms(2)]
  then show ?case using Cons by (simp add: slashes_sent_def)
qed (simp add: slashes_sent_def)

section \<open>Properties\<close>

text \<open>
  C4. An era's rewards from the runtime to the operators. When the adapter builds the message of an
  era and the agent makes its call, the contract does not fail of its own: it allows the
  coordinator exactly the sum of what it hands on, and hands on, in strictly ascending
  order, for each validator with points that it knows, the Ethereum address of its operator
  with the rounded-down share of the era's inflation, and nothing else; no more than the
  inflation is handed on. (With the total of the points as documented, no product above
  128 bits, no validator twice, and a decoder that reads back the call that was encoded.)
\<close>

theorem era_rewards_reach_operators:
  assumes build: "build_rewards_message C utils w = (Some m, w')"
    and reach: "sm_reach env (s, ew)" "callback_only env"
    and pts: "0 < eu_total_points utils" "sum_list (map snd (eu_individual_points utils)) = eu_total_points utils"
      "eu_inflation_amount utils \<le> u128_max"
      "\<forall>x\<in>set (eu_individual_points utils). snd x * eu_inflation_amount utils \<le> u128_max"
      "distinct (map fst (eu_individual_points utils))"
  defines "owed \<equiv> earned (validatorSolochainAddressToEthAddress s) (eu_total_points utils) (eu_inflation_amount utils)
    (eu_individual_points utils)"
  shows "\<exists>call sub paid. om_commands m =
      [CallContract (ra_service_manager_address C) (abi_submit_rewards C call) SUBMIT_REWARDS_GAS_LIMIT 0] \<and>
    mset paid = mset owed \<and> sorted_wrt (\<lambda>a b. fst a < fst b) paid \<and>
    sum_list (map snd paid) \<le> eu_inflation_amount utils \<and> ors_token sub = whave_token_address C \<and>
    ors_operatorRewards sub = paid \<and> ors_startTimestamp sub = eu_era_start_timestamp utils \<and>
    (\<forall>decode. decode (abi_submit_rewards C call) = Some call \<longrightarrow>
      deliver_rewards env decode (om_commands m) (s, ew) = Some
       (if paid = [] then Inr (emit (RewardsSubmitted 0 0) s, ew)
        else case safeIncreaseAllowance env (whave_token_address C) (rewardsCoordinator env) (sum_list (map snd paid)) ew of
          None \<Rightarrow> Inl ExternalRevert
        | Some w1 \<Rightarrow> external (emit (RewardsSubmitted (sum_list (map snd paid)) (length paid)) s)
            (rc_createSubmission env sub w1)))"
proof -
  let ?tot = "eu_total_points utils" and ?infl = "eu_inflation_amount utils" and ?pts = "eu_individual_points utils"
  let ?eth = "validatorSolochainAddressToEthAddress s"
  define rs where "rs = sort_key fst (filter (\<lambda>x. 0 < snd x) (map (reward_of ?tot ?infl) ?pts))"
  obtain sub where sub: "om_commands m = [CallContract (ra_service_manager_address C) (abi_submit_rewards C sub) SUBMIT_REWARDS_GAS_LIMIT 0]"
      "rs_token sub = whave_token_address C" "rs_operator_rewards sub = map (\<lambda>(op, amount). (op, word_of_nat amount)) rs"
      "rs_start_timestamp sub = eu_era_start_timestamp utils"
    using built_rewards [OF build points_to_rewards_eq [OF pts(1-4)]] unfolding rs_def by metis
  have le: "sum_list (map snd owed) \<le> ?infl"
    using earned_le [of ?eth ?tot ?infl ?pts] distributed_bounds(1) [OF pts(1,2), of ?infl] by (simp add: owed_def)
  have "snd x \<le> u128_max" if "x \<in> set rs" for x
  proof -
    obtain p where "p \<in> set ?pts" "snd x = snd p * ?infl div ?tot" using \<open>x \<in> set rs\<close> by (auto simp: rs_def reward_of_def)
    then show ?thesis using pts(4) div_le_dividend [of "snd p * ?infl" ?tot] by (metis le_trans)
  qed
  then have ops: "ors_operatorRewards (received_rewards sub) = rs"
    using unat_amounts [of rs] sub(3) by (simp add: received_rewards_def)
  have k: "mset (known_rewards ?eth rs) = mset owed"
    unfolding rs_def owed_def mset_known_sort earned_known ..
  let ?k = "known_rewards ?eth rs"
  have tot: "sum_list (map snd (sort_key fst ?k)) = sum_list (map snd ?k)" "sum_list (map snd ?k) = sum_list (map snd owed)"
    using k by (metis mset_map mset_sort sum_mset_sum_list)+
  have len: "length (sort_key fst ?k) = length ?k" and nil: "sort_key fst ?k = [] \<longleftrightarrow> ?k = []"
    by (simp_all add: length_sort_key flip: length_0_conv)
  have srt: "sorted_wrt (\<lambda>a b. fst a < fst b) (sort_key fst ?k)"
    by (rule earned_sorted [OF _ pts(5) k [unfolded owed_def]]) (use sm_reach_inv [OF reach] in simp)
  have "sum_list (map snd ?k) \<le> uint256_max" using tot le pts(3) by (simp add: uint256_max_def u128_max_def)
  from submitRewards_known [of s "received_rewards sub", unfolded ops, OF this, of env ew]
  have run: "\<forall>decode. decode (abi_submit_rewards C sub) = Some sub \<longrightarrow> deliver_rewards env decode (om_commands m) (s, ew) = Some
      (if ?k = [] then Inr (emit (RewardsSubmitted 0 0) s, ew)
       else case safeIncreaseAllowance env (whave_token_address C) (rewardsCoordinator env) (sum_list (map snd ?k)) ew of
         None \<Rightarrow> Inl ExternalRevert
       | Some w1 \<Rightarrow> external (emit (RewardsSubmitted (sum_list (map snd ?k)) (length ?k)) s)
           (rc_createSubmission env ((received_rewards sub)\<lparr>ors_operatorRewards := sort_key fst ?k\<rparr>) w1))"
    using sub(1,2) by (simp add: received_rewards_def)
  show ?thesis
    by (intro exI [of _ sub] exI [of _ "(received_rewards sub)\<lparr>ors_operatorRewards := sort_key fst ?k\<rparr>"] exI [of _ "sort_key fst ?k"],
        unfold tot(1) len nil, intro conjI run sub(1))
      (use k srt tot(2) le sub(2,4) in \<open>simp_all add: received_rewards_def\<close>)
qed

text \<open>An era in which the validators 70 and 80, which the contract knows, and 33, which it does not, earned points.\<close>

definition path_rewards :: "unit rewards_submission_config" where
  "path_rewards =
     \<lparr>ra_validate = Inr, ra_deliver = (\<lambda>m w. (Inr 0, w)), strategies_and_multipliers = [(5, 1)], rewards_duration = 86400,
      whave_token_address = 60, ra_service_manager_address = 100, rewards_agent_origin = 3,
      handle_remainder = (\<lambda>n w. w), abi_submit_rewards = (\<lambda>sub. [])\<rparr>"

definition path_utils :: era_rewards_utils where
  "path_utils = \<lparr>eu_era_index = 3, eu_era_start_timestamp = 0, eu_total_points = 10,
     eu_individual_points = [(80, 5), (33, 2), (70, 3)], eu_inflation_amount = 101\<rparr>"

lemma path_facts:
  "\<exists>m w. build_rewards_message path_rewards path_utils () = (Some m, w)"
  "0 < eu_total_points path_utils" "sum_list (map snd (eu_individual_points path_utils)) = eu_total_points path_utils"
  "eu_inflation_amount path_utils \<le> u128_max" "distinct (map fst (eu_individual_points path_utils))"
  "\<forall>x\<in>set (eu_individual_points path_utils). snd x * eu_inflation_amount path_utils \<le> u128_max"
  "earned (validatorSolochainAddressToEthAddress sample_sm_state) 10 101 (eu_individual_points path_utils) = [(8, 50), (7, 30)]"
  by (simp_all add: build_rewards_message_def path_rewards_def path_utils_def points_to_rewards_def u128_max_def
      sat_simps checked_div_def encode_rewards_calldata_def MAX_UINT96_def earned_def sample_sm_state_def Let_def)

theorem era_rewards_reach_operators_witness:
  "\<exists>decode m w call (paid :: (address \<times> nat) list). build_rewards_message path_rewards path_utils () = (Some m, w) \<and>
     decode (abi_submit_rewards path_rewards call) = Some call \<and>
     mset paid = {#(8, 50), (7, 30)#} \<and> sorted_wrt (\<lambda>a b. fst a < fst b) paid \<and>
     deliver_rewards sample_sm_env decode (om_commands m) (sample_sm_state, []) =
       Some (Inr (emit (RewardsSubmitted 80 2) sample_sm_state, []))"
proof -
  obtain m w where b: "build_rewards_message path_rewards path_utils () = (Some m, w)" using path_facts(1) by blast
  have f: "eu_total_points path_utils = 10" "eu_inflation_amount path_utils = 101" by (simp_all add: path_utils_def)
  obtain call sub paid where p: "mset paid = mset [(8 :: address, 50 :: nat), (7, 30)]" "sorted_wrt (\<lambda>a b. fst a < fst b) paid"
      and run: "\<And>decode. decode (abi_submit_rewards path_rewards call) = Some call \<Longrightarrow>
        deliver_rewards sample_sm_env decode (om_commands m) (sample_sm_state, []) = Some
         (if paid = [] then Inr (emit (RewardsSubmitted 0 0) sample_sm_state, [])
          else case safeIncreaseAllowance sample_sm_env (whave_token_address path_rewards) (rewardsCoordinator sample_sm_env)
              (sum_list (map snd paid)) [] of
            None \<Rightarrow> Inl ExternalRevert
          | Some w1 \<Rightarrow> external (emit (RewardsSubmitted (sum_list (map snd paid)) (length paid)) sample_sm_state)
              (rc_createSubmission sample_sm_env sub w1))"
    using era_rewards_reach_operators [OF b sample_sm_reach sample_callback_only path_facts(2-4,6,5)]
    unfolding f path_facts(7) by blast
  have "sum_list (map snd paid) = sum_mset (image_mset snd (mset paid))" "length paid = size (mset paid)"
    by (simp_all add: sum_mset_sum_list flip: mset_map)
  then have "sum_list (map snd paid) = 80" "length paid = 2" unfolding p(1) by simp_all
  then show ?thesis using b p run [of "\<lambda>_. Some call"]
    by (intro exI [of _ "\<lambda>_. Some call"] exI [of _ m] exI [of _ w] exI [of _ call] exI [of _ paid])
      (auto simp: sample_sm_env_def external_def)
qed

text \<open>
  C5. A batch of slashes from the runtime to the operators. When the agent makes the call of a slashes
  message, the contract asks the allocation manager, in order, for exactly the slashes of the
  validators that it knows, each against the Ethereum address of its operator, in every
  configured strategy with the proportion \<open>percentage * MaxSlashWad / 10^9\<close>, which is at most
  \<open>MaxSlashWad\<close>, and it fails only if one of these requests does. (With percentages as the pallet
  computes them and a decoder that reads back the call that was encoded.)
\<close>

theorem slashes_reach_operators:
  fixes s :: sm_state
  assumes build: "build_slashes_message C (map (slash_to_send_data cfg) sls, era) = Some m"
    and codec: "decode (abi_slash_validators C (map (slashing_request_of (sa_strategies C)) (map (slash_to_send_data cfg) sls))) =
      Some (map (slashing_request_of (sa_strategies C)) (map (slash_to_send_data cfg) sls))"
    and "\<And>sl. sl \<in> set sls \<Longrightarrow> percentage sl \<le> 1000000000" "1000000000 * MaxSlashWad cfg \<le> u128_max"
  defines "asked \<equiv> map (asked_slash cfg (sa_strategies C) (validatorSolochainAddressToEthAddress s))
      (filter (\<lambda>sl. validatorSolochainAddressToEthAddress s (validator sl) \<noteq> 0) sls)"
  shows "deliver_slashes env decode (om_commands m) (s, ew) = Some (external (emit SlashingComplete s)
      (foldl (\<lambda>r p. Option.bind r (am_slashOperator env p)) (Some ew) asked)) \<and>
    (\<forall>p \<in> set asked. \<forall>n \<in> set (slp_wadsToSlash p). n \<le> MaxSlashWad cfg)"
proof -
  have "slashes_sent (validatorSolochainAddressToEthAddress s)
      (map received_slash (map (slashing_request_of (sa_strategies C)) (map (slash_to_send_data cfg) sls))) = asked"
    unfolding asked_def by (rule slashes_sent_asked [OF assms(3,4)])
  moreover have "om_commands m = [CallContract (sa_service_manager_address C)
      (abi_slash_validators C (map (slashing_request_of (sa_strategies C)) (map (slash_to_send_data cfg) sls)))
      SLASH_VALIDATORS_GAS_LIMIT 0]"
    using build by (auto simp: build_slashes_message_def encode_slashing_request_def Let_def)
  ultimately have "deliver_slashes env decode (om_commands m) (s, ew) = Some (external (emit SlashingComplete s)
      (foldl (\<lambda>r p. Option.bind r (am_slashOperator env p)) (Some ew) asked))"
    using codec by (simp add: slashValidatorsOperator_def agent_msg_def slash_loop_sent)
  moreover have "\<forall>p \<in> set asked. \<forall>n \<in> set (slp_wadsToSlash p). n \<le> MaxSlashWad cfg"
    using sent_wad(2) [OF assms(3,4)] by (auto simp: asked_def asked_slash_def)
  ultimately show ?thesis by blast
qed

definition path_slashes :: "unit slashes_submission_config" where
  "path_slashes =
     \<lparr>sa_validate = Inr, sa_deliver = (\<lambda>m w. (Inr 0, w)), sa_service_manager_address = 100, slashes_agent_origin = 3,
      sa_strategies = [1, 2], abi_slash_validators = (\<lambda>rs. [])\<rparr>"

definition path_slash :: "AccountId \<Rightarrow> slash" where
  "path_slash v = \<lparr>validator = v, reporters = [], slash_id = 0, percentage = 100000000, confirmed = True,
     slash_offence = LivenessOffence\<rparr>"

theorem slashes_reach_operators_witness:
  "\<exists>m decode. build_slashes_message path_slashes (map (slash_to_send_data sl_cfg) [path_slash 80, path_slash 33], 3) = Some m \<and>
     deliver_slashes sample_sm_env decode (om_commands m) (sample_sm_state, []) =
       Some (Inr (emit SlashingComplete sample_sm_state, [8])) \<and>
     slp_wadsToSlash (asked_slash sl_cfg [1, 2] (validatorSolochainAddressToEthAddress sample_sm_state) (path_slash 80)) =
       [5000000000000000, 5000000000000000]"
proof -
  let ?sls = "[path_slash 80, path_slash 33]"
  let ?rs = "map (slashing_request_of (sa_strategies path_slashes)) (map (slash_to_send_data sl_cfg) ?sls)"
  obtain m where m: "build_slashes_message path_slashes (map (slash_to_send_data sl_cfg) ?sls, 3) = Some m"
    by (simp add: build_slashes_message_def Let_def)
  have w: "1000000000 * MaxSlashWad sl_cfg \<le> u128_max" by (simp add: mainnet_sl_config_def u128_max_def)
  have p: "percentage sl \<le> 1000000000" if "sl \<in> set ?sls" for sl using that by (auto simp: path_slash_def)
  from slashes_reach_operators [OF m _ p w, where decode = "\<lambda>_. Some ?rs" and s = sample_sm_state and env = sample_sm_env and ew = "[]"]
  have "deliver_slashes sample_sm_env (\<lambda>_. Some ?rs) (om_commands m) (sample_sm_state, []) =
      Some (Inr (emit SlashingComplete sample_sm_state, [8]))"
    by (simp add: path_slash_def sample_sm_state_def) (simp add: sample_sm_env_def asked_slash_def external_def)
  moreover have "slp_wadsToSlash (asked_slash sl_cfg [1, 2] (validatorSolochainAddressToEthAddress sample_sm_state) (path_slash 80)) =
       [5000000000000000, 5000000000000000]"
    by (simp add: asked_slash_def path_slash_def mainnet_sl_config_def)
  ultimately show ?thesis using m by blast
qed

end
