(* ===== verification/Runtime_Common.thy ===== *)
theory Runtime_Common
  imports Native_Transfer Evm_Permits Perbill
begin

text \<open>
  Smaller parts that the runtimes share: the split of the fees
  (\<open>runtime/common/src/deal_with_fees.rs\<close>), the filter of calls in safe mode and under transaction
  pause (\<open>runtime/common/src/safe_mode.rs\<close> and \<open>runtime/mainnet/src/configs/mod.rs\<close>), and the precompile
  of native transfers (\<open>precompiles/datahaven-native-transfer/src/lib.rs\<close>). The pallets behind them
  are parameters; the gas that the precompile charges is left out.
\<close>

section \<open>Fees\<close>

text \<open>
  A credit is an amount of the issuance that belongs to no account. \<open>ration\<close> splits it in a
  proportion, \<open>resolve\<close> pays it into an account and gives back what could not be paid; a credit that is
  dropped is burnt.
\<close>

record 'w fees_env =
  ration :: "nat \<Rightarrow> nat \<Rightarrow> nat \<Rightarrow> nat \<times> nat"
  resolve :: "AccountId \<Rightarrow> nat \<Rightarrow> 'w \<Rightarrow> nat \<times> 'w"
  burn :: "nat \<Rightarrow> 'w \<Rightarrow> 'w"
  FeesTreasuryProportion :: "'w \<Rightarrow> perbill"
  treasury_account :: AccountId
  block_author :: "'w \<Rightarrow> AccountId option"

definition resolve_to :: "'w fees_env \<Rightarrow> AccountId \<Rightarrow> nat \<Rightarrow> 'w \<Rightarrow> 'w" where
  "resolve_to env who amount w = (case resolve env who amount w of (rest, w) \<Rightarrow> burn env rest w)"

definition deal_with_fees :: "'w fees_env \<Rightarrow> nat \<Rightarrow> 'w \<Rightarrow> 'w" where
  "deal_with_fees env amount w =
     (let treasury_part = FeesTreasuryProportion env w;
          burn_part = ACCURACY - treasury_part;
          (burnt, to_treasury) = ration env amount burn_part treasury_part
      in resolve_to env (treasury_account env) to_treasury (burn env burnt w))"

definition BlockAuthorAccountId :: "'w fees_env \<Rightarrow> 'w \<Rightarrow> AccountId" where
  "BlockAuthorAccountId env w = (case block_author env w of None \<Rightarrow> 0 | Some a \<Rightarrow> a)"

definition deal_with_tip :: "'w fees_env \<Rightarrow> nat \<Rightarrow> 'w \<Rightarrow> 'w" where
  "deal_with_tip env amount w = resolve_to env (BlockAuthorAccountId env w) amount w"

text \<open>The fees come first in the list, then the tip; what else there is, is dropped.\<close>

fun substrate_on_unbalanceds :: "'w fees_env \<Rightarrow> nat list \<Rightarrow> 'w \<Rightarrow> 'w" where
  "substrate_on_unbalanceds env [] w = w"
| "substrate_on_unbalanceds env [fees] w = deal_with_fees env fees w"
| "substrate_on_unbalanceds env (fees # tip # rest) w =
     burn env (sum_list rest) (deal_with_tip env tip (deal_with_fees env fees w))"

definition ethereum_base_on_nonzero_unbalanced :: "'w fees_env \<Rightarrow> nat \<Rightarrow> 'w \<Rightarrow> 'w" where
  "ethereum_base_on_nonzero_unbalanced env amount w =
     (let treasury_part = FeesTreasuryProportion env w;
          burn_part = ACCURACY - treasury_part;
          (burnt, to_treasury) = ration env amount burn_part treasury_part
      in resolve_to env (treasury_account env) to_treasury (burn env burnt w))"

definition ethereum_priority_on_nonzero_unbalanced :: "'w fees_env \<Rightarrow> nat \<Rightarrow> 'w \<Rightarrow> 'w" where
  "ethereum_priority_on_nonzero_unbalanced env amount w = resolve_to env (BlockAuthorAccountId env w) amount w"

section \<open>The filter of calls\<close>

record runtime_call =
  rc_pallet :: string
  rc_name :: string
  rc_proxy_real :: "H160 option"

definition NormalCallFilter :: "(H160 \<Rightarrow> bool) \<Rightarrow> runtime_call \<Rightarrow> bool" where
  "NormalCallFilter has_code c =
     (if rc_pallet c = ''Proxy'' then
        (if rc_name c = ''proxy'' then (case rc_proxy_real c of Some real \<Rightarrow> \<not> has_code real | None \<Rightarrow> True) else True)
      else if rc_pallet c = ''EVM'' then False
      else True)"

definition SafeModeWhitelistedCalls :: "runtime_call \<Rightarrow> bool" where
  "SafeModeWhitelistedCalls c =
     List.member [''System'', ''Timestamp'', ''Randomness'', ''SafeMode'', ''TxPause'', ''Sudo'', ''Whitelist'', ''Preimage'',
       ''Scheduler'', ''ConvictionVoting'', ''Referenda'', ''TechnicalCommittee'', ''TreasuryCouncil''] (rc_pallet c)"

definition TxPauseWhitelistedCalls :: "string \<times> string \<Rightarrow> bool" where
  "TxPauseWhitelistedCalls full_name =
     (if fst full_name = ''Sudo'' then True else if fst full_name = ''SafeMode'' then True else False)"

text \<open>
  The two pallets: in safe mode the first lets whitelisted calls pass only; the second refuses the
  calls that are paused, and never pauses whitelisted calls or its own.
\<close>

record 'w filter_env =
  fe_has_code :: "'w \<Rightarrow> H160 \<Rightarrow> bool"
  safe_mode_entered :: "'w \<Rightarrow> bool"
  tx_paused :: "'w \<Rightarrow> string \<times> string \<Rightarrow> bool"

definition safe_mode_contains :: "'w filter_env \<Rightarrow> 'w \<Rightarrow> runtime_call \<Rightarrow> bool" where
  "safe_mode_contains env w c \<longleftrightarrow> \<not> safe_mode_entered env w \<or> SafeModeWhitelistedCalls c"

definition tx_pause_contains :: "'w filter_env \<Rightarrow> 'w \<Rightarrow> runtime_call \<Rightarrow> bool" where
  "tx_pause_contains env w c \<longleftrightarrow> \<not> tx_paused env w (rc_pallet c, rc_name c)"

definition RuntimeCallFilter :: "'w filter_env \<Rightarrow> 'w \<Rightarrow> runtime_call \<Rightarrow> bool" where
  "RuntimeCallFilter env w c \<longleftrightarrow>
     NormalCallFilter (fe_has_code env w) c \<and> safe_mode_contains env w c \<and> tx_pause_contains env w c"

section \<open>The precompile of native transfers\<close>

datatype nt_log = LogTokensLocked H160 H256 | LogTokensTransferredToEthereum H160 H160 H256

definition precompile_transfer_to_ethereum ::
  "'w nt_config \<Rightarrow> evm_context \<Rightarrow> H160 \<Rightarrow> H256 \<Rightarrow> H256 \<Rightarrow> 'w nt_state \<Rightarrow> evm_failure + (nt_log list \<times> 'w nt_state)" where
  "precompile_transfer_to_ethereum cfg ctx recipient amount fee s =
     (if recipient = 0 then Inl (EvmRevert ''Recipient cannot be zero address'')
      else if u128_max < unat amount then Inl (EvmRevert ''amount: Amount overflow'')
      else if u128_max < unat fee then Inl (EvmRevert ''fee: Fee overflow'')
      else if unat amount = 0 then Inl (EvmRevert ''Amount must be greater than zero'')
      else if unat fee = 0 then Inl (EvmRevert ''Fee must be greater than zero'')
      else case transfer_to_ethereum cfg (SignedOrigin (ctx_caller ctx)) recipient (unat amount) (unat fee) s of
        Inl _ \<Rightarrow> Inl (EvmRevert ''Dispatched call failed'')
      | Inr s \<Rightarrow> Inr ([LogTokensLocked (ctx_caller ctx) amount,
                       LogTokensTransferredToEthereum (ctx_caller ctx) recipient amount], s))"

definition precompile_is_paused :: "'w nt_state \<Rightarrow> bool" where
  "precompile_is_paused s = Paused s"

definition precompile_total_locked_balance :: "'w nt_config \<Rightarrow> 'w nt_state \<Rightarrow> nat" where
  "precompile_total_locked_balance cfg s = total_locked_balance cfg s"

section \<open>Lemmas\<close>

text \<open>
  The laws of credits: a split loses nothing, what is resolved ends up in accounts, and what is
  dropped is burnt. \<open>held\<close> is the sum of all accounts.
\<close>

definition fees_laws :: "'w fees_env \<Rightarrow> ('w \<Rightarrow> nat) \<Rightarrow> ('w \<Rightarrow> nat) \<Rightarrow> bool" where
  "fees_laws env held burned \<longleftrightarrow>
     (\<forall>n x y p q. ration env n x y = (p, q) \<longrightarrow> p + q = n) \<and>
     (\<forall>a n w rest w'. resolve env a n w = (rest, w') \<longrightarrow> held w' + rest = held w + n \<and> burned w' = burned w) \<and>
     (\<forall>n w. held (burn env n w) = held w \<and> burned (burn env n w) = burned w + n)"

lemma resolve_to_total:
  assumes "fees_laws env held burned"
  shows "held (resolve_to env a n w) + burned (resolve_to env a n w) = held w + burned w + n"
proof -
  obtain rest w' where r: "resolve env a n w = (rest, w')" by force
  then have "held w' + rest = held w + n \<and> burned w' = burned w" "held (burn env rest w') = held w'"
      "burned (burn env rest w') = burned w' + rest"
    using assms by (auto simp: fees_laws_def)
  then show ?thesis using r by (simp add: resolve_to_def)
qed

lemma deal_with_fees_total:
  assumes "fees_laws env held burned"
  shows "held (deal_with_fees env n w) + burned (deal_with_fees env n w) = held w + burned w + n"
proof -
  let ?t = "FeesTreasuryProportion env w"
  obtain p q where r: "ration env n (ACCURACY - ?t) ?t = (p, q)" by force
  have "p + q = n" using assms r unfolding fees_laws_def by blast
  moreover have "held (burn env p w) + burned (burn env p w) = held w + burned w + p"
    using assms by (simp add: fees_laws_def)
  ultimately show ?thesis
    using resolve_to_total [OF assms, of "treasury_account env" q "burn env p w"] r by (simp add: deal_with_fees_def)
qed

text \<open>What the two emergency pallets promise of the calls they pause.\<close>

definition pause_law :: "'w filter_env \<Rightarrow> bool" where
  "pause_law env \<longleftrightarrow>
     (\<forall>w p n. tx_paused env w (p, n) \<longrightarrow> \<not> TxPauseWhitelistedCalls (p, n) \<and> p \<noteq> ''TxPause'')"

section \<open>Properties\<close>

text \<open>
  No fee is lost: what a transaction pays in fees and tip, in substrate or Ethereum form, ends up
  in accounts or is burnt, to the last unit. (With credits that behave as the balances pallet
  documents.)
\<close>

theorem fees_accounted_for:
  assumes "fees_laws env held burned"
  shows "held (substrate_on_unbalanceds env credits w) + burned (substrate_on_unbalanceds env credits w) =
      held w + burned w + sum_list credits \<and>
    held (ethereum_base_on_nonzero_unbalanced env n w) + burned (ethereum_base_on_nonzero_unbalanced env n w) =
      held w + burned w + n \<and>
    held (ethereum_priority_on_nonzero_unbalanced env n w) + burned (ethereum_priority_on_nonzero_unbalanced env n w) =
      held w + burned w + n"
proof -
  have burn: "held (burn env m v) + burned (burn env m v) = held v + burned v + m" for m v
    using assms by (simp add: fees_laws_def)
  have base: "ethereum_base_on_nonzero_unbalanced env n w = deal_with_fees env n w"
    by (simp add: ethereum_base_on_nonzero_unbalanced_def deal_with_fees_def)
  have "held (substrate_on_unbalanceds env credits w) + burned (substrate_on_unbalanceds env credits w) =
      held w + burned w + sum_list credits"
    using deal_with_fees_total [OF assms] resolve_to_total [OF assms] burn
    by (cases "(env, credits, w)" rule: substrate_on_unbalanceds.cases) (simp_all add: deal_with_tip_def)
  then show ?thesis
    using deal_with_fees_total [OF assms] resolve_to_total [OF assms]
    by (simp add: base ethereum_priority_on_nonzero_unbalanced_def)
qed

text \<open>A world of two numbers: what is held and what is burnt.\<close>

definition sample_fees :: "(nat \<times> nat) fees_env" where
  "sample_fees =
     \<lparr>ration = (\<lambda>n x y. (n * x div (x + y), n - n * x div (x + y))), resolve = (\<lambda>a n (h, b). (0, h + n, b)),
      burn = (\<lambda>n (h, b). (h, b + n)), FeesTreasuryProportion = (\<lambda>_. 200000000), treasury_account = 1, block_author = (\<lambda>_. None)\<rparr>"

theorem fees_accounted_for_witness:
  "substrate_on_unbalanceds sample_fees [100, 7] (0, 0) = (27, 80) \<and>
   fst (substrate_on_unbalanceds sample_fees [100, 7] (0, 0)) + snd (substrate_on_unbalanceds sample_fees [100, 7] (0, 0)) = 107"
proof -
  have "n * x div (x + y) \<le> n" for n x y :: nat
    by (cases "x + y = 0") (auto simp: div_le_mono intro: order.trans [OF div_le_mono [of "n * x" "n * (x + y)" "x + y"]])
  then have "fees_laws sample_fees fst snd"
    by (auto simp: fees_laws_def sample_fees_def split: prod.splits)
  from fees_accounted_for [OF this, of "[100, 7]" "(0, 0)" 0] show ?thesis
    by (simp add: deal_with_fees_def deal_with_tip_def resolve_to_def sample_fees_def ACCURACY_def BlockAuthorAccountId_def)
qed

text \<open>
  The way out stays open: whatever is paused and whether or not the chain is in safe mode, calls
  of the sudo, safe-mode and pause pallets pass the filter; a direct call of the EVM and a
  proxied call for an account that has code never do; and in safe mode nothing passes but the
  whitelisted calls. (With a pause pallet that refuses to pause itself and what is whitelisted.)
\<close>

theorem emergency_calls_pass:
  assumes "pause_law env"
  shows "(rc_pallet c \<in> {''Sudo'', ''SafeMode'', ''TxPause''} \<longrightarrow> RuntimeCallFilter env w c) \<and>
    (RuntimeCallFilter env w c \<longrightarrow> rc_pallet c \<noteq> ''EVM'' \<and>
       (rc_pallet c = ''Proxy'' \<and> rc_name c = ''proxy'' \<and> rc_proxy_real c = Some a \<longrightarrow> \<not> fe_has_code env w a) \<and>
       (safe_mode_entered env w \<longrightarrow> SafeModeWhitelistedCalls c))"
  using assms
  by (auto simp: RuntimeCallFilter_def NormalCallFilter_def safe_mode_contains_def tx_pause_contains_def
      SafeModeWhitelistedCalls_def TxPauseWhitelistedCalls_def pause_law_def split: if_splits)

definition sample_filter :: "unit filter_env" where
  "sample_filter = \<lparr>fe_has_code = (\<lambda>_ a. a = 9), safe_mode_entered = (\<lambda>_. True), tx_paused = (\<lambda>_ n. fst n = ''Balances'')\<rparr>"

theorem emergency_calls_pass_witness:
  "RuntimeCallFilter sample_filter () \<lparr>rc_pallet = ''Sudo'', rc_name = ''sudo'', rc_proxy_real = None\<rparr>"
proof -
  have "pause_law sample_filter" by (simp add: pause_law_def sample_filter_def TxPauseWhitelistedCalls_def)
  from emergency_calls_pass [OF this, of "\<lparr>rc_pallet = ''Sudo'', rc_name = ''sudo'', rc_proxy_real = None\<rparr>" "()" 0]
  show ?thesis by simp
qed

text \<open>
  The precompile is the pallet's call for its caller: it succeeds exactly when the amounts fit in
  128 bits and the call succeeds, leaves exactly the state that the call leaves, and logs what was
  locked and to whom it goes.
\<close>

theorem precompile_refines_pallet:
  "precompile_transfer_to_ethereum cfg ctx recipient amount fee s = Inr (logs, s') \<longleftrightarrow>
     unat amount \<le> u128_max \<and> unat fee \<le> u128_max \<and>
     transfer_to_ethereum cfg (SignedOrigin (ctx_caller ctx)) recipient (unat amount) (unat fee) s = Inr s' \<and>
     logs = [LogTokensLocked (ctx_caller ctx) amount, LogTokensTransferredToEthereum (ctx_caller ctx) recipient amount]"
proof -
  have "recipient \<noteq> 0 \<and> 0 < unat amount \<and> 0 < unat fee"
    if "transfer_to_ethereum cfg (SignedOrigin (ctx_caller ctx)) recipient (unat amount) (unat fee) s = Inr s'"
    using that by (auto simp: transfer_to_ethereum_def split: if_splits option.splits)
  then show ?thesis
    by (auto simp: precompile_transfer_to_ethereum_def split: sum.splits)
qed

end
