(* ===== verification/Proxy_Precompile.thy ===== *)
theory Proxy_Precompile
  imports Runtime_Common
begin

text \<open>
  Proxies: the permissions of the runtime (\<open>ProxyType\<close> with its two filters in
  \<open>runtime/mainnet/src/configs/mod.rs\<close>, over the precompiles of \<open>runtime/mainnet/src/precompiles.rs\<close>) and the
  precompile through which contracts use them (\<open>precompiles/proxy/src/lib.rs\<close>). The proxy pallet, the
  balances pallet and the EVM are third-party: the record \<open>proxy_env\<close>. Gas is left out, except
  where the filter hands it on.

  The lemmas show that a permission that counts as larger allows more, and what a proxied call can
  reach.
\<close>

section \<open>Permissions\<close>

datatype proxy_type = Any | NonTransfer | Governance | Staking | CancelProxy | Balances | IdentityJudgement | SudoOnly

definition proxy_type_decode :: "nat \<Rightarrow> proxy_type option" where
  "proxy_type_decode n =
     (if n < 8 then Some ([Any, NonTransfer, Governance, Staking, CancelProxy, Balances, IdentityJudgement, SudoOnly] ! n)
      else None)"

fun proxy_filter :: "proxy_type \<Rightarrow> runtime_call \<Rightarrow> bool" where
  "proxy_filter Any c = True"
| "proxy_filter NonTransfer c =
     (if rc_pallet c = ''Identity'' \<and> (rc_name c = ''add_sub'' \<or> rc_name c = ''set_subs'') then False
      else List.member [''System'', ''Timestamp'', ''Identity'', ''Utility'', ''Proxy'', ''Referenda'', ''Preimage'',
        ''ConvictionVoting'', ''TreasuryCouncil'', ''TechnicalCommittee''] (rc_pallet c))"
| "proxy_filter Governance c =
     List.member [''Referenda'', ''Preimage'', ''ConvictionVoting'', ''TreasuryCouncil'', ''TechnicalCommittee'', ''Utility'']
       (rc_pallet c)"
| "proxy_filter Staking c = (rc_pallet c = ''Utility'')"
| "proxy_filter CancelProxy c = (rc_pallet c = ''Proxy'' \<and> rc_name c = ''reject_announcement'')"
| "proxy_filter Balances c = (rc_pallet c = ''Balances'' \<or> rc_pallet c = ''Utility'')"
| "proxy_filter IdentityJudgement c =
     (rc_pallet c = ''Identity'' \<and> rc_name c = ''provide_judgement'' \<or> rc_pallet c = ''Utility'')"
| "proxy_filter SudoOnly c = (rc_pallet c = ''Sudo'')"

definition is_superset :: "proxy_type \<Rightarrow> proxy_type \<Rightarrow> bool" where
  "is_superset x y = (if x = y then True else if x = Any then True else if y = Any then False else False)"

section \<open>Calls of the EVM\<close>

datatype precompile_name =
    ECRecover | Sha256 | Ripemd160 | Identity | Modexp | Bn128Add | Bn128Mul | Bn128Pairing | Blake2F
  | Sha3FIPS256 | ECRecoverPublicKey | Erc20BalancesPrecompile | BatchPrecompile | CallPermitPrecompile
  | ProxyPrecompile | TreasuryCouncilInstance | ReferendaPrecompile | ConvictionVotingPrecompile
  | PreimagePrecompile | TechnicalCommitteeInstance | PrecompileRegistry | IdentityPrecompile
  | DataHavenNativeTransferPrecompile | FileSystemPrecompile

definition DataHavenPrecompilesAt :: "(H160 \<times> precompile_name) list" where
  "DataHavenPrecompilesAt =
     [(1, ECRecover), (2, Sha256), (3, Ripemd160), (4, Identity), (5, Modexp), (6, Bn128Add), (7, Bn128Mul),
      (8, Bn128Pairing), (9, Blake2F), (1024, Sha3FIPS256), (1026, ECRecoverPublicKey), (2050, Erc20BalancesPrecompile),
      (2056, BatchPrecompile), (2058, CallPermitPrecompile), (2059, ProxyPrecompile), (2064, TreasuryCouncilInstance),
      (2065, ReferendaPrecompile), (2066, ConvictionVotingPrecompile), (2067, PreimagePrecompile),
      (2068, TechnicalCommitteeInstance), (2069, PrecompileRegistry), (2072, IdentityPrecompile),
      (2073, DataHavenNativeTransferPrecompile), (1028, FileSystemPrecompile)]"

definition from_address :: "H160 \<Rightarrow> precompile_name option" where
  "from_address a = map_of DataHavenPrecompilesAt a"

fun is_governance_precompile :: "precompile_name \<Rightarrow> bool" where
  "is_governance_precompile ConvictionVotingPrecompile = True"
| "is_governance_precompile TechnicalCommitteeInstance = True"
| "is_governance_precompile TreasuryCouncilInstance = True"
| "is_governance_precompile PreimagePrecompile = True"
| "is_governance_precompile ReferendaPrecompile = True"
| "is_governance_precompile _ = False"

record evm_sub_call =
  sc_to :: H160
  sc_value :: H256
  sc_call_data :: "byte list"

datatype address_type = EOA | ContractAddress | PrecompileAddress | UnknownAddress

record proxy_def =
  pd_delegate :: AccountId
  pd_proxy_type :: proxy_type
  pd_delay :: nat

text \<open>
  The proxies of an account, the search among them, the three calls of the proxy pallet, a
  transfer of the balances pallet, what is known of an address, and a call of the EVM.
  \<open>is_precompile_or_fail\<close> may run out of the gas it is given.
\<close>

record 'w proxy_env =
  pp_proxies :: "AccountId \<Rightarrow> 'w \<Rightarrow> proxy_def list"
  find_proxy :: "AccountId \<Rightarrow> AccountId \<Rightarrow> proxy_type option \<Rightarrow> 'w \<Rightarrow> proxy_def option"
  pallet_add_proxy :: "AccountId \<Rightarrow> AccountId \<Rightarrow> proxy_type \<Rightarrow> nat \<Rightarrow> 'w \<Rightarrow> 'w option"
  pallet_remove_proxy :: "AccountId \<Rightarrow> AccountId \<Rightarrow> proxy_type \<Rightarrow> nat \<Rightarrow> 'w \<Rightarrow> 'w option"
  pallet_remove_proxies :: "AccountId \<Rightarrow> 'w \<Rightarrow> 'w option"
  px_transfer :: "AccountId \<Rightarrow> AccountId \<Rightarrow> nat \<Rightarrow> 'w \<Rightarrow> 'w option"
  get_address_type :: "H160 \<Rightarrow> 'w \<Rightarrow> evm_failure + address_type"
  has_code :: "H160 \<Rightarrow> 'w \<Rightarrow> bool"
  is_precompile_or_fail :: "H160 \<Rightarrow> nat \<Rightarrow> evm_failure + bool"
  px_call :: "H160 \<Rightarrow> evm_transfer option \<Rightarrow> byte list \<Rightarrow> nat \<Rightarrow> evm_context \<Rightarrow> 'w \<Rightarrow> exit_reason \<times> byte list \<times> 'w"

definition simple_account :: "'w proxy_env \<Rightarrow> evm_sub_call \<Rightarrow> bool \<Rightarrow> nat \<Rightarrow> evm_failure + bool" where
  "simple_account env call recipient_has_code gas =
     (if recipient_has_code then Inr False
      else case is_precompile_or_fail env (sc_to call) gas of Inl e \<Rightarrow> Inl e | Inr b \<Rightarrow> Inr (\<not> b))"

definition to_governance :: "evm_sub_call \<Rightarrow> bool" where
  "to_governance call =
     (case from_address (sc_to call) of Some p \<Rightarrow> is_governance_precompile p | None \<Rightarrow> False)"

fun is_evm_proxy_call_allowed ::
  "'w proxy_env \<Rightarrow> proxy_type \<Rightarrow> evm_sub_call \<Rightarrow> bool \<Rightarrow> nat \<Rightarrow> evm_failure + bool" where
  "is_evm_proxy_call_allowed env Any call recipient_has_code gas =
     (case from_address (sc_to call) of
        Some p \<Rightarrow> Inr (is_governance_precompile p)
      | None \<Rightarrow> simple_account env call recipient_has_code gas)"
| "is_evm_proxy_call_allowed env NonTransfer call recipient_has_code gas = Inr (sc_value call = 0 \<and> to_governance call)"
| "is_evm_proxy_call_allowed env Governance call recipient_has_code gas = Inr (sc_value call = 0 \<and> to_governance call)"
| "is_evm_proxy_call_allowed env Balances call recipient_has_code gas = simple_account env call recipient_has_code gas"
| "is_evm_proxy_call_allowed env _ call recipient_has_code gas = Inr False"

section \<open>The precompile\<close>

definition add_proxy :: "'w proxy_env \<Rightarrow> evm_context \<Rightarrow> H160 \<Rightarrow> nat \<Rightarrow> nat \<Rightarrow> 'w \<Rightarrow> evm_failure + 'w" where
  "add_proxy env ctx delegate proxy_type delay w =
     (case proxy_type_decode proxy_type of
        None \<Rightarrow> Inl (EvmRevert ''proxyType: Failed decoding value to ProxyType'')
      | Some t \<Rightarrow>
          if list_ex (\<lambda>pd. pd_delegate pd = delegate) (pp_proxies env (ctx_caller ctx) w)
          then Inl (EvmRevert ''Cannot add more than one proxy'')
          else dispatch_result (pallet_add_proxy env (ctx_caller ctx) delegate t delay w))"

definition remove_proxy :: "'w proxy_env \<Rightarrow> evm_context \<Rightarrow> H160 \<Rightarrow> nat \<Rightarrow> nat \<Rightarrow> 'w \<Rightarrow> evm_failure + 'w" where
  "remove_proxy env ctx delegate proxy_type delay w =
     (case proxy_type_decode proxy_type of
        None \<Rightarrow> Inl (EvmRevert ''proxyType: Failed decoding value to ProxyType'')
      | Some t \<Rightarrow> dispatch_result (pallet_remove_proxy env (ctx_caller ctx) delegate t delay w))"

definition remove_proxies :: "'w proxy_env \<Rightarrow> evm_context \<Rightarrow> 'w \<Rightarrow> evm_failure + 'w" where
  "remove_proxies env ctx w = dispatch_result (pallet_remove_proxies env (ctx_caller ctx) w)"

definition is_proxy :: "'w proxy_env \<Rightarrow> H160 \<Rightarrow> H160 \<Rightarrow> nat \<Rightarrow> nat \<Rightarrow> 'w \<Rightarrow> evm_failure + bool" where
  "is_proxy env real delegate proxy_type delay w =
     (case proxy_type_decode proxy_type of
        None \<Rightarrow> Inl (EvmRevert ''proxyType: Failed decoding value to ProxyType'')
      | Some t \<Rightarrow> Inr (list_ex (\<lambda>pd. pd_delegate pd = delegate \<and> pd_proxy_type pd = t \<and> pd_delay pd = delay)
                    (pp_proxies env real w)))"

text \<open>The value that came with the call goes back to the caller; the proxied call spends the real account's own.\<close>

definition refund :: "'w proxy_env \<Rightarrow> evm_context \<Rightarrow> H256 \<Rightarrow> 'w \<Rightarrow> evm_failure + 'w" where
  "refund env ctx value w =
     (if value = 0 then Inr w
      else if u128_max < unat value then Inl (EvmRevertOutput [])
      else dispatch_result (px_transfer env (ctx_address ctx) (ctx_caller ctx) (unat value) w))"

definition sub_transfer :: "H160 \<Rightarrow> evm_sub_call \<Rightarrow> evm_transfer option" where
  "sub_transfer real call =
     (if sc_value call = 0 then None
      else Some \<lparr>tr_source = real, tr_target = sc_to call, tr_value = unat (sc_value call)\<rparr>)"

definition sub_context :: "H160 \<Rightarrow> evm_sub_call \<Rightarrow> evm_context" where
  "sub_context real call =
     \<lparr>ctx_address = sc_to call, ctx_caller = real, ctx_apparent_value = unat (sc_value call)\<rparr>"

definition inner_proxy ::
  "'w proxy_env \<Rightarrow> evm_context \<Rightarrow> nat \<Rightarrow> H160 \<Rightarrow> proxy_type option \<Rightarrow> evm_sub_call \<Rightarrow> 'w \<Rightarrow> evm_failure + 'w" where
  "inner_proxy env ctx gas real force_proxy_type call w =
     (case get_address_type env real w of
        Inl e \<Rightarrow> Inl e
      | Inr t \<Rightarrow>
     (if t \<noteq> EOA then Inl (EvmRevert ''real address must be EOA'')
      else case find_proxy env real (ctx_caller ctx) force_proxy_type w of
        None \<Rightarrow> Inl (EvmRevert ''Not proxy'')
      | Some def \<Rightarrow>
          if pd_delay def \<noteq> 0 then Inl (EvmRevert ''Unannounced'')
          else case is_evm_proxy_call_allowed env (pd_proxy_type def) call (has_code env (sc_to call) w) gas of
            Inl e \<Rightarrow> Inl e
          | Inr False \<Rightarrow> Inl (EvmRevert ''CallFiltered'')
          | Inr True \<Rightarrow>
              (case refund env ctx (sc_value call) w of
                 Inl e \<Rightarrow> Inl e
               | Inr w \<Rightarrow>
                   (case px_call env (sc_to call) (sub_transfer real call) (sc_call_data call) gas (sub_context real call) w of
                      (FatalExit e, _) \<Rightarrow> Inl (EvmFatal e)
                    | (RevertExit, output, _) \<Rightarrow> Inl (EvmRevertOutput output)
                    | (ErrorExit e, _) \<Rightarrow> Inl (EvmError e)
                    | (Succeed, _, w) \<Rightarrow> Inr w))))"

definition PROXY_CALL_DATA_LIMIT :: nat where "PROXY_CALL_DATA_LIMIT = 2 ^ 16"

definition proxy :: "'w proxy_env \<Rightarrow> evm_context \<Rightarrow> nat \<Rightarrow> H160 \<Rightarrow> H160 \<Rightarrow> byte list \<Rightarrow> 'w \<Rightarrow> evm_failure + 'w" where
  "proxy env ctx gas real call_to call_data w =
     (if PROXY_CALL_DATA_LIMIT < length call_data then Inl (EvmRevert ''callData: Value is too large for length'')
      else inner_proxy env ctx gas real None
             \<lparr>sc_to = call_to, sc_value = word_of_nat (ctx_apparent_value ctx), sc_call_data = call_data\<rparr> w)"

definition proxy_force_type ::
  "'w proxy_env \<Rightarrow> evm_context \<Rightarrow> nat \<Rightarrow> H160 \<Rightarrow> nat \<Rightarrow> H160 \<Rightarrow> byte list \<Rightarrow> 'w \<Rightarrow> evm_failure + 'w" where
  "proxy_force_type env ctx gas real force_proxy_type call_to call_data w =
     (if PROXY_CALL_DATA_LIMIT < length call_data then Inl (EvmRevert ''callData: Value is too large for length'')
      else case proxy_type_decode force_proxy_type of
        None \<Rightarrow> Inl (EvmRevert ''forceProxyType: Failed decoding value to ProxyType'')
      | Some t \<Rightarrow> inner_proxy env ctx gas real (Some t)
          \<lparr>sc_to = call_to, sc_value = word_of_nat (ctx_apparent_value ctx), sc_call_data = call_data\<rparr> w)"

section \<open>Lemmas\<close>

text \<open>
  What is documented of the two third-party functions: the search returns an entry of the account
  for the delegate, of the forced type if there is one; and the precompile set knows the addresses of its
  own precompiles.
\<close>

definition find_law :: "'w proxy_env \<Rightarrow> bool" where
  "find_law env \<longleftrightarrow> (\<forall>real who t w d. find_proxy env real who t w = Some d \<longrightarrow>
     d \<in> set (pp_proxies env real w) \<and> pd_delegate d = who \<and> (\<forall>x. t = Some x \<longrightarrow> pd_proxy_type d = x))"

definition set_law :: "'w proxy_env \<Rightarrow> bool" where
  "set_law env \<longleftrightarrow> (\<forall>a gas. from_address a \<noteq> None \<longrightarrow> is_precompile_or_fail env a gas \<noteq> Inr False)"

lemma simple_accountD:
  "simple_account env call b gas = Inr True \<Longrightarrow> \<not> b \<and> is_precompile_or_fail env (sc_to call) gas = Inr False"
  by (auto simp: simple_account_def split: if_splits sum.splits)

lemma governance_addresses: "to_governance call \<longleftrightarrow> sc_to call \<in> {2064, 2065, 2066, 2067, 2068}"
  by (simp add: to_governance_def from_address_def DataHavenPrecompilesAt_def)

text \<open>What the filter lets through.\<close>

lemma evm_filterD:
  assumes "is_evm_proxy_call_allowed env t call b gas = Inr True"
  shows "(to_governance call \<and> t \<in> {Any, NonTransfer, Governance}) \<or>
    (\<not> b \<and> is_precompile_or_fail env (sc_to call) gas = Inr False \<and> t \<in> {Any, Balances})"
    and "t \<in> {NonTransfer, Governance} \<Longrightarrow> sc_value call = 0"
  using assms
  by (cases t; auto dest: simple_accountD simp: to_governance_def split: option.splits)+

lemma inner_proxyD:
  assumes "inner_proxy env ctx gas real force call w = Inr w'"
  obtains d w1 out where "get_address_type env real w = Inr EOA" "find_proxy env real (ctx_caller ctx) force w = Some d"
    "pd_delay d = 0" "is_evm_proxy_call_allowed env (pd_proxy_type d) call (has_code env (sc_to call) w) gas = Inr True"
    "refund env ctx (sc_value call) w = Inr w1"
    "px_call env (sc_to call) (sub_transfer real call) (sc_call_data call) gas (sub_context real call) w1 = (Succeed, out, w')"
  using assms
  by (auto simp: inner_proxy_def split: sum.splits if_splits option.splits bool.splits prod.splits exit_reason.splits)

section \<open>Properties\<close>

text \<open>
  A permission that counts as larger allows at least what the smaller one does, for calls of the
  runtime and for calls of the EVM: the proxy pallet relies on this when it lets a proxy add or
  remove proxies. (With a precompile set that knows its own precompiles.)
\<close>

theorem superset_allows_more:
  assumes "is_superset x y" "set_law env"
  shows "(proxy_filter y c \<longrightarrow> proxy_filter x c) \<and>
    (is_evm_proxy_call_allowed env y call b gas = Inr True \<longrightarrow> is_evm_proxy_call_allowed env x call b gas = Inr True)"
proof (cases "x = y")
  case False
  then have x: "x = Any" using assms(1) by (auto simp: is_superset_def split: if_splits)
  have "is_evm_proxy_call_allowed env Any call b gas = Inr True"
    if a: "is_evm_proxy_call_allowed env y call b gas = Inr True"
  proof (cases "to_governance call")
    case True
    then show ?thesis by (auto simp: to_governance_def split: option.splits)
  next
    case False
    then have "\<not> b" "is_precompile_or_fail env (sc_to call) gas = Inr False" using evm_filterD(1) [OF a] by auto
    moreover from this assms(2) have "from_address (sc_to call) = None" unfolding set_law_def by blast
    ultimately show ?thesis by (simp add: simple_account_def)
  qed
  then show ?thesis by (simp add: x)
qed simp

text \<open>
  C36. How far a proxied EVM call reaches. If the precompile succeeds for an account, then that account is
  an externally owned one, the caller is registered as its proxy without a delay (of the forced type, if one
  was given), the value sent along was returned to the caller, and exactly the given call was
  made for the account, with its own funds. It goes to one of the five governance
  precompiles, or to an address without code that is no precompile and then only with a permission
  for everything or for balances; with the permissions that exclude transfers it carries no value; and the staking,
  cancel, judgement and sudo permissions allow no EVM call at all. (With the search of the proxy pallet as
  documented.)
\<close>

theorem proxied_call_confined:
  assumes "find_law env" "inner_proxy env ctx gas real force call w = Inr w'"
  shows "get_address_type env real w = Inr EOA \<and>
    (\<exists>d w1 out. d \<in> set (pp_proxies env real w) \<and> pd_delegate d = ctx_caller ctx \<and> pd_delay d = 0 \<and>
      (\<forall>t. force = Some t \<longrightarrow> pd_proxy_type d = t) \<and>
      refund env ctx (sc_value call) w = Inr w1 \<and>
      px_call env (sc_to call) (sub_transfer real call) (sc_call_data call) gas (sub_context real call) w1 = (Succeed, out, w') \<and>
      (sc_to call \<in> {2064, 2065, 2066, 2067, 2068} \<and> pd_proxy_type d \<in> {Any, NonTransfer, Governance} \<or>
       \<not> has_code env (sc_to call) w \<and> is_precompile_or_fail env (sc_to call) gas = Inr False \<and>
         pd_proxy_type d \<in> {Any, Balances}) \<and>
      (pd_proxy_type d \<in> {NonTransfer, Governance} \<longrightarrow> sc_value call = 0))"
proof -
  obtain d w1 out where d: "get_address_type env real w = Inr EOA" "find_proxy env real (ctx_caller ctx) force w = Some d"
    "pd_delay d = 0" "is_evm_proxy_call_allowed env (pd_proxy_type d) call (has_code env (sc_to call) w) gas = Inr True"
    "refund env ctx (sc_value call) w = Inr w1"
    "px_call env (sc_to call) (sub_transfer real call) (sc_call_data call) gas (sub_context real call) w1 = (Succeed, out, w')"
    using assms(2) by (rule inner_proxyD)
  have f: "d \<in> set (pp_proxies env real w)" "pd_delegate d = ctx_caller ctx" "\<forall>t. force = Some t \<longrightarrow> pd_proxy_type d = t"
    using assms(1) d(2) unfolding find_law_def by blast+
  have g: "(sc_to call \<in> {2064, 2065, 2066, 2067, 2068} \<and> pd_proxy_type d \<in> {Any, NonTransfer, Governance} \<or>
       \<not> has_code env (sc_to call) w \<and> is_precompile_or_fail env (sc_to call) gas = Inr False \<and> pd_proxy_type d \<in> {Any, Balances})"
    using evm_filterD(1) [OF d(4)] unfolding governance_addresses by blast
  show ?thesis using d f g evm_filterD(2) [OF d(4)] by blast
qed

text \<open>An account with one proxy for balances, in a world that counts the calls made.\<close>

definition sample_proxy :: proxy_def where
  "sample_proxy = \<lparr>pd_delegate = 7, pd_proxy_type = Balances, pd_delay = 0\<rparr>"

definition sample_proxy_env :: "nat proxy_env" where
  "sample_proxy_env =
     \<lparr>pp_proxies = (\<lambda>a w. if a = 5 then [sample_proxy] else []),
      find_proxy = (\<lambda>real who t w. if real = 5 \<and> who = 7 \<and> (t = None \<or> t = Some Balances) then Some sample_proxy else None),
      pallet_add_proxy = (\<lambda>a b t n w. Some w), pallet_remove_proxy = (\<lambda>a b t n w. Some w),
      pallet_remove_proxies = (\<lambda>a w. Some w), px_transfer = (\<lambda>a b n w. Some w), get_address_type = (\<lambda>a w. Inr EOA),
      has_code = (\<lambda>a w. False), is_precompile_or_fail = (\<lambda>a gas. Inr (a < 4096)),
      px_call = (\<lambda>a tr d gas ctx w. (Succeed, [], Suc w))\<rparr>"

theorem superset_allows_more_witness:
  "is_superset Any Balances \<and> is_evm_proxy_call_allowed sample_proxy_env Any
     \<lparr>sc_to = 5000, sc_value = 3, sc_call_data = []\<rparr> False 100 = Inr True"
proof -
  have "set_law sample_proxy_env"
    by (auto simp: set_law_def sample_proxy_env_def from_address_def DataHavenPrecompilesAt_def split: if_splits)
  moreover have "is_superset Any Balances" by (simp add: is_superset_def)
  moreover have "is_evm_proxy_call_allowed sample_proxy_env Balances \<lparr>sc_to = 5000, sc_value = 3, sc_call_data = []\<rparr> False 100 = Inr True"
    by (simp add: simple_account_def sample_proxy_env_def)
  ultimately show ?thesis using superset_allows_more by blast
qed

theorem proxied_call_confined_witness:
  "\<exists>d. proxy sample_proxy_env \<lparr>ctx_address = 2059, ctx_caller = 7, ctx_apparent_value = 3\<rparr> 100 5 5000 [] 0 = Inr 1 \<and>
     d \<in> set (pp_proxies sample_proxy_env 5 0) \<and> pd_delegate d = 7 \<and> pd_proxy_type d \<in> {Any, Balances}"
proof -
  let ?ctx = "\<lparr>ctx_address = 2059, ctx_caller = 7, ctx_apparent_value = 3\<rparr>"
  let ?call = "\<lparr>sc_to = 5000, sc_value = 3, sc_call_data = []\<rparr>"
  have "find_law sample_proxy_env" by (auto simp: find_law_def sample_proxy_env_def sample_proxy_def split: if_splits)
  moreover have r: "inner_proxy sample_proxy_env ?ctx 100 5 None ?call 0 = Inr 1"
    by (simp add: inner_proxy_def sample_proxy_env_def sample_proxy_def simple_account_def refund_def dispatch_result_def u128_max_def)
  ultimately show ?thesis
    using proxied_call_confined [of sample_proxy_env ?ctx 100 5 None ?call 0 1] by (auto simp: proxy_def PROXY_CALL_DATA_LIMIT_def)
qed

end
