(* ===== verification/Governance_Tracks.thy ===== *)
theory Governance_Tracks
  imports Evm_Permits
begin

text \<open>
  Referenda: the origins and tracks of the mainnet runtime
  (\<open>runtime/mainnet/src/configs/governance/origins.rs\<close>, \<open>tracks.rs\<close>, \<open>referenda.rs\<close>) and the precompile of the
  referenda pallet (\<open>precompiles/referenda/src/lib.rs\<close>). The pallet is third-party: the record
  \<open>referenda_env\<close>, with the function that makes byte arrays of the track names. Gas is left out.

  The lemmas show that origins and tracks correspond to each other, and for which tracks the precompile can
  submit.
\<close>

section \<open>Origins\<close>

datatype custom_origin = WhitelistedCaller | GeneralAdmin | ReferendumCanceller | ReferendumKiller | FastGeneralAdmin

datatype pallets_origin = RootOrg | SignedOrg AccountId | NoneOrg | CustomOrg custom_origin | OtherOrg

text \<open>The names that the enumeration is read from: its constructors in snake case, exactly.\<close>

definition origin_from_str :: "string \<Rightarrow> custom_origin option" where
  "origin_from_str s =
     (if s = ''whitelisted_caller'' then Some WhitelistedCaller
      else if s = ''general_admin'' then Some GeneralAdmin
      else if s = ''referendum_canceller'' then Some ReferendumCanceller
      else if s = ''referendum_killer'' then Some ReferendumKiller
      else if s = ''fast_general_admin'' then Some FastGeneralAdmin
      else None)"

section \<open>Tracks\<close>

definition MINUTES :: nat where "MINUTES = 60000 div 6000"
definition HOURS :: nat where "HOURS = MINUTES * 60"
definition DAYS :: nat where "DAYS = HOURS * 24"

definition HAVE :: nat where "HAVE = 1000000000000000000"
definition KILOHAVE :: nat where "KILOHAVE = 1000000000000000000000"
definition SUPPLY_FACTOR :: nat where "SUPPLY_FACTOR = 100"

definition VoteLockingPeriod :: nat where "VoteLockingPeriod = 1 * DAYS"

text \<open>Fractions, in thousandths, and the arguments that the two kinds of curves are made from.\<close>

definition percent :: "nat \<Rightarrow> nat" where "percent x = 10 * x"
definition permill :: "nat \<Rightarrow> nat" where "permill x = x"

datatype curve = make_reciprocal nat nat nat nat nat | make_linear nat nat nat nat

record track_info =
  ti_name :: string
  max_deciding :: nat
  decision_deposit :: nat
  prepare_period :: nat
  decision_period :: nat
  confirm_period :: nat
  min_enactment_period :: nat
  min_approval :: curve
  min_support :: curve

type_synonym track = "nat \<times> track_info"

text \<open>The names are byte arrays that the third-party \<open>str_array\<close> makes of strings: the parameter \<open>sa\<close>. It is documented
  to fill the array with zeros.\<close>

definition NUL :: char where "NUL = CHR 0x00"

definition pad :: "nat \<Rightarrow> string \<Rightarrow> string" where
  "pad n s = s @ replicate (n - length s) NUL"

definition zero_padded :: "nat \<Rightarrow> (string \<Rightarrow> string) \<Rightarrow> bool" where
  "zero_padded n sa \<longleftrightarrow> (\<forall>s. length s \<le> n \<longrightarrow> sa s = pad n s)"

definition TRACKS_DATA :: "(string \<Rightarrow> string) \<Rightarrow> track list" where
  "TRACKS_DATA sa =
     [(0, \<lparr>ti_name = sa ''root'', max_deciding = 5, decision_deposit = 20 * KILOHAVE * SUPPLY_FACTOR,
           prepare_period = 1 * DAYS, decision_period = 14 * DAYS, confirm_period = 1 * DAYS, min_enactment_period = 1 * DAYS,
           min_approval = make_reciprocal 4 14 (percent 80) (percent 50) (percent 100),
           min_support = make_linear 14 14 (permill 5) (percent 25)\<rparr>),
      (1, \<lparr>ti_name = sa ''whitelisted_caller'', max_deciding = 100, decision_deposit = 2 * KILOHAVE * SUPPLY_FACTOR,
           prepare_period = 10 * MINUTES, decision_period = 14 * DAYS, confirm_period = 10 * MINUTES,
           min_enactment_period = 30 * MINUTES,
           min_approval = make_reciprocal 1 14 (percent 96) (percent 50) (percent 100),
           min_support = make_reciprocal 1 (14 * 24) (percent 1) (percent 0) (percent 2)\<rparr>),
      (2, \<lparr>ti_name = sa ''general_admin'', max_deciding = 10, decision_deposit = 100 * HAVE * SUPPLY_FACTOR,
           prepare_period = 1 * HOURS, decision_period = 14 * DAYS, confirm_period = 1 * DAYS, min_enactment_period = 1 * DAYS,
           min_approval = make_reciprocal 4 14 (percent 80) (percent 50) (percent 100),
           min_support = make_reciprocal 7 14 (percent 10) (percent 0) (percent 50)\<rparr>),
      (3, \<lparr>ti_name = sa ''referendum_canceller'', max_deciding = 20, decision_deposit = 2 * KILOHAVE * SUPPLY_FACTOR,
           prepare_period = 1 * HOURS, decision_period = 14 * DAYS, confirm_period = 3 * HOURS,
           min_enactment_period = 10 * MINUTES,
           min_approval = make_reciprocal 1 14 (percent 96) (percent 50) (percent 100),
           min_support = make_reciprocal 1 14 (percent 1) (percent 0) (percent 10)\<rparr>),
      (4, \<lparr>ti_name = sa ''referendum_killer'', max_deciding = 100, decision_deposit = 4 * KILOHAVE * SUPPLY_FACTOR,
           prepare_period = 1 * HOURS, decision_period = 14 * DAYS, confirm_period = 3 * HOURS,
           min_enactment_period = 10 * MINUTES,
           min_approval = make_reciprocal 1 14 (percent 96) (percent 50) (percent 100),
           min_support = make_reciprocal 1 14 (percent 1) (percent 0) (percent 10)\<rparr>),
      (5, \<lparr>ti_name = sa ''fast_general_admin'', max_deciding = 10, decision_deposit = 100 * HAVE * SUPPLY_FACTOR,
           prepare_period = 1 * HOURS, decision_period = 14 * DAYS, confirm_period = 3 * HOURS,
           min_enactment_period = 10 * MINUTES,
           min_approval = make_reciprocal 4 14 (percent 80) (percent 50) (percent 100),
           min_support = make_reciprocal 5 14 (percent 1) (percent 0) (percent 50)\<rparr>)]"

text \<open>The bytes of the names are ASCII, for which reading UTF-8 returns them as they are.\<close>

definition from_utf8 :: "string \<Rightarrow> string option" where
  "from_utf8 s = (if list_all (\<lambda>c. of_char c < (128 :: nat)) s then Some s else None)"

definition trim_end_matches :: "char \<Rightarrow> string \<Rightarrow> string" where
  "trim_end_matches c s = rev (dropWhile (\<lambda>x. x = c) (rev s))"

definition track_has_origin :: "custom_origin \<Rightarrow> track \<Rightarrow> bool" where
  "track_has_origin og t =
     (case from_utf8 (ti_name (snd t)) of
        None \<Rightarrow> False
      | Some track_name \<Rightarrow>
          (case origin_from_str (trim_end_matches NUL track_name) of None \<Rightarrow> False | Some x \<Rightarrow> x = og))"

fun track_for :: "(string \<Rightarrow> string) \<Rightarrow> pallets_origin \<Rightarrow> nat option" where
  "track_for sa RootOrg = map_option fst (find (\<lambda>t. ti_name (snd t) = sa ''root'') (TRACKS_DATA sa))"
| "track_for sa (CustomOrg og) = map_option fst (find (track_has_origin og) (TRACKS_DATA sa))"
| "track_for sa _ = None"

section \<open>The referenda pallet\<close>

datatype dispatch_time = DispatchAt nat | DispatchAfter nat

record ref_deposit =
  dep_who :: H160
  dep_amount :: nat

record ongoing_status =
  os_track :: nat
  os_origin :: "byte list"
  os_proposal :: "byte list"
  os_enactment :: dispatch_time
  os_submitted :: nat
  os_submission_deposit :: ref_deposit
  os_decision_deposit :: "ref_deposit option"
  os_deciding :: "(nat \<times> nat option) option"
  os_ayes :: nat
  os_support :: nat
  os_approval :: nat
  os_in_queue :: bool
  os_alarm :: "(nat \<times> byte list) option"

datatype referendum_info =
    Ongoing ongoing_status
  | Approved nat "ref_deposit option" "ref_deposit option"
  | Rejected nat "ref_deposit option" "ref_deposit option"
  | Cancelled nat "ref_deposit option" "ref_deposit option"
  | TimedOut nat "ref_deposit option" "ref_deposit option"
  | Killed nat

text \<open>What the precompile uses of the pallet; a proposal is the hash and the length of a noted preimage.\<close>

record 'w referenda_env =
  str_array :: "string \<Rightarrow> string"
  ReferendumCount :: "'w \<Rightarrow> nat"
  DecidingCount :: "nat \<Rightarrow> 'w \<Rightarrow> nat"
  ReferendumInfoFor :: "nat \<Rightarrow> 'w \<Rightarrow> referendum_info option"
  pallet_submit :: "AccountId \<Rightarrow> pallets_origin \<Rightarrow> H256 \<times> nat \<Rightarrow> dispatch_time \<Rightarrow> 'w \<Rightarrow> 'w option"
  pallet_place_decision_deposit :: "AccountId \<Rightarrow> nat \<Rightarrow> 'w \<Rightarrow> 'w option"
  pallet_refund_decision_deposit :: "AccountId \<Rightarrow> nat \<Rightarrow> 'w \<Rightarrow> 'w option"
  pallet_refund_submission_deposit :: "AccountId \<Rightarrow> nat \<Rightarrow> 'w \<Rightarrow> 'w option"

datatype ref_log =
    SubmittedAt nat nat H256
  | SubmittedAfter nat nat H256
  | DecisionDepositPlaced nat H160 nat
  | DecisionDepositRefunded nat H160 nat
  | SubmissionDepositRefunded nat H160 nat

section \<open>Submitting\<close>

definition track_ids :: "'w referenda_env \<Rightarrow> nat list" where
  "track_ids env = map fst (TRACKS_DATA (str_array env))"

definition rf_track_info :: "'w referenda_env \<Rightarrow> nat \<Rightarrow> evm_failure + track_info" where
  "rf_track_info env track_id =
     (case find (\<lambda>t. fst t = track_id) (TRACKS_DATA (str_array env)) of
        None \<Rightarrow> Inl (EvmRevert ''trackId: No such track'')
      | Some t \<Rightarrow> Inr ((snd t)\<lparr>ti_name := trim_end_matches NUL (ti_name (snd t))\<rparr>))"

definition track_id_to_origin :: "'w referenda_env \<Rightarrow> nat \<Rightarrow> evm_failure + pallets_origin" where
  "track_id_to_origin env track_id =
     (case find (\<lambda>t. fst t = track_id) (TRACKS_DATA (str_array env)) of
        None \<Rightarrow> Inl (EvmRevert ''trackId: No such track'')
      | Some t \<Rightarrow>
          if ti_name (snd t) = str_array env ''root'' then Inr RootOrg
          else case from_utf8 (ti_name (snd t)) of
            None \<Rightarrow> Inl (EvmRevert ''trackId: Track name is not valid UTF-8'')
          | Some name \<Rightarrow>
              (case origin_from_str name of
                 None \<Rightarrow> Inl (EvmRevert ''trackId: Custom origin does not exist for {track_info.name}'')
               | Some og \<Rightarrow> Inr (CustomOrg og)))"

definition rf_submit ::
  "'w referenda_env \<Rightarrow> evm_context \<Rightarrow> nat \<Rightarrow> H256 \<times> nat \<Rightarrow> dispatch_time \<Rightarrow> 'w \<Rightarrow> evm_failure + (nat \<times> 'w)" where
  "rf_submit env ctx track_id proposal enactment_moment w =
     (let referendum_index = ReferendumCount env w in
      case track_id_to_origin env track_id of
        Inl e \<Rightarrow> Inl e
      | Inr proposal_origin \<Rightarrow>
          (case dispatch_result (pallet_submit env (ctx_caller ctx) proposal_origin proposal enactment_moment w) of
             Inl e \<Rightarrow> Inl e
           | Inr w \<Rightarrow> Inr (referendum_index, w)))"

definition submit_at ::
  "'w referenda_env \<Rightarrow> evm_context \<Rightarrow> nat \<Rightarrow> H256 \<Rightarrow> nat \<Rightarrow> nat \<Rightarrow> 'w \<Rightarrow> evm_failure + (nat \<times> ref_log \<times> 'w)" where
  "submit_at env ctx track_id proposal_hash proposal_len block_number w =
     (case rf_submit env ctx track_id (proposal_hash, proposal_len) (DispatchAt block_number) w of
        Inl e \<Rightarrow> Inl e
      | Inr (referendum_index, w) \<Rightarrow> Inr (referendum_index, SubmittedAt track_id referendum_index proposal_hash, w))"

definition submit_after ::
  "'w referenda_env \<Rightarrow> evm_context \<Rightarrow> nat \<Rightarrow> H256 \<Rightarrow> nat \<Rightarrow> nat \<Rightarrow> 'w \<Rightarrow> evm_failure + (nat \<times> ref_log \<times> 'w)" where
  "submit_after env ctx track_id proposal_hash proposal_len block_number w =
     (case rf_submit env ctx track_id (proposal_hash, proposal_len) (DispatchAfter block_number) w of
        Inl e \<Rightarrow> Inl e
      | Inr (referendum_index, w) \<Rightarrow> Inr (referendum_index, SubmittedAfter track_id referendum_index proposal_hash, w))"

section \<open>Views and deposits\<close>

definition SubmissionDeposit :: nat where "SubmissionDeposit = 10 * HAVE * SUPPLY_FACTOR"

definition referendum_count :: "'w referenda_env \<Rightarrow> 'w \<Rightarrow> nat" where
  "referendum_count env w = ReferendumCount env w"

definition submission_deposit :: nat where "submission_deposit = SubmissionDeposit"

definition deciding_count :: "'w referenda_env \<Rightarrow> nat \<Rightarrow> 'w \<Rightarrow> nat" where
  "deciding_count env track_id w = DecidingCount env track_id w"

definition referendum_status :: "'w referenda_env \<Rightarrow> nat \<Rightarrow> 'w \<Rightarrow> evm_failure + nat" where
  "referendum_status env referendum_index w =
     (case ReferendumInfoFor env referendum_index w of
        None \<Rightarrow> Inl (EvmRevert ''referendum_index: Referendum does not exist for index'')
      | Some info \<Rightarrow> Inr (case info of
          Ongoing _ \<Rightarrow> 0 | Approved _ _ _ \<Rightarrow> 1 | Rejected _ _ _ \<Rightarrow> 2 | Cancelled _ _ _ \<Rightarrow> 3 | TimedOut _ _ _ \<Rightarrow> 4
        | Killed _ \<Rightarrow> 5))"

record closed_info =
  cr_status :: nat
  cr_end :: nat
  cr_submission_depositor :: H160
  cr_submission_deposit :: nat
  cr_decision_depositor :: H160
  cr_decision_deposit :: nat

definition deposit_or_zero :: "ref_deposit option \<Rightarrow> H160 \<times> nat" where
  "deposit_or_zero d = (case d of None \<Rightarrow> (0, 0) | Some d \<Rightarrow> (dep_who d, dep_amount d))"

definition get_closed_ref_info ::
  "nat \<Rightarrow> nat \<Rightarrow> ref_deposit option \<Rightarrow> ref_deposit option \<Rightarrow> closed_info" where
  "get_closed_ref_info status moment submission decision =
     \<lparr>cr_status = status, cr_end = moment,
      cr_submission_depositor = fst (deposit_or_zero submission), cr_submission_deposit = snd (deposit_or_zero submission),
      cr_decision_depositor = fst (deposit_or_zero decision), cr_decision_deposit = snd (deposit_or_zero decision)\<rparr>"

definition closed_referendum_info :: "'w referenda_env \<Rightarrow> nat \<Rightarrow> 'w \<Rightarrow> evm_failure + closed_info" where
  "closed_referendum_info env referendum_index w =
     (case ReferendumInfoFor env referendum_index w of
        None \<Rightarrow> Inl (EvmRevert ''referendum_index: Referendum does not exist for index'')
      | Some (Approved m sd dd) \<Rightarrow> Inr (get_closed_ref_info 1 m sd dd)
      | Some (Rejected m sd dd) \<Rightarrow> Inr (get_closed_ref_info 2 m sd dd)
      | Some (Cancelled m sd dd) \<Rightarrow> Inr (get_closed_ref_info 3 m sd dd)
      | Some (TimedOut m sd dd) \<Rightarrow> Inr (get_closed_ref_info 4 m sd dd)
      | Some _ \<Rightarrow> Inl (EvmRevert ''Referendum not closed''))"

definition killed_referendum_block :: "'w referenda_env \<Rightarrow> nat \<Rightarrow> 'w \<Rightarrow> evm_failure + nat" where
  "killed_referendum_block env referendum_index w =
     (case ReferendumInfoFor env referendum_index w of
        None \<Rightarrow> Inl (EvmRevert ''referendum_index: Referendum does not exist for index'')
      | Some (Killed b) \<Rightarrow> Inr b
      | Some _ \<Rightarrow> Inl (EvmRevert ''Referendum not killed''))"

record ongoing_info =
  or_track_id :: nat
  or_origin :: "byte list"
  or_proposal :: "byte list"
  or_enactment_type :: bool
  or_enactment_time :: nat
  or_submission_time :: nat
  or_submission_depositor :: H160
  or_submission_deposit :: nat
  or_decision_depositor :: H160
  or_decision_deposit :: nat
  or_deciding_since :: nat
  or_deciding_confirming_end :: nat
  or_ayes :: nat
  or_support :: nat
  or_approval :: nat
  or_in_queue :: bool
  or_alarm_time :: nat
  or_alarm_task_address :: "byte list"

definition ongoing_referendum_info :: "'w referenda_env \<Rightarrow> nat \<Rightarrow> 'w \<Rightarrow> evm_failure + ongoing_info" where
  "ongoing_referendum_info env referendum_index w =
     (case ReferendumInfoFor env referendum_index w of
        None \<Rightarrow> Inl (EvmRevert ''referendum_index: Referendum does not exist for index'')
      | Some (Ongoing info) \<Rightarrow>
          (let (enactment_type, enactment_time) = (case os_enactment info of DispatchAt x \<Rightarrow> (True, x) | DispatchAfter x \<Rightarrow> (False, x));
               (decision_depositor, decision_dep) = deposit_or_zero (os_decision_deposit info);
               (since, confirming_end) = (case os_deciding info of
                  Some (since, confirming) \<Rightarrow> (since, case confirming of Some c \<Rightarrow> c | None \<Rightarrow> 0) | None \<Rightarrow> (0, 0));
               (alarm_time, alarm_task) = (case os_alarm info of Some (t, a) \<Rightarrow> (t, a) | None \<Rightarrow> (0, []))
           in Inr
             \<lparr>or_track_id = os_track info, or_origin = os_origin info, or_proposal = os_proposal info,
              or_enactment_type = enactment_type, or_enactment_time = enactment_time,
              or_submission_time = os_submitted info,
              or_submission_depositor = dep_who (os_submission_deposit info),
              or_submission_deposit = dep_amount (os_submission_deposit info),
              or_decision_depositor = decision_depositor, or_decision_deposit = decision_dep,
              or_deciding_since = since, or_deciding_confirming_end = confirming_end, or_ayes = os_ayes info,
              or_support = os_support info, or_approval = os_approval info, or_in_queue = os_in_queue info,
              or_alarm_time = alarm_time, or_alarm_task_address = alarm_task\<rparr>)
      | Some _ \<Rightarrow> Inl (EvmRevert ''Referendum not ongoing''))"

definition place_decision_deposit ::
  "'w referenda_env \<Rightarrow> evm_context \<Rightarrow> nat \<Rightarrow> 'w \<Rightarrow> evm_failure + (ref_log \<times> 'w)" where
  "place_decision_deposit env ctx index w =
     (case dispatch_result (pallet_place_decision_deposit env (ctx_caller ctx) index w) of
        Inl e \<Rightarrow> Inl e
      | Inr w \<Rightarrow>
          (case ReferendumInfoFor env index w of
             Some (Ongoing info) \<Rightarrow>
               Inr (DecisionDepositPlaced index (ctx_caller ctx) (snd (deposit_or_zero (os_decision_deposit info))), w)
           | _ \<Rightarrow> Inl (EvmRevert ''index: Provided index is not an ongoing referendum'')))"

definition refundable_decision :: "referendum_info \<Rightarrow> H160 \<times> nat" where
  "refundable_decision info =
     (case info of
        Approved _ _ d \<Rightarrow> deposit_or_zero d | Rejected _ _ d \<Rightarrow> deposit_or_zero d
      | TimedOut _ _ d \<Rightarrow> deposit_or_zero d | Cancelled _ _ d \<Rightarrow> deposit_or_zero d | _ \<Rightarrow> (0, 0))"

definition refund_decision_deposit ::
  "'w referenda_env \<Rightarrow> evm_context \<Rightarrow> nat \<Rightarrow> 'w \<Rightarrow> evm_failure + (ref_log \<times> 'w)" where
  "refund_decision_deposit env ctx index w =
     (case ReferendumInfoFor env index w of
        None \<Rightarrow> Inl (EvmRevert ''index: Referendum index does not exist'')
      | Some info \<Rightarrow>
          (let (who, refunded) = refundable_decision info in
           case dispatch_result (pallet_refund_decision_deposit env (ctx_caller ctx) index w) of
             Inl e \<Rightarrow> Inl e
           | Inr w \<Rightarrow> Inr (DecisionDepositRefunded index who refunded, w)))"

definition refundable_submission :: "referendum_info \<Rightarrow> H160 \<times> nat" where
  "refundable_submission info =
     (case info of Approved _ s _ \<Rightarrow> deposit_or_zero s | Cancelled _ s _ \<Rightarrow> deposit_or_zero s | _ \<Rightarrow> (0, 0))"

definition refund_submission_deposit ::
  "'w referenda_env \<Rightarrow> evm_context \<Rightarrow> nat \<Rightarrow> 'w \<Rightarrow> evm_failure + (ref_log \<times> 'w)" where
  "refund_submission_deposit env ctx index w =
     (case ReferendumInfoFor env index w of
        None \<Rightarrow> Inl (EvmRevert ''index: Referendum index does not exist'')
      | Some info \<Rightarrow>
          (let (who, refunded) = refundable_submission info in
           case dispatch_result (pallet_refund_submission_deposit env (ctx_caller ctx) index w) of
             Inl e \<Rightarrow> Inl e
           | Inr w \<Rightarrow> Inr (SubmissionDepositRefunded index who refunded, w)))"

section \<open>Lemmas\<close>

text \<open>Padding is undone by trimming, unless the string itself ends in a zero.\<close>

lemma trim_pad:
  assumes "s \<noteq> []" "last s \<noteq> NUL"
  shows "trim_end_matches NUL (pad n s) = s"
proof -
  have "dropWhile (\<lambda>x. x = NUL) (replicate k NUL @ rev s) = rev s" for k
    using assms by (induction k) (cases s rule: rev_cases; simp)+
  then show ?thesis by (simp add: trim_end_matches_def pad_def)
qed

lemma utf8_pad: "list_all (\<lambda>c. of_char c < (128 :: nat)) s \<Longrightarrow> from_utf8 (pad n s) = Some (pad n s)"
  by (auto simp: from_utf8_def pad_def NUL_def list_all_iff)

lemma pad_inj:
  assumes "pad n s = pad n t" "s \<noteq> []" "last s \<noteq> NUL" "t \<noteq> []" "last t \<noteq> NUL"
  shows "s = t"
proof -
  have "s = trim_end_matches NUL (pad n s)" using trim_pad [OF assms(2,3)] by (rule sym)
  also have "\<dots> = trim_end_matches NUL (pad n t)" by (simp only: assms(1))
  also have "\<dots> = t" by (rule trim_pad [OF assms(4,5)])
  finally show ?thesis .
qed

text \<open>The names of the table.\<close>

definition track_names :: "string list" where
  "track_names = [''root'', ''whitelisted_caller'', ''general_admin'', ''referendum_canceller'', ''referendum_killer'',
     ''fast_general_admin'']"

lemma track_names_ok:
  assumes "s \<in> set track_names"
  shows "s \<noteq> []" "last s \<noteq> NUL" "list_all (\<lambda>c. of_char c < (128 :: nat)) s" "length s \<le> 20"
  using assms by (auto simp: track_names_def NUL_def)

lemma TRACKS_names: "map (\<lambda>t. (fst t, ti_name (snd t))) (TRACKS_DATA (pad n)) = zip [0..<6] (map (pad n) track_names)"
  by (simp add: TRACKS_DATA_def track_names_def upt_rec)

lemma track_has_origin_name:
  assumes "ti_name info = pad n s" "s \<in> set track_names"
  shows "track_has_origin og (i, info) \<longleftrightarrow> origin_from_str s = Some og"
  using assms track_names_ok [OF assms(2)]
  by (auto simp: track_has_origin_def utf8_pad trim_pad split: option.splits)

text \<open>A padded name is none of the names that origins are read from.\<close>

lemma padded_name_unknown:
  assumes "length s < n"
  shows "origin_from_str (pad n s) = None"
proof -
  have l: "last (pad n s) = NUL" using assms by (simp add: pad_def)
  have "pad n s \<noteq> t" if "last t \<noteq> NUL" for t using l that by metis
  then show ?thesis by (simp add: origin_from_str_def NUL_def)
qed

section \<open>Origins and tracks\<close>

text \<open>The origin that each track decides for.\<close>

fun track_of_origin :: "pallets_origin \<Rightarrow> nat option" where
  "track_of_origin RootOrg = Some 0"
| "track_of_origin (CustomOrg WhitelistedCaller) = Some 1"
| "track_of_origin (CustomOrg GeneralAdmin) = Some 2"
| "track_of_origin (CustomOrg ReferendumCanceller) = Some 3"
| "track_of_origin (CustomOrg ReferendumKiller) = Some 4"
| "track_of_origin (CustomOrg FastGeneralAdmin) = Some 5"
| "track_of_origin _ = None"

lemma find_by_name:
  assumes "\<And>t. t \<in> set ts \<Longrightarrow> P t \<longleftrightarrow> Q (ti_name (snd t))"
  shows "map_option fst (find P ts) = map_option fst (find (\<lambda>x. Q (snd x)) (map (\<lambda>t. (fst t, ti_name (snd t))) ts))"
  using assms by (induction ts) auto

lemma TRACKS_name_cases:
  assumes "t \<in> set (TRACKS_DATA (pad n))"
  obtains s where "s \<in> set track_names" "ti_name (snd t) = pad n s"
proof -
  have "map (\<lambda>t. ti_name (snd t)) (TRACKS_DATA (pad n)) = map (pad n) track_names"
    by (simp add: TRACKS_DATA_def track_names_def)
  then have "ti_name (snd t) \<in> pad n ` set track_names"
    using assms by (metis (no_types) image_eqI list.set_map)
  then show thesis using that by blast
qed

lemma root_name_only: "s \<in> set track_names \<Longrightarrow> pad n s = pad n ''root'' \<longleftrightarrow> s = ''root''"
  using pad_inj [of n s "''root''"] track_names_ok [of s] by (auto simp: NUL_def)

lemma track_for_root: "track_for (pad n) RootOrg = Some 0"
  by (simp add: TRACKS_DATA_def)

lemma track_has_origin_trim:
  assumes "t \<in> set (TRACKS_DATA (pad n))"
  shows "track_has_origin og t \<longleftrightarrow> origin_from_str (trim_end_matches NUL (ti_name (snd t))) = Some og"
proof -
  obtain s where s: "s \<in> set track_names" "ti_name (snd t) = pad n s" using TRACKS_name_cases [OF assms] .
  then show ?thesis
    using track_has_origin_name [of "snd t" n s og "fst t"] track_names_ok [OF s(1)] by (simp add: trim_pad)
qed

lemma find_in_zip:
  "map_option fst (find (\<lambda>x. Q (g (snd x))) (zip ks xs)) = map_option fst (find (\<lambda>x. Q (snd x)) (zip ks (map g xs)))"
  by (induction ks xs rule: list_induct2') auto

lemma track_name_origins:
  "map origin_from_str track_names
   = [None, Some WhitelistedCaller, Some GeneralAdmin, Some ReferendumCanceller, Some ReferendumKiller,
      Some FastGeneralAdmin]"
  by code_simp

lemma padded_name_origins:
  "map (\<lambda>s. origin_from_str (trim_end_matches NUL s)) (map (pad n) track_names) = map origin_from_str track_names"
  unfolding map_map by (rule map_cong [OF refl]) (simp add: trim_pad track_names_ok)

lemma track_for_custom: "track_for (pad n) (CustomOrg og) = track_of_origin (CustomOrg og)"
proof -
  have "track_for (pad n) (CustomOrg og)
      = map_option fst (find (\<lambda>x. origin_from_str (trim_end_matches NUL (snd x)) = Some og)
          (zip [0..<6] (map (pad n) track_names)))"
    unfolding track_for.simps TRACKS_names [symmetric] by (rule find_by_name) (rule track_has_origin_trim)
  also have "\<dots> = map_option fst (find (\<lambda>x. snd x = Some og) (zip [0..<6] (map origin_from_str track_names)))"
    unfolding padded_name_origins [of n, symmetric]
    by (rule find_in_zip [where g = "\<lambda>s. origin_from_str (trim_end_matches NUL s)" and Q = "\<lambda>x. x = Some og"])
  also have "\<dots> = track_of_origin (CustomOrg og)"
    unfolding track_name_origins by (cases og) (simp_all add: upt_rec)
  finally show ?thesis .
qed

lemma track_for_is: "track_for (pad n) og = track_of_origin og"
  by (cases og) (simp_all only: track_for_root track_for_custom track_for.simps(3-5) track_of_origin.simps)

lemma track_of_origin_inj: "track_of_origin og = Some i \<Longrightarrow> track_of_origin og' = Some i \<Longrightarrow> og = og'"
  by (cases og rule: track_of_origin.cases; cases og' rule: track_of_origin.cases) auto

lemma track_of_origin_None: "track_of_origin og = None \<longleftrightarrow> (\<exists>a. og = SignedOrg a) \<or> og = NoneOrg \<or> og = OtherOrg"
  by (cases og rule: track_of_origin.cases) auto

lemma track_of_origin_range: "(\<exists>og. track_of_origin og = Some i) \<longleftrightarrow> i < 6"
proof
  assume "i < 6"
  then have "i \<in> {0, 1, 2, 3, 4, 5}" by auto
  then show "\<exists>og. track_of_origin og = Some i"
    using track_of_origin.simps(1-6) by (elim insertE emptyE) metis+
next
  assume "\<exists>og. track_of_origin og = Some i"
  then obtain og where "track_of_origin og = Some i" ..
  then show "i < 6" by (cases og rule: track_of_origin.cases) auto
qed

lemma TRACKS_DATA_padded:
  assumes "zero_padded n sa" "20 \<le> n"
  shows "TRACKS_DATA sa = TRACKS_DATA (pad n)" "sa ''root'' = pad n ''root''"
  using assms by (simp_all add: zero_padded_def TRACKS_DATA_def)

lemma track_for_padded:
  assumes "zero_padded n sa" "20 \<le> n"
  shows "track_for sa og = track_of_origin og"
proof -
  have "track_for sa og = track_for (pad n) og" by (cases og) (simp_all add: TRACKS_DATA_padded [OF assms])
  then show ?thesis by (simp only: track_for_is)
qed

text \<open>C0. Origins and referendum tracks of the runtime correspond one to one: each origin has at most one track, two
  origins never share one, the origins without a track are the signed, the empty and those of other pallets, and every
  track of the table decides for some origin. The table is sorted by identifier, and a vote is locked at least as long
  as the proposal it approved waits before it is enacted.\<close>

theorem tracks_match_origins:
  assumes "zero_padded n sa" "20 \<le> n"
  shows
  "inj_on (track_for sa) {og. track_for sa og \<noteq> None}
   \<and> (\<forall>og. track_for sa og = None \<longleftrightarrow> (\<exists>a. og = SignedOrg a) \<or> og = NoneOrg \<or> og = OtherOrg)
   \<and> (\<forall>i. (\<exists>og. track_for sa og = Some i) \<longleftrightarrow> i \<in> set (map fst (TRACKS_DATA sa)))
   \<and> sorted_wrt (<) (map fst (TRACKS_DATA sa))
   \<and> list_all (\<lambda>t. min_enactment_period (snd t) \<le> VoteLockingPeriod) (TRACKS_DATA sa)"
  proof (intro conjI)
  show "inj_on (track_for sa) {og. track_for sa og \<noteq> None}"
    unfolding track_for_padded [OF assms] by (intro inj_onI) (use track_of_origin_inj in force)
  show "\<forall>og. track_for sa og = None \<longleftrightarrow> (\<exists>a. og = SignedOrg a) \<or> og = NoneOrg \<or> og = OtherOrg"
    unfolding track_for_padded [OF assms] using track_of_origin_None by blast
  show "\<forall>i. (\<exists>og. track_for sa og = Some i) \<longleftrightarrow> i \<in> set (map fst (TRACKS_DATA sa))"
    unfolding track_for_padded [OF assms] track_of_origin_range by (auto simp: TRACKS_DATA_def)
qed (simp_all add: TRACKS_DATA_def VoteLockingPeriod_def MINUTES_def HOURS_def DAYS_def)

lemma track_found:
  assumes "i < 6"
  shows "\<exists>t. find (\<lambda>t. fst t = i) (TRACKS_DATA (pad n)) = Some t \<and> ti_name (snd t) = pad n (track_names ! i)"
proof -
  have "i \<in> {0, 1, 2, 3, 4, 5}" using assms by auto
  then show ?thesis by (auto simp: TRACKS_DATA_def track_names_def)
qed

lemma custom_track_refused:
  assumes "zero_padded n (str_array env)" "20 < n" "i \<in> {1..5}"
  shows "track_id_to_origin env i = Inl (EvmRevert ''trackId: Custom origin does not exist for {track_info.name}'')"
proof -
  have i: "i < 6" "track_names ! i \<in> set track_names" "track_names ! i \<noteq> ''root''"
    using assms(3) by (auto simp: track_names_def nth_Cons')
  obtain t where t: "find (\<lambda>t. fst t = i) (TRACKS_DATA (pad n)) = Some t"
      "ti_name (snd t) = pad n (track_names ! i)"
    using track_found [OF i(1)] by blast
  have u: "origin_from_str (pad n (track_names ! i)) = None"
    using track_names_ok(4) [OF i(2)] assms(2) by (intro padded_name_unknown) simp
  show ?thesis
    using t u i(3) root_name_only [OF i(2)] utf8_pad [OF track_names_ok(3) [OF i(2)]]
    using TRACKS_DATA_padded [OF assms(1)] assms(2) by (simp add: track_id_to_origin_def)
qed

text \<open>C37. Through the precompile a referendum can be submitted on the root track only. For an array length that leaves
  room after the longest name, submitting on track 0 dispatches the pallet's call with the root origin, while every
  other track of the table is refused, although the pallet has an origin for it: the name is compared with its padding.\<close>

theorem precompile_submits_to_root_only:
  assumes "zero_padded n (str_array env)" "20 < n"
  shows "rf_submit env ctx 0 prop moment w =
           (case pallet_submit env (ctx_caller ctx) RootOrg prop moment w of
              None \<Rightarrow> Inl (EvmRevert ''Dispatched call failed'') | Some w' \<Rightarrow> Inr (ReferendumCount env w, w'))
     \<and> (i \<in> {1..5} \<longrightarrow> (\<exists>og. track_for (str_array env) og = Some i)
          \<and> rf_submit env ctx i prop moment w
            = Inl (EvmRevert ''trackId: Custom origin does not exist for {track_info.name}''))"
  proof (intro conjI impI)
  have "track_id_to_origin env 0 = Inr RootOrg" by (simp add: track_id_to_origin_def TRACKS_DATA_def)
  then show "rf_submit env ctx 0 prop moment w =
      (case pallet_submit env (ctx_caller ctx) RootOrg prop moment w of
         None \<Rightarrow> Inl (EvmRevert ''Dispatched call failed'') | Some w' \<Rightarrow> Inr (ReferendumCount env w, w'))"
    by (simp add: rf_submit_def dispatch_result_def split: option.splits)
next
  assume i: "i \<in> {1..5}"
  then show "\<exists>og. track_for (str_array env) og = Some i" 
    using track_for_padded [OF assms(1)] assms(2) by (simp add: track_of_origin_range)
  show "rf_submit env ctx i prop moment w
      = Inl (EvmRevert ''trackId: Custom origin does not exist for {track_info.name}'')"
    using custom_track_refused [OF assms i] by (simp add: rf_submit_def)
qed

definition ref_sample :: "nat referenda_env" where
  "ref_sample = \<lparr>str_array = pad 25, ReferendumCount = (\<lambda>w. w), DecidingCount = (\<lambda>_ _. 0), ReferendumInfoFor = (\<lambda>_ _. None),
     pallet_submit = (\<lambda>_ _ _ _ w. Some (w + 1)), pallet_place_decision_deposit = (\<lambda>_ _ _. None),
     pallet_refund_decision_deposit = (\<lambda>_ _ _. None), pallet_refund_submission_deposit = (\<lambda>_ _ _. None)\<rparr>"

theorem tracks_match_origins_witness:
  "zero_padded 25 (pad 25) \<and> inj_on (track_for (pad 25)) {og. track_for (pad 25) og \<noteq> None}
   \<and> (\<exists>og. track_for (pad 25) og = Some 3)"
proof -
  have p: "zero_padded 25 (pad 25)" by (simp add: zero_padded_def)
  have n: "20 \<le> (25 :: nat)" by simp
  have "3 \<in> set (map fst (TRACKS_DATA (pad 25)))" by (simp add: TRACKS_DATA_def)
  then show ?thesis using p tracks_match_origins [OF p n] by blast
qed

theorem precompile_submits_to_root_only_witness:
  "zero_padded 25 (str_array ref_sample)
   \<and> rf_submit ref_sample \<lparr>ctx_address = 1, ctx_caller = 2, ctx_apparent_value = 0\<rparr> 0 (7, 32) (DispatchAfter 10) 4 = Inr (4, 5)
   \<and> rf_submit ref_sample \<lparr>ctx_address = 1, ctx_caller = 2, ctx_apparent_value = 0\<rparr> 2 (7, 32) (DispatchAfter 10) 4
     = Inl (EvmRevert ''trackId: Custom origin does not exist for {track_info.name}'')"
  using precompile_submits_to_root_only
    [of 25 ref_sample "\<lparr>ctx_address = 1, ctx_caller = 2, ctx_apparent_value = 0\<rparr>" "(7, 32)" "DispatchAfter 10" 4 2]
  by (simp add: ref_sample_def zero_padded_def)

end
