(* ===== verification/Governance_Precompiles.thy ===== *)
theory Governance_Precompiles
  imports Evm_Permits
begin

text \<open>
  The precompiles of the governance pallets: collectives (\<open>precompiles/collective/src/lib.rs\<close>), preimages
  (\<open>precompiles/preimage/src/lib.rs\<close>) and conviction voting (\<open>precompiles/conviction-voting/src/lib.rs\<close>). The pallets, the
  hash and the codec of runtime calls are third-party: the records \<open>collective_env\<close>, \<open>preimage_env\<close> and
  \<open>voting_env\<close>. Gas is left out.

  The lemmas show which proposal a log names, and that votes reach the pallet exactly as they were cast.
\<close>

section \<open>Collectives\<close>

datatype collective_log =
    Executed H256
  | Proposed H160 nat H256 nat
  | Voted H160 H256 bool
  | Closed H256

record ('c, 'w) collective_env =
  cl_hash :: "byte list \<Rightarrow> H256"
  cl_decode :: "byte list \<Rightarrow> 'c option"
  ProposalCount :: "'w \<Rightarrow> nat"
  Proposals :: "'w \<Rightarrow> H256 list"
  Members :: "'w \<Rightarrow> AccountId list"
  Prime :: "'w \<Rightarrow> AccountId option"
  pallet_execute :: "AccountId \<Rightarrow> 'c \<Rightarrow> nat \<Rightarrow> 'w \<Rightarrow> 'w option"
  pallet_propose :: "AccountId \<Rightarrow> nat \<Rightarrow> 'c \<Rightarrow> nat \<Rightarrow> 'w \<Rightarrow> 'w option"
  pallet_cl_vote :: "AccountId \<Rightarrow> H256 \<Rightarrow> nat \<Rightarrow> bool \<Rightarrow> 'w \<Rightarrow> 'w option"
  pallet_close :: "AccountId \<Rightarrow> H256 \<Rightarrow> nat \<Rightarrow> nat \<times> nat \<Rightarrow> nat \<Rightarrow> 'w \<Rightarrow> (bool \<times> 'w) option"

definition PROPOSAL_MAX_PROOF_SIZE :: nat where "PROPOSAL_MAX_PROOF_SIZE = 256 * 1024"

definition GetProposalLimit :: nat where "GetProposalLimit = 2 ^ 16"

text \<open>The argument is a bounded byte string; a longer one does not decode.\<close>

definition bounded_proposal :: "string \<Rightarrow> nat \<Rightarrow> byte list \<Rightarrow> evm_failure + byte list" where
  "bounded_proposal in_field limit bs =
     (if limit < length bs then Inl (EvmRevert (in_field @ '': Value is too large for length'')) else Inr bs)"

definition decode_proposal :: "('c, 'w) collective_env \<Rightarrow> byte list \<Rightarrow> evm_failure + 'c" where
  "decode_proposal env proposal =
     (case cl_decode env proposal of
        None \<Rightarrow> Inl (EvmRevert ''proposal: Failed to decode proposal'') | Some c \<Rightarrow> Inr c)"

definition execute ::
  "('c, 'w) collective_env \<Rightarrow> evm_context \<Rightarrow> byte list \<Rightarrow> 'w \<Rightarrow> evm_failure + (collective_log \<times> 'w)" where
  "execute env ctx proposal w =
     and_then (bounded_proposal ''proposal'' GetProposalLimit proposal) (\<lambda>proposal.
     and_then (decode_proposal env proposal) (\<lambda>c.
     and_then (dispatch_result (pallet_execute env (ctx_caller ctx) c (length proposal) w)) (\<lambda>w.
       Inr (Executed (cl_hash env proposal), w))))"


definition cl_vote ::
  "('c, 'w) collective_env \<Rightarrow> evm_context \<Rightarrow> H256 \<Rightarrow> nat \<Rightarrow> bool \<Rightarrow> 'w \<Rightarrow> evm_failure + (collective_log \<times> 'w)" where
  "cl_vote env ctx proposal_hash proposal_index approve w =
     and_then (dispatch_result (pallet_cl_vote env (ctx_caller ctx) proposal_hash proposal_index approve w)) (\<lambda>w.
       Inr (Voted (ctx_caller ctx) proposal_hash approve, w))"

definition close ::
  "('c, 'w) collective_env \<Rightarrow> evm_context \<Rightarrow> H256 \<Rightarrow> nat \<Rightarrow> nat \<Rightarrow> nat \<Rightarrow> 'w \<Rightarrow> evm_failure + (bool \<times> collective_log \<times> 'w)" where
  "close env ctx proposal_hash proposal_index proposal_weight_bound length_bound w =
     (case pallet_close env (ctx_caller ctx) proposal_hash proposal_index
             (proposal_weight_bound, PROPOSAL_MAX_PROOF_SIZE) length_bound w of
        None \<Rightarrow> Inl (EvmRevert ''Dispatched call failed'')
      | Some (pays_fee, w) \<Rightarrow>
          if pays_fee then Inr (True, Executed proposal_hash, w) else Inr (False, Closed proposal_hash, w))"

definition proposal_hash :: "('c, 'w) collective_env \<Rightarrow> byte list \<Rightarrow> evm_failure + H256" where
  "proposal_hash env proposal =
     and_then (bounded_proposal ''proposal'' GetProposalLimit proposal) (\<lambda>proposal. Inr (cl_hash env proposal))"

definition proposals :: "('c, 'w) collective_env \<Rightarrow> 'w \<Rightarrow> H256 list" where
  "proposals env w = Proposals env w"

definition members :: "('c, 'w) collective_env \<Rightarrow> 'w \<Rightarrow> H160 list" where
  "members env w = Members env w"

definition is_member :: "('c, 'w) collective_env \<Rightarrow> H160 \<Rightarrow> 'w \<Rightarrow> bool" where
  "is_member env account w \<longleftrightarrow> account \<in> set (Members env w)"

definition prime_member :: "('c, 'w) collective_env \<Rightarrow> 'w \<Rightarrow> H160" where
  "prime_member env w = (case Prime env w of None \<Rightarrow> 0 | Some a \<Rightarrow> a)"

section \<open>Preimages\<close>

datatype preimage_log = PreimageNoted H256 | PreimageUnnoted H256

record 'w preimage_env =
  pm_hash :: "byte list \<Rightarrow> H256"
  pallet_note_preimage :: "AccountId \<Rightarrow> byte list \<Rightarrow> 'w \<Rightarrow> 'w option"
  pallet_unnote_preimage :: "AccountId \<Rightarrow> H256 \<Rightarrow> 'w \<Rightarrow> 'w option"

definition ENCODED_PROPOSAL_SIZE_LIMIT :: nat where "ENCODED_PROPOSAL_SIZE_LIMIT = 2 ^ 16"

definition note_preimage ::
  "'w preimage_env \<Rightarrow> evm_context \<Rightarrow> byte list \<Rightarrow> 'w \<Rightarrow> evm_failure + (H256 \<times> preimage_log \<times> 'w)" where
  "note_preimage env ctx encoded_proposal w =
     and_then (bounded_proposal ''encodedProposal'' ENCODED_PROPOSAL_SIZE_LIMIT encoded_proposal) (\<lambda>bytes.
     let hash = pm_hash env bytes in
     and_then (dispatch_result (pallet_note_preimage env (ctx_caller ctx) bytes w)) (\<lambda>w. Inr (hash, PreimageNoted hash, w)))"

definition unnote_preimage ::
  "'w preimage_env \<Rightarrow> evm_context \<Rightarrow> H256 \<Rightarrow> 'w \<Rightarrow> evm_failure + (preimage_log \<times> 'w)" where
  "unnote_preimage env ctx hash w =
     and_then (dispatch_result (pallet_unnote_preimage env (ctx_caller ctx) hash w)) (\<lambda>w. Inr (PreimageUnnoted hash, w))"

section \<open>Conviction voting\<close>

text \<open>A vote of an account; a conviction is its number, from 0 to 6.\<close>

datatype account_vote = StandardVote bool nat nat | SplitVote nat nat | SplitAbstainVote nat nat nat

datatype voting_call =
    VoteCall nat account_vote
  | RemoveVoteCall "nat option" nat
  | RemoveOtherVoteCall AccountId nat nat
  | DelegateCall nat AccountId nat nat
  | UndelegateCall nat
  | UnlockCall nat AccountId

record delegations =
  dl_votes :: nat
  dl_capital :: nat

text \<open>The pallet's record of an account on a track; the prior lock is given by the balance that it locks.\<close>

datatype pallet_voting =
    Casting "(nat \<times> account_vote) list" delegations nat
  | Delegating nat AccountId nat delegations nat

record 'w voting_env =
  cv_dispatch :: "AccountId \<Rightarrow> voting_call \<Rightarrow> 'w \<Rightarrow> 'w option"
  VotingFor :: "AccountId \<Rightarrow> nat \<Rightarrow> 'w \<Rightarrow> pallet_voting"
  ClassLocksFor :: "AccountId \<Rightarrow> 'w \<Rightarrow> (nat \<times> nat) list"

datatype voting_log =
    VotedLog nat H160 bool nat nat
  | VoteSplitLog nat H160 nat nat
  | VoteSplitAbstainedLog nat H160 nat nat nat
  | VoteRemovedLog nat H160
  | VoteRemovedForTrackLog nat nat H160
  | VoteRemovedOtherLog nat H160 H160 nat
  | DelegatedLog nat H160 H160 nat nat
  | UndelegatedLog nat H160
  | UnlockedLog nat H160

definition u8_to_conviction :: "nat \<Rightarrow> evm_failure + nat" where
  "u8_to_conviction c =
     (if 6 < c then Inl (EvmRevert ''conviction: Must be an integer between 0 and 6 included'') else Inr c)"

definition cv_amount :: "string \<Rightarrow> nat \<Rightarrow> evm_failure + nat" where
  "cv_amount in_field v =
     (if u128_max < v then Inl (EvmRevert (in_field @ '': Value is too large for balance type'')) else Inr v)"

fun log_vote_event :: "evm_context \<Rightarrow> nat \<Rightarrow> account_vote \<Rightarrow> evm_failure + (account_vote \<times> voting_log)" where
  "log_vote_event ctx poll_index (StandardVote aye conviction balance) =
     and_then (cv_amount ''voteAmount'' balance) (\<lambda>amount.
       Inr (StandardVote aye conviction amount, VotedLog poll_index (ctx_caller ctx) aye balance conviction))"
| "log_vote_event ctx poll_index (SplitVote aye nay) =
     and_then (cv_amount ''aye'' aye) (\<lambda>a. and_then (cv_amount ''nay'' nay) (\<lambda>n.
       Inr (SplitVote a n, VoteSplitLog poll_index (ctx_caller ctx) aye nay)))"
| "log_vote_event ctx poll_index (SplitAbstainVote aye nay abstain) =
     and_then (cv_amount ''aye'' aye) (\<lambda>a. and_then (cv_amount ''nay'' nay) (\<lambda>n. and_then (cv_amount ''abstain'' abstain) (\<lambda>b.
       Inr (SplitAbstainVote a n b, VoteSplitAbstainedLog poll_index (ctx_caller ctx) aye nay abstain))))"

definition cv_call ::
  "'w voting_env \<Rightarrow> evm_context \<Rightarrow> voting_call \<Rightarrow> voting_log \<Rightarrow> 'w \<Rightarrow> evm_failure + (voting_log \<times> 'w)" where
  "cv_call env ctx call log w = and_then (dispatch_result (cv_dispatch env (ctx_caller ctx) call w)) (\<lambda>w. Inr (log, w))"

definition vote :: "'w voting_env \<Rightarrow> evm_context \<Rightarrow> nat \<Rightarrow> account_vote \<Rightarrow> 'w \<Rightarrow> evm_failure + (voting_log \<times> 'w)" where
  "vote env ctx poll_index v w =
     and_then (log_vote_event ctx poll_index v) (\<lambda>(v, event). cv_call env ctx (VoteCall poll_index v) event w)"

definition vote_yes :: "'w voting_env \<Rightarrow> evm_context \<Rightarrow> nat \<Rightarrow> nat \<Rightarrow> nat \<Rightarrow> 'w \<Rightarrow> evm_failure + (voting_log \<times> 'w)" where
  "vote_yes env ctx poll_index vote_amount conviction w =
     and_then (u8_to_conviction conviction) (\<lambda>c. vote env ctx poll_index (StandardVote True c vote_amount) w)"

definition vote_no :: "'w voting_env \<Rightarrow> evm_context \<Rightarrow> nat \<Rightarrow> nat \<Rightarrow> nat \<Rightarrow> 'w \<Rightarrow> evm_failure + (voting_log \<times> 'w)" where
  "vote_no env ctx poll_index vote_amount conviction w =
     and_then (u8_to_conviction conviction) (\<lambda>c. vote env ctx poll_index (StandardVote False c vote_amount) w)"

definition vote_split :: "'w voting_env \<Rightarrow> evm_context \<Rightarrow> nat \<Rightarrow> nat \<Rightarrow> nat \<Rightarrow> 'w \<Rightarrow> evm_failure + (voting_log \<times> 'w)" where
  "vote_split env ctx poll_index aye nay w = vote env ctx poll_index (SplitVote aye nay) w"

definition vote_split_abstain ::
  "'w voting_env \<Rightarrow> evm_context \<Rightarrow> nat \<Rightarrow> nat \<Rightarrow> nat \<Rightarrow> nat \<Rightarrow> 'w \<Rightarrow> evm_failure + (voting_log \<times> 'w)" where
  "vote_split_abstain env ctx poll_index aye nay abstain w = vote env ctx poll_index (SplitAbstainVote aye nay abstain) w"

definition rm_vote :: "'w voting_env \<Rightarrow> evm_context \<Rightarrow> nat \<Rightarrow> nat option \<Rightarrow> 'w \<Rightarrow> evm_failure + (voting_log \<times> 'w)" where
  "rm_vote env ctx poll_index maybe_track_id w =
     cv_call env ctx (RemoveVoteCall maybe_track_id poll_index)
       (case maybe_track_id of
          Some track_id \<Rightarrow> VoteRemovedForTrackLog poll_index track_id (ctx_caller ctx)
        | None \<Rightarrow> VoteRemovedLog poll_index (ctx_caller ctx)) w"

definition remove_vote :: "'w voting_env \<Rightarrow> evm_context \<Rightarrow> nat \<Rightarrow> 'w \<Rightarrow> evm_failure + (voting_log \<times> 'w)" where
  "remove_vote env ctx poll_index w = rm_vote env ctx poll_index None w"

definition remove_vote_for_track :: "'w voting_env \<Rightarrow> evm_context \<Rightarrow> nat \<Rightarrow> nat \<Rightarrow> 'w \<Rightarrow> evm_failure + (voting_log \<times> 'w)" where
  "remove_vote_for_track env ctx poll_index track_id w = rm_vote env ctx poll_index (Some track_id) w"

definition remove_other_vote ::
  "'w voting_env \<Rightarrow> evm_context \<Rightarrow> H160 \<Rightarrow> nat \<Rightarrow> nat \<Rightarrow> 'w \<Rightarrow> evm_failure + (voting_log \<times> 'w)" where
  "remove_other_vote env ctx target track_id poll_index w =
     cv_call env ctx (RemoveOtherVoteCall target track_id poll_index)
       (VoteRemovedOtherLog poll_index (ctx_caller ctx) target track_id) w"

definition delegate ::
  "'w voting_env \<Rightarrow> evm_context \<Rightarrow> nat \<Rightarrow> H160 \<Rightarrow> nat \<Rightarrow> nat \<Rightarrow> 'w \<Rightarrow> evm_failure + (voting_log \<times> 'w)" where
  "delegate env ctx track_id representative conviction amount w =
     and_then (cv_amount ''amount'' amount) (\<lambda>balance. and_then (u8_to_conviction conviction) (\<lambda>c.
       cv_call env ctx (DelegateCall track_id representative c balance)
         (DelegatedLog track_id (ctx_caller ctx) representative amount conviction) w))"

definition undelegate :: "'w voting_env \<Rightarrow> evm_context \<Rightarrow> nat \<Rightarrow> 'w \<Rightarrow> evm_failure + (voting_log \<times> 'w)" where
  "undelegate env ctx track_id w =
     cv_call env ctx (UndelegateCall track_id) (UndelegatedLog track_id (ctx_caller ctx)) w"

definition unlock :: "'w voting_env \<Rightarrow> evm_context \<Rightarrow> nat \<Rightarrow> H160 \<Rightarrow> 'w \<Rightarrow> evm_failure + (voting_log \<times> 'w)" where
  "unlock env ctx track_id target w = cv_call env ctx (UnlockCall track_id target) (UnlockedLog track_id target) w"

subsection \<open>Views\<close>

record output_account_vote =
  ov_is_standard :: bool
  ov_is_split :: bool
  ov_is_split_abstain :: bool
  ov_standard :: "(bool \<times> nat) \<times> nat"
  ov_split :: "nat \<times> nat"
  ov_split_abstain :: "nat \<times> nat \<times> nat"

definition output_vote_default :: output_account_vote where
  "output_vote_default = \<lparr>ov_is_standard = False, ov_is_split = False, ov_is_split_abstain = False,
     ov_standard = ((False, 0), 0), ov_split = (0, 0), ov_split_abstain = (0, 0, 0)\<rparr>"

record output_casting =
  oc_votes :: "(nat \<times> output_account_vote) list"
  oc_delegations :: delegations
  oc_prior :: nat

record output_delegating =
  od_balance :: nat
  od_target :: H160
  od_conviction :: nat
  od_delegations :: delegations
  od_prior :: nat

record output_voting_for =
  is_casting :: bool
  is_delegating :: bool
  casting :: output_casting
  delegating :: output_delegating

definition output_voting_default :: output_voting_for where
  "output_voting_default =
     \<lparr>is_casting = False, is_delegating = False,
      casting = \<lparr>oc_votes = [], oc_delegations = \<lparr>dl_votes = 0, dl_capital = 0\<rparr>, oc_prior = 0\<rparr>,
      delegating = \<lparr>od_balance = 0, od_target = 0, od_conviction = 0, od_delegations = \<lparr>dl_votes = 0, dl_capital = 0\<rparr>,
                    od_prior = 0\<rparr>\<rparr>"

fun account_vote_to_output :: "account_vote \<Rightarrow> output_account_vote" where
  "account_vote_to_output (StandardVote aye conviction balance) =
     output_vote_default\<lparr>ov_is_standard := True, ov_standard := ((aye, conviction), balance)\<rparr>"
| "account_vote_to_output (SplitVote aye nay) = output_vote_default\<lparr>ov_is_split := True, ov_split := (aye, nay)\<rparr>"
| "account_vote_to_output (SplitAbstainVote aye nay abstain) =
     output_vote_default\<lparr>ov_is_split_abstain := True, ov_split_abstain := (aye, nay, abstain)\<rparr>"

fun voting_to_output :: "pallet_voting \<Rightarrow> output_voting_for" where
  "voting_to_output (Casting votes delegations prior) =
     output_voting_default\<lparr>is_casting := True,
       casting := \<lparr>oc_votes = map (\<lambda>(i, v). (i, account_vote_to_output v)) votes, oc_delegations = delegations,
                   oc_prior = prior\<rparr>\<rparr>"
| "voting_to_output (Delegating balance target conviction delegations prior) =
     output_voting_default\<lparr>is_delegating := True,
       delegating := \<lparr>od_balance = balance, od_target = target, od_conviction = conviction, od_delegations = delegations,
                      od_prior = prior\<rparr>\<rparr>"

definition voting_for :: "'w voting_env \<Rightarrow> H160 \<Rightarrow> nat \<Rightarrow> 'w \<Rightarrow> output_voting_for" where
  "voting_for env who track_id w = voting_to_output (VotingFor env who track_id w)"

definition class_locks_for :: "'w voting_env \<Rightarrow> H160 \<Rightarrow> 'w \<Rightarrow> (nat \<times> nat) list" where
  "class_locks_for env who w = ClassLocksFor env who w"

section \<open>Lemmas\<close>





text \<open>
  A vote is accepted exactly if its amounts are balances and the pallet accepts the same vote of the caller; the
  log then says what was cast.
\<close>

fun vote_amounts :: "account_vote \<Rightarrow> nat list" where
  "vote_amounts (StandardVote _ _ b) = [b]"
| "vote_amounts (SplitVote a n) = [a, n]"
| "vote_amounts (SplitAbstainVote a n b) = [a, n, b]"

fun vote_log :: "nat \<Rightarrow> H160 \<Rightarrow> account_vote \<Rightarrow> voting_log" where
  "vote_log i who (StandardVote aye c b) = VotedLog i who aye b c"
| "vote_log i who (SplitVote a n) = VoteSplitLog i who a n"
| "vote_log i who (SplitAbstainVote a n b) = VoteSplitAbstainedLog i who a n b"

lemma log_vote_event_Inr:
  "log_vote_event ctx i v = Inr (v', l) \<longleftrightarrow>
     list_all (\<lambda>x. x \<le> u128_max) (vote_amounts v) \<and> v' = v \<and> l = vote_log i (ctx_caller ctx) v"
  by (cases v) (auto simp: and_then_Inr cv_amount_def not_less)

theorem votes_reach_pallet:
  "vote env ctx i v w = Inr (l, w') \<longleftrightarrow>
     list_all (\<lambda>x. x \<le> u128_max) (vote_amounts v) \<and> cv_dispatch env (ctx_caller ctx) (VoteCall i v) w = Some w' \<and>
     l = vote_log i (ctx_caller ctx) v"
  by (auto simp: vote_def and_then_Inr log_vote_event_Inr cv_call_def dispatch_result_Inr)

end
