(* ===== verification/Identity_Precompile.thy ===== *)
theory Identity_Precompile
  imports Evm_Permits
begin

text \<open>
  The precompile of the identity pallet, \<open>precompiles/identity/src/lib.rs\<close>: the structures of its Solidity
  interface, their conversion to and from those of the pallet, its calls and its views. The pallet is third-party:
  its data types keep their documented constructors, its calls are values of \<open>identity_call\<close> that the
  record \<open>identity_env\<close> dispatches, and the bit that stands for each identity field is a parameter. Gas is left out.

  The lemmas show that what goes in through the calls comes out of the views.
\<close>

unbundle bit_operations_syntax

section \<open>Structures\<close>

text \<open>Those of the interface.\<close>

record sol_data =
  has_data :: bool
  data_value :: "byte list"

definition sol_data_default :: sol_data where "sol_data_default = \<lparr>has_data = False, data_value = []\<rparr>"

record identity_info =
  ii_additional :: "(sol_data \<times> sol_data) list"
  ii_display :: sol_data
  ii_legal :: sol_data
  ii_web :: sol_data
  ii_riot :: sol_data
  ii_email :: sol_data
  ii_has_pgp_fingerprint :: bool
  ii_pgp_fingerprint :: "byte list"
  ii_image :: sol_data
  ii_twitter :: sol_data

definition identity_info_default :: identity_info where
  "identity_info_default =
     \<lparr>ii_additional = [], ii_display = sol_data_default, ii_legal = sol_data_default, ii_web = sol_data_default,
      ii_riot = sol_data_default, ii_email = sol_data_default, ii_has_pgp_fingerprint = False, ii_pgp_fingerprint = [],
      ii_image = sol_data_default, ii_twitter = sol_data_default\<rparr>"

record sol_judgement =
  is_unknown :: bool
  is_fee_paid :: bool
  fee_paid_deposit :: nat
  is_reasonable :: bool
  is_known_good :: bool
  is_out_of_date :: bool
  is_low_quality :: bool
  is_erroneous :: bool

definition sol_judgement_default :: sol_judgement where
  "sol_judgement_default = \<lparr>is_unknown = False, is_fee_paid = False, fee_paid_deposit = 0, is_reasonable = False,
     is_known_good = False, is_out_of_date = False, is_low_quality = False, is_erroneous = False\<rparr>"

record sol_registration =
  rg_is_valid :: bool
  rg_judgements :: "(nat \<times> sol_judgement) list"
  rg_deposit :: nat
  rg_info :: identity_info

definition sol_registration_default :: sol_registration where
  "sol_registration_default = \<lparr>rg_is_valid = False, rg_judgements = [], rg_deposit = 0, rg_info = identity_info_default\<rparr>"

record sol_super_of =
  so_is_valid :: bool
  so_account :: H160
  so_data :: sol_data

record identity_fields =
  if_display :: bool
  if_legal :: bool
  if_web :: bool
  if_riot :: bool
  if_email :: bool
  if_pgp_fingerprint :: bool
  if_image :: bool
  if_twitter :: bool

record sol_registrar =
  sr_is_valid :: bool
  sr_index :: nat
  sr_account :: H160
  sr_fee :: nat
  sr_fields :: identity_fields

text \<open>Those of the pallet.\<close>

datatype id_data =
    DataNone | DataRaw "byte list" | DataBlakeTwo256 "byte list" | DataSha256 "byte list"
  | DataKeccak256 "byte list" | DataShaThree256 "byte list"

record pallet_info =
  pi_additional :: "(id_data \<times> id_data) list"
  pi_display :: id_data
  pi_legal :: id_data
  pi_web :: id_data
  pi_riot :: id_data
  pi_email :: id_data
  pi_pgp_fingerprint :: "byte list option"
  pi_image :: id_data
  pi_twitter :: id_data

datatype judgement =
  JUnknown | JFeePaid nat | JReasonable | JKnownGood | JOutOfDate | JLowQuality | JErroneous

record pallet_registration =
  pr_judgements :: "(nat \<times> judgement) list"
  pr_deposit :: nat
  pr_info :: pallet_info

record registrar_info =
  ri_account :: AccountId
  ri_fee :: nat
  ri_fields :: "64 word"

datatype identity_call =
    SetIdentity pallet_info
  | SetSubs "(AccountId \<times> id_data) list"
  | ClearIdentity
  | RequestJudgement nat nat
  | CancelRequest nat
  | SetFee nat nat
  | SetAccountId nat AccountId
  | SetFields nat "64 word"
  | ProvideJudgement nat AccountId judgement H256
  | AddSub AccountId id_data
  | RenameSub AccountId id_data
  | RemoveSub AccountId
  | QuitSub

datatype id_field = FDisplay | FLegal | FWeb | FRiot | FEmail | FPgpFingerprint | FImage | FTwitter

record 'w identity_env =
  id_dispatch :: "AccountId \<Rightarrow> identity_call \<Rightarrow> 'w \<Rightarrow> 'w option"
  IdentityOf :: "AccountId \<Rightarrow> 'w \<Rightarrow> pallet_registration option"
  SuperOf :: "AccountId \<Rightarrow> 'w \<Rightarrow> (AccountId \<times> id_data) option"
  SubsOf :: "AccountId \<Rightarrow> 'w \<Rightarrow> nat \<times> AccountId list"
  Registrars :: "'w \<Rightarrow> registrar_info option list"
  MaxAdditionalFields :: nat
  field_bit :: "id_field \<Rightarrow> 64 word"

datatype identity_log =
    IdentitySet H160
  | IdentityCleared H160
  | JudgementRequested H160 nat
  | JudgementUnrequested H160 nat
  | JudgementGiven H160 nat
  | SubIdentityAdded H160 H160
  | SubIdentityRemoved H160 H160
  | SubIdentityRevoked H160

section \<open>Conversions\<close>

fun show_nat :: "nat \<Rightarrow> string" where
  "show_nat n = (if n < 10 then [char_of (48 + n)] else show_nat (n div 10) @ [char_of (48 + n mod 10)])"

declare show_nat.simps [simp del]

definition data_try_from :: "string \<Rightarrow> sol_data \<Rightarrow> evm_failure + id_data" where
  "data_try_from in_field v =
     (if \<not> has_data v then Inr DataNone
      else if 32 < length (data_value v) then Inl (EvmRevert (in_field @ '': exceeded bounds''))
      else Inr (DataRaw (data_value v)))"

fun data_to_output :: "id_data \<Rightarrow> sol_data" where
  "data_to_output DataNone = sol_data_default"
| "data_to_output (DataRaw bytes) = \<lparr>has_data = True, data_value = bytes\<rparr>"
| "data_to_output (DataBlakeTwo256 bytes) = \<lparr>has_data = True, data_value = bytes\<rparr>"
| "data_to_output (DataSha256 bytes) = \<lparr>has_data = True, data_value = bytes\<rparr>"
| "data_to_output (DataKeccak256 bytes) = \<lparr>has_data = True, data_value = bytes\<rparr>"
| "data_to_output (DataShaThree256 bytes) = \<lparr>has_data = True, data_value = bytes\<rparr>"

fun additional_loop ::
  "nat \<Rightarrow> nat \<Rightarrow> (sol_data \<times> sol_data) list \<Rightarrow> (id_data \<times> id_data) list \<Rightarrow> evm_failure + (id_data \<times> id_data) list" where
  "additional_loop bound i [] additional = Inr additional"
| "additional_loop bound i ((k, v) # rest) additional =
     and_then (data_try_from (''additional.'' @ show_nat i @ ''.key'') k) (\<lambda>k.
     and_then (data_try_from (''additional.'' @ show_nat i @ ''.value'') v) (\<lambda>v.
       if bound \<le> length additional then Inl (EvmRevert ''additional: out of bounds'')
       else additional_loop bound (i + 1) rest (additional @ [(k, v)])))"

definition identity_to_input :: "nat \<Rightarrow> identity_info \<Rightarrow> evm_failure + pallet_info" where
  "identity_to_input max_additional info =
     and_then (additional_loop max_additional 0 (ii_additional info) []) (\<lambda>additional.
     and_then
       (if ii_has_pgp_fingerprint info then
          if length (ii_pgp_fingerprint info) \<noteq> 20 then Inl (EvmRevert ''pgp_fingerprint must be 20 bytes long'')
          else Inr (Some (ii_pgp_fingerprint info))
        else Inr None) (\<lambda>pgp_fingerprint.
     and_then (data_try_from ''display'' (ii_display info)) (\<lambda>display.
     and_then (data_try_from ''legal'' (ii_legal info)) (\<lambda>legal.
     and_then (data_try_from ''web'' (ii_web info)) (\<lambda>web.
     and_then (data_try_from ''riot'' (ii_riot info)) (\<lambda>riot.
     and_then (data_try_from ''email'' (ii_email info)) (\<lambda>email.
     and_then (data_try_from ''image'' (ii_image info)) (\<lambda>img.
     and_then (data_try_from ''twitter'' (ii_twitter info)) (\<lambda>twitter.
       Inr \<lparr>pi_additional = additional, pi_display = display, pi_legal = legal, pi_web = web, pi_riot = riot,
            pi_email = email, pi_pgp_fingerprint = pgp_fingerprint, pi_image = img, pi_twitter = twitter\<rparr>)))))))))"

fun judgement_to_output :: "judgement \<Rightarrow> sol_judgement" where
  "judgement_to_output JUnknown = sol_judgement_default\<lparr>is_unknown := True\<rparr>"
| "judgement_to_output (JFeePaid balance) = sol_judgement_default\<lparr>is_fee_paid := True, fee_paid_deposit := balance\<rparr>"
| "judgement_to_output JReasonable = sol_judgement_default\<lparr>is_reasonable := True\<rparr>"
| "judgement_to_output JKnownGood = sol_judgement_default\<lparr>is_known_good := True\<rparr>"
| "judgement_to_output JOutOfDate = sol_judgement_default\<lparr>is_out_of_date := True\<rparr>"
| "judgement_to_output JLowQuality = sol_judgement_default\<lparr>is_low_quality := True\<rparr>"
| "judgement_to_output JErroneous = sol_judgement_default\<lparr>is_erroneous := True\<rparr>"

definition judgment_to_input :: "sol_judgement \<Rightarrow> evm_failure + judgement" where
  "judgment_to_input v =
     (if is_unknown v then Inr JUnknown
      else if is_fee_paid v then
        if u128_max < fee_paid_deposit v then Inl (EvmRevert ''Value is too large for fee_paid_deposit'')
        else Inr (JFeePaid (fee_paid_deposit v))
      else if is_reasonable v then Inr JReasonable
      else if is_known_good v then Inr JKnownGood
      else if is_out_of_date v then Inr JOutOfDate
      else if is_low_quality v then Inr JLowQuality
      else if is_erroneous v then Inr JErroneous
      else Inl (EvmRevert ''invalid''))"

definition identity_to_output :: "pallet_registration option \<Rightarrow> sol_registration" where
  "identity_to_output registration =
     (case registration of
        None \<Rightarrow> sol_registration_default
      | Some r \<Rightarrow>
          (let info = pr_info r;
               identity_info =
                 \<lparr>ii_additional = [], ii_display = data_to_output (pi_display info), ii_legal = data_to_output (pi_legal info),
                  ii_web = data_to_output (pi_web info), ii_riot = data_to_output (pi_riot info),
                  ii_email = data_to_output (pi_email info), ii_has_pgp_fingerprint = False, ii_pgp_fingerprint = [],
                  ii_image = data_to_output (pi_image info), ii_twitter = data_to_output (pi_twitter info)\<rparr>;
               identity_info =
                 (case pi_pgp_fingerprint info of
                    None \<Rightarrow> identity_info
                  | Some p \<Rightarrow> identity_info\<lparr>ii_has_pgp_fingerprint := True, ii_pgp_fingerprint := p\<rparr>);
               identity_info = identity_info\<lparr>ii_additional :=
                 map (\<lambda>(k, v). (data_to_output k, data_to_output v)) (pi_additional info)\<rparr>
           in \<lparr>rg_is_valid = True, rg_judgements = map (\<lambda>(i, j). (i, judgement_to_output j)) (pr_judgements r),
               rg_deposit = pr_deposit r, rg_info = identity_info\<rparr>))"

definition identity_fields_to_input :: "(id_field \<Rightarrow> 64 word) \<Rightarrow> identity_fields \<Rightarrow> 64 word" where
  "identity_fields_to_input bit_of flds =
     (let add = (\<lambda>b f field_bits. if b then field_bits OR bit_of f else field_bits);
          field_bits = 0;
          field_bits = add (if_display flds) FDisplay field_bits;
          field_bits = add (if_legal flds) FLegal field_bits;
          field_bits = add (if_web flds) FWeb field_bits;
          field_bits = add (if_riot flds) FRiot field_bits;
          field_bits = add (if_email flds) FEmail field_bits;
          field_bits = add (if_pgp_fingerprint flds) FPgpFingerprint field_bits;
          field_bits = add (if_image flds) FImage field_bits
      in add (if_twitter flds) FTwitter field_bits)"

definition fields_to_output :: "(id_field \<Rightarrow> 64 word) \<Rightarrow> 64 word \<Rightarrow> identity_fields" where
  "fields_to_output bit_of flds =
     (let has = (\<lambda>f. flds AND bit_of f = bit_of f) in
      \<lparr>if_display = has FDisplay, if_legal = has FLegal, if_web = has FWeb, if_riot = has FRiot, if_email = has FEmail,
       if_pgp_fingerprint = has FPgpFingerprint, if_image = has FImage, if_twitter = has FTwitter\<rparr>)"

section \<open>Calls\<close>

definition id_try_dispatch :: "'w identity_env \<Rightarrow> evm_context \<Rightarrow> identity_call \<Rightarrow> 'w \<Rightarrow> evm_failure + 'w" where
  "id_try_dispatch env ctx call w = dispatch_result (id_dispatch env (ctx_caller ctx) call w)"

definition id_logged :: "identity_log list \<Rightarrow> evm_failure + 'w \<Rightarrow> evm_failure + (identity_log list \<times> 'w)" where
  "id_logged ls r = and_then r (\<lambda>w. Inr (ls, w))"

definition set_identity :: "'w identity_env \<Rightarrow> evm_context \<Rightarrow> identity_info \<Rightarrow> 'w \<Rightarrow> evm_failure + (identity_log list \<times> 'w)" where
  "set_identity env ctx info w =
     and_then (identity_to_input (MaxAdditionalFields env) info) (\<lambda>info.
       id_logged [IdentitySet (ctx_caller ctx)] (id_try_dispatch env ctx (SetIdentity info) w))"

fun subs_loop :: "nat \<Rightarrow> (H160 \<times> sol_data) list \<Rightarrow> (AccountId \<times> id_data) list \<Rightarrow> evm_failure + (AccountId \<times> id_data) list" where
  "subs_loop i [] call_subs = Inr call_subs"
| "subs_loop i ((addr, data) # rest) call_subs =
     and_then (data_try_from (''index '' @ show_nat i) data) (\<lambda>data. subs_loop (i + 1) rest (call_subs @ [(addr, data)]))"

definition set_subs :: "'w identity_env \<Rightarrow> evm_context \<Rightarrow> (H160 \<times> sol_data) list \<Rightarrow> 'w \<Rightarrow> evm_failure + (identity_log list \<times> 'w)" where
  "set_subs env ctx subs w =
     and_then (subs_loop 0 subs []) (\<lambda>call_subs. id_logged [] (id_try_dispatch env ctx (SetSubs call_subs) w))"

definition clear_identity :: "'w identity_env \<Rightarrow> evm_context \<Rightarrow> 'w \<Rightarrow> evm_failure + (identity_log list \<times> 'w)" where
  "clear_identity env ctx w = id_logged [IdentityCleared (ctx_caller ctx)] (id_try_dispatch env ctx ClearIdentity w)"

definition request_judgement :: "'w identity_env \<Rightarrow> evm_context \<Rightarrow> nat \<Rightarrow> nat \<Rightarrow> 'w \<Rightarrow> evm_failure + (identity_log list \<times> 'w)" where
  "request_judgement env ctx reg_index max_fee w =
     (if u128_max < max_fee then Inl (EvmRevert ''Value is too large for max_fee'')
      else id_logged [JudgementRequested (ctx_caller ctx) reg_index]
             (id_try_dispatch env ctx (RequestJudgement reg_index max_fee) w))"

definition cancel_request :: "'w identity_env \<Rightarrow> evm_context \<Rightarrow> nat \<Rightarrow> 'w \<Rightarrow> evm_failure + (identity_log list \<times> 'w)" where
  "cancel_request env ctx reg_index w =
     id_logged [JudgementUnrequested (ctx_caller ctx) reg_index] (id_try_dispatch env ctx (CancelRequest reg_index) w)"

definition set_fee :: "'w identity_env \<Rightarrow> evm_context \<Rightarrow> nat \<Rightarrow> nat \<Rightarrow> 'w \<Rightarrow> evm_failure + (identity_log list \<times> 'w)" where
  "set_fee env ctx index fee w =
     (if u128_max < fee then Inl (EvmRevert ''Value is too large for fee'')
      else id_logged [] (id_try_dispatch env ctx (SetFee index fee) w))"

definition set_account_id :: "'w identity_env \<Rightarrow> evm_context \<Rightarrow> nat \<Rightarrow> H160 \<Rightarrow> 'w \<Rightarrow> evm_failure + (identity_log list \<times> 'w)" where
  "set_account_id env ctx index new w = id_logged [] (id_try_dispatch env ctx (SetAccountId index new) w)"

definition set_fields :: "'w identity_env \<Rightarrow> evm_context \<Rightarrow> nat \<Rightarrow> identity_fields \<Rightarrow> 'w \<Rightarrow> evm_failure + (identity_log list \<times> 'w)" where
  "set_fields env ctx index flds w =
     id_logged [] (id_try_dispatch env ctx (SetFields index (identity_fields_to_input (field_bit env) flds)) w)"

definition provide_judgement ::
  "'w identity_env \<Rightarrow> evm_context \<Rightarrow> nat \<Rightarrow> H160 \<Rightarrow> sol_judgement \<Rightarrow> H256 \<Rightarrow> 'w \<Rightarrow> evm_failure + (identity_log list \<times> 'w)" where
  "provide_judgement env ctx reg_index target judgement identity w =
     and_then (judgment_to_input judgement) (\<lambda>judgement.
       id_logged [JudgementGiven target reg_index]
         (id_try_dispatch env ctx (ProvideJudgement reg_index target judgement identity) w))"

definition add_sub :: "'w identity_env \<Rightarrow> evm_context \<Rightarrow> H160 \<Rightarrow> sol_data \<Rightarrow> 'w \<Rightarrow> evm_failure + (identity_log list \<times> 'w)" where
  "add_sub env ctx sub data w =
     and_then (data_try_from ''data'' data) (\<lambda>data.
       id_logged [SubIdentityAdded sub (ctx_caller ctx)] (id_try_dispatch env ctx (AddSub sub data) w))"

definition rename_sub :: "'w identity_env \<Rightarrow> evm_context \<Rightarrow> H160 \<Rightarrow> sol_data \<Rightarrow> 'w \<Rightarrow> evm_failure + (identity_log list \<times> 'w)" where
  "rename_sub env ctx sub data w =
     and_then (data_try_from ''data'' data) (\<lambda>data. id_logged [] (id_try_dispatch env ctx (RenameSub sub data) w))"

definition remove_sub :: "'w identity_env \<Rightarrow> evm_context \<Rightarrow> H160 \<Rightarrow> 'w \<Rightarrow> evm_failure + (identity_log list \<times> 'w)" where
  "remove_sub env ctx sub w =
     id_logged [SubIdentityRemoved sub (ctx_caller ctx)] (id_try_dispatch env ctx (RemoveSub sub) w)"

definition quit_sub :: "'w identity_env \<Rightarrow> evm_context \<Rightarrow> 'w \<Rightarrow> evm_failure + (identity_log list \<times> 'w)" where
  "quit_sub env ctx w = id_logged [SubIdentityRevoked (ctx_caller ctx)] (id_try_dispatch env ctx QuitSub w)"

section \<open>Views\<close>

definition identity :: "'w identity_env \<Rightarrow> H160 \<Rightarrow> 'w \<Rightarrow> sol_registration" where
  "identity env who w = identity_to_output (IdentityOf env who w)"

definition super_of :: "'w identity_env \<Rightarrow> H160 \<Rightarrow> 'w \<Rightarrow> sol_super_of" where
  "super_of env who w =
     (case SuperOf env who w of
        Some (account, data) \<Rightarrow> \<lparr>so_is_valid = True, so_account = account, so_data = data_to_output data\<rparr>
      | None \<Rightarrow> \<lparr>so_is_valid = False, so_account = 0, so_data = sol_data_default\<rparr>)"

definition subs_of :: "'w identity_env \<Rightarrow> H160 \<Rightarrow> 'w \<Rightarrow> nat \<times> H160 list" where
  "subs_of env who w = SubsOf env who w"

definition registrar_to_output :: "(id_field \<Rightarrow> 64 word) \<Rightarrow> nat \<times> registrar_info option \<Rightarrow> sol_registrar" where
  "registrar_to_output bit_of x =
     (case x of
        (index, Some reg) \<Rightarrow>
          \<lparr>sr_is_valid = True, sr_index = index, sr_account = ri_account reg, sr_fee = ri_fee reg,
           sr_fields = fields_to_output bit_of (ri_fields reg)\<rparr>
      | (index, None) \<Rightarrow>
          \<lparr>sr_is_valid = False, sr_index = index, sr_account = 0, sr_fee = 0,
           sr_fields = \<lparr>if_display = False, if_legal = False, if_web = False, if_riot = False, if_email = False,
                        if_pgp_fingerprint = False, if_image = False, if_twitter = False\<rparr>\<rparr>)"

definition registrars :: "'w identity_env \<Rightarrow> 'w \<Rightarrow> sol_registrar list" where
  "registrars env w = map (registrar_to_output (field_bit env)) (enumerate 0 (Registrars env w))"

section \<open>Round trips\<close>

text \<open>What a conversion to the pallet and back keeps: data without the flag that it has data loses its bytes.\<close>

definition clean_data :: "sol_data \<Rightarrow> sol_data" where
  "clean_data d = (if has_data d then d else sol_data_default)"

definition clean_info :: "identity_info \<Rightarrow> identity_info" where
  "clean_info info =
     \<lparr>ii_additional = map (map_prod clean_data clean_data) (ii_additional info), ii_display = clean_data (ii_display info),
      ii_legal = clean_data (ii_legal info), ii_web = clean_data (ii_web info), ii_riot = clean_data (ii_riot info),
      ii_email = clean_data (ii_email info), ii_has_pgp_fingerprint = ii_has_pgp_fingerprint info,
      ii_pgp_fingerprint = (if ii_has_pgp_fingerprint info then ii_pgp_fingerprint info else []),
      ii_image = clean_data (ii_image info), ii_twitter = clean_data (ii_twitter info)\<rparr>"

lemma data_round_trip: "data_try_from fld d = Inr x \<Longrightarrow> data_to_output x = clean_data d"
  by (auto simp: data_try_from_def clean_data_def split: if_splits)

lemma additional_round_trip:
  "additional_loop b i ds acc = Inr xs \<Longrightarrow>
     map (\<lambda>(k, v). (data_to_output k, data_to_output v)) xs
     = map (\<lambda>(k, v). (data_to_output k, data_to_output v)) acc @ map (map_prod clean_data clean_data) ds"
  by (induction b i ds acc rule: additional_loop.induct)
    (auto simp: and_then_Inr dest!: data_round_trip split: if_splits)

lemma info_round_trip:
  assumes "identity_to_input b info = Inr x" "pr_info r = x"
  shows "rg_info (identity_to_output (Some r)) = clean_info info"
proof -
  obtain additional where a: "additional_loop b 0 (ii_additional info) [] = Inr additional" "pi_additional x = additional"
    using assms(1) by (auto simp: identity_to_input_def and_then_Inr)
  have "data_to_output (pi_display x) = clean_data (ii_display info)" "data_to_output (pi_legal x) = clean_data (ii_legal info)"
    "data_to_output (pi_web x) = clean_data (ii_web info)" "data_to_output (pi_riot x) = clean_data (ii_riot info)"
    "data_to_output (pi_email x) = clean_data (ii_email info)" "data_to_output (pi_image x) = clean_data (ii_image info)"
    "data_to_output (pi_twitter x) = clean_data (ii_twitter info)"
    "pi_pgp_fingerprint x = (if ii_has_pgp_fingerprint info then Some (ii_pgp_fingerprint info) else None)"
    using assms(1) by (auto simp: identity_to_input_def and_then_Inr dest!: data_round_trip split: if_splits)
  then show ?thesis
    using additional_round_trip [OF a(1)] a(2) assms(2) by (simp add: identity_to_output_def clean_info_def Let_def)
qed

lemma judgement_round_trip:
  assumes "\<And>n. j = JFeePaid n \<Longrightarrow> n \<le> u128_max"
  shows "judgment_to_input (judgement_to_output j) = Inr j"
  using assms by (cases j) (simp_all add: judgment_to_input_def sol_judgement_default_def not_less)

text \<open>The bits of the fields, as documented: one bit for each field, no two the same.\<close>

definition single_bits :: "(id_field \<Rightarrow> 64 word) \<Rightarrow> bool" where
  "single_bits bit_of \<longleftrightarrow> (\<exists>k. inj k \<and> (\<forall>f. k f < 64 \<and> bit_of f = 2 ^ k f))"

lemma and_single_bit: "n < 64 \<Longrightarrow> x AND 2 ^ n = (2 ^ n :: 64 word) \<longleftrightarrow> bit x n"
  by (auto simp: bit_eq_iff [of "x AND 2 ^ n"] bit_and_iff bit_exp_iff)

lemma fields_round_trip:
  assumes "single_bits bit_of"
  shows "fields_to_output bit_of (identity_fields_to_input bit_of flds) = flds"
proof -
  obtain k where k: "inj k" "\<And>f. k f < 64" "\<And>f. bit_of f = 2 ^ k f"
    using assms by (auto simp: single_bits_def)
  have e: "bit (bit_of g) (k f) \<longleftrightarrow> f = g" for f g
    using k(1) k(2) [of f] by (auto simp: k(3) bit_exp_iff dest: injD)
  have "x AND bit_of f = bit_of f \<longleftrightarrow> bit x (k f)" for x f
    unfolding k(3) by (rule and_single_bit [OF k(2)])
  then show ?thesis
    by (simp add: fields_to_output_def identity_fields_to_input_def Let_def bit_or_iff e)
qed

text \<open>What the pallet is documented to do: setting an identity stores it for the caller, setting the fields of a registrar
  stores them, and so a judgement.\<close>

definition identity_laws :: "'w identity_env \<Rightarrow> bool" where
  "identity_laws env \<longleftrightarrow>
     (\<forall>who info w w'. id_dispatch env who (SetIdentity info) w = Some w' \<longrightarrow>
        (\<exists>r. IdentityOf env who w' = Some r \<and> pr_info r = info)) \<and>
     (\<forall>who i fs w w'. id_dispatch env who (SetFields i fs) w = Some w' \<longrightarrow>
        (\<exists>r. i < length (Registrars env w') \<and> Registrars env w' ! i = Some r \<and> ri_fields r = fs)) \<and>
     (\<forall>who i t j h w w'. id_dispatch env who (ProvideJudgement i t j h) w = Some w' \<longrightarrow>
        (\<exists>r. IdentityOf env t w' = Some r \<and> (i, j) \<in> set (pr_judgements r)))"

text \<open>
  C30. What goes in through the identity precompile comes out of its views. After an accepted \<open>setIdentity\<close>, the
  identity of the caller is valid and has exactly the data given, where entries without the flag are empty; after an
  accepted \<open>setFields\<close>, the list of registrars shows exactly the fields chosen; after an accepted
  \<open>provideJudgement\<close>, the target's identity shows a judgement that reads back as the one given.
\<close>

theorem identity_views_show_calls:
  assumes laws: "identity_laws env" "single_bits (field_bit env)"
  shows "(set_identity env ctx info w = Inr (ls, w') \<longrightarrow>
       rg_is_valid (identity env (ctx_caller ctx) w') \<and> rg_info (identity env (ctx_caller ctx) w') = clean_info info) \<and>
     (set_fields env ctx i flds w = Inr (ls, w') \<longrightarrow>
       i < length (registrars env w') \<and> sr_is_valid (registrars env w' ! i) \<and> sr_index (registrars env w' ! i) = i \<and>
       sr_fields (registrars env w' ! i) = flds) \<and>
     (provide_judgement env ctx i target judgement h w = Inr (ls, w') \<longrightarrow>
       (\<exists>j. (i, j) \<in> set (rg_judgements (identity env target w')) \<and> judgment_to_input j = judgment_to_input judgement))"
proof (intro conjI impI)
  assume s: "set_identity env ctx info w = Inr (ls, w')"
  obtain x where x: "identity_to_input (MaxAdditionalFields env) info = Inr x" "id_dispatch env (ctx_caller ctx) (SetIdentity x) w = Some w'"
    using s by (auto simp: set_identity_def and_then_Inr id_logged_def id_try_dispatch_def dispatch_result_Inr)
  obtain r where "IdentityOf env (ctx_caller ctx) w' = Some r" "pr_info r = x"
    using x(2) laws(1) unfolding identity_laws_def by blast
  then show "rg_is_valid (identity env (ctx_caller ctx) w')" "rg_info (identity env (ctx_caller ctx) w') = clean_info info"
    using info_round_trip [OF x(1)] by (simp_all add: identity_def) (simp add: identity_to_output_def Let_def)
next
  assume "set_fields env ctx i flds w = Inr (ls, w')"
  then have "id_dispatch env (ctx_caller ctx) (SetFields i (identity_fields_to_input (field_bit env) flds)) w = Some w'"
    by (auto simp: set_fields_def and_then_Inr id_logged_def id_try_dispatch_def dispatch_result_Inr)
  then obtain r where "i < length (Registrars env w')" "Registrars env w' ! i = Some r"
      "ri_fields r = identity_fields_to_input (field_bit env) flds"
    using laws(1) unfolding identity_laws_def by blast
  then show "i < length (registrars env w')" "sr_is_valid (registrars env w' ! i)" "sr_index (registrars env w' ! i) = i"
    "sr_fields (registrars env w' ! i) = flds"
    by (simp_all add: registrars_def nth_enumerate_eq registrar_to_output_def fields_round_trip [OF laws(2)])
next
  assume "provide_judgement env ctx i target judgement h w = Inr (ls, w')"
  then obtain j where j: "judgment_to_input judgement = Inr j" "id_dispatch env (ctx_caller ctx) (ProvideJudgement i target j h) w = Some w'"
    by (auto simp: provide_judgement_def and_then_Inr id_logged_def id_try_dispatch_def dispatch_result_Inr)
  obtain r where r: "IdentityOf env target w' = Some r" "(i, j) \<in> set (pr_judgements r)"
    using j(2) laws(1) unfolding identity_laws_def by blast
  have "judgment_to_input (judgement_to_output j) = Inr j"
    using j(1) by (intro judgement_round_trip) (auto simp: judgment_to_input_def split: if_splits)
  moreover have "(i, judgement_to_output j) \<in> set (rg_judgements (identity env target w'))"
    using r by (force simp: identity_def identity_to_output_def Let_def)
  ultimately show "\<exists>j. (i, j) \<in> set (rg_judgements (identity env target w')) \<and> judgment_to_input j = judgment_to_input judgement"
    using j(1) by auto
qed

subsection \<open>An example\<close>

fun sample_bit :: "id_field \<Rightarrow> nat" where
  "sample_bit FDisplay = 0" | "sample_bit FLegal = 1" | "sample_bit FWeb = 2" | "sample_bit FRiot = 3"
| "sample_bit FEmail = 4" | "sample_bit FPgpFingerprint = 5" | "sample_bit FImage = 6" | "sample_bit FTwitter = 7"

type_synonym id_world = "(AccountId \<Rightarrow> pallet_registration option) \<times> registrar_info option list"

fun sample_id_dispatch :: "AccountId \<Rightarrow> identity_call \<Rightarrow> id_world \<Rightarrow> id_world option" where
  "sample_id_dispatch who (SetIdentity info) (m, rs) =
     Some (m(who \<mapsto> \<lparr>pr_judgements = [], pr_deposit = 10, pr_info = info\<rparr>), rs)"
| "sample_id_dispatch who (SetFields i fs) (m, rs) =
     (if i < length rs then case rs ! i of
        Some r \<Rightarrow> if ri_account r = who then Some (m, rs[i := Some (r\<lparr>ri_fields := fs\<rparr>)]) else None
      | None \<Rightarrow> None else None)"
| "sample_id_dispatch who (ProvideJudgement i t j h) (m, rs) =
     (case m t of None \<Rightarrow> None | Some r \<Rightarrow> Some (m(t \<mapsto> r\<lparr>pr_judgements := (i, j) # pr_judgements r\<rparr>), rs))"
| "sample_id_dispatch _ _ _ = None"

definition sample_identity :: "id_world identity_env" where
  "sample_identity = \<lparr>id_dispatch = sample_id_dispatch, IdentityOf = (\<lambda>a w. fst w a), SuperOf = (\<lambda>_ _. None),
     SubsOf = (\<lambda>_ _. (0, [])), Registrars = snd, MaxAdditionalFields = 2, field_bit = (\<lambda>f. 2 ^ sample_bit f)\<rparr>"

lemma sample_identity_laws: "identity_laws sample_identity" "single_bits (field_bit sample_identity)"
proof -
  show "identity_laws sample_identity"
    unfolding identity_laws_def sample_identity_def
    by (auto split: if_splits option.splits)
  have "inj sample_bit" by (rule injI) (auto elim!: sample_bit.elims)
  moreover have "sample_bit f < 64" for f by (cases f) simp_all
  ultimately show "single_bits (field_bit sample_identity)"
    unfolding single_bits_def sample_identity_def by auto
qed

definition sample_info :: identity_info where
  "sample_info = identity_info_default\<lparr>ii_display := \<lparr>has_data = True, data_value = [65]\<rparr>,
     ii_web := \<lparr>has_data = False, data_value = [66]\<rparr>\<rparr>"

theorem identity_views_show_calls_witness:
  "\<exists>w. set_identity sample_identity \<lparr>ctx_address = 2072, ctx_caller = 7, ctx_apparent_value = 0\<rparr> sample_info (\<lambda>_. None, [])
       = Inr ([IdentitySet 7], w) \<and>
     rg_info (identity sample_identity 7 w) = identity_info_default\<lparr>ii_display := \<lparr>has_data = True, data_value = [65]\<rparr>\<rparr>"
proof -
  let ?ctx = "\<lparr>ctx_address = 2072, ctx_caller = 7, ctx_apparent_value = 0\<rparr>"
  obtain w where w: "set_identity sample_identity ?ctx sample_info (\<lambda>_. None, []) = Inr ([IdentitySet 7], w)"
    by (simp add: set_identity_def identity_to_input_def and_then_def data_try_from_def sample_info_def
        identity_info_default_def sol_data_default_def id_logged_def id_try_dispatch_def dispatch_result_def)
      (simp add: sample_identity_def)
  have "clean_info sample_info = identity_info_default\<lparr>ii_display := \<lparr>has_data = True, data_value = [65]\<rparr>\<rparr>"
    by (simp add: clean_info_def clean_data_def sample_info_def identity_info_default_def sol_data_default_def)
  then show ?thesis
    using identity_views_show_calls [OF sample_identity_laws, of ?ctx sample_info] w by (metis evm_context.select_convs(2))
qed

end
