(* ===== verification/Spec2Isabelle.thy ===== *)
theory Spec2Isabelle
  imports Submission_Adapters Ethereum_Client Merkle_Utils Validator_Message Erc20_Balances Call_Permit
    Batch_Precompile Bridge_System Set_Submitter Submission_Path Proxy_Precompile Governance_Tracks
    Governance_Precompiles Identity_Precompile
begin

text \<open>
  A verification development of DataHaven: a solochain whose validators are operators of EigenLayer on
  Ethereum, connected to it by a Snowbridge-style bridge. All paths below are under \<open>src/\<close>.

  \<^bold>\<open>The parts of the program and how they interact.\<close> On Ethereum the contract
  \<open>DataHavenServiceManager\<close> registers operators, chooses the validator set by weighted stake and sends it
  over the Gateway; the service \<open>validator-set-submitter\<close> asks it to do so once per era. In the runtime the
  light client (\<open>pallets/ethereum-client\<close>) finalizes beacon headers and verifies event logs; the inbound
  queue accepts each verified message once and hands it to a processor, which installs the set in
  \<open>pallets/external-validators\<close> or unlocks native tokens. That pallet plans the eras; its hooks drive the
  rewards pallet (points, inflation, a rewards message per era) and the slashes pallet (deferred slash
  records, batches of slashing requests). Messages to Ethereum pass the adapters of \<open>runtime/common\<close> and the
  outbound queue, which commits to them by a Merkle root; the service manager translates rewards and slashes
  back to operators. Beside this cycle stand the native-token bridge, the system pallets that govern the
  bridge, and the precompiles through which contracts of the EVM use the chain.

  \<^bold>\<open>Conventions.\<close> A pallet is a record of its storage items; a dispatchable is a function that returns an
  error (\<^term>\<open>Inl\<close>) or the new storage, since the framework rolls a failed call back; deposited events are
  a list in the state. A contract is a record of its storage variables, and a revert is \<^term>\<open>Inl\<close>.
  Interleavings are inductive step relations with reachability (\<open>ev_step\<close>, \<open>sl_step\<close>, \<open>rw_step\<close>, \<open>oq_step\<close>,
  \<open>nt_step\<close>, \<open>iq_step\<close>, \<open>sm_step\<close>, \<open>er_step\<close>, \<open>cp_step\<close>, \<open>sys_step\<close>). Eras, balances and points are natural
  numbers with the saturation or the check of their Rust and Solidity types written out; addresses, hashes
  and bit patterns are machine words. Code outside the repository (the framework's pallets, cryptography,
  codecs, XCM, the EVM, EigenLayer) is a parameter of the definitions, with the documented behaviour that
  a theorem uses as a named hypothesis, and a witness where the hypothesis holds.

  \<^bold>\<open>Theories.\<close>

  \<^item> \<open>DH_Prelude\<close>: integer types, saturating arithmetic, sorted association lists, shared lemmas.
  \<^item> \<open>Unsent_Queue\<close>: the retry ring buffer that the rewards and the slashes pallet both contain, refined to a
    bounded queue; the interfaces \<open>retry_queue\<close> and \<open>retry_hook\<close> carry the lemmas of the block hooks.
  \<^item> \<open>External_Validators\<close>: \<open>pallets/external-validators\<close>, all of it: invariant of the eras, acceptance and
    lifetime of bridged sets, followed through every run.
  \<^item> \<open>Validator_Slashes\<close>, \<open>Slashes_Correct\<close>: \<open>pallets/external-validator-slashes\<close>: what an offence records,
    the invariant, the order in which batches are attempted.
  \<^item> \<open>Perbill\<close>, \<open>Rewards\<close>, \<open>Rewards_Correct\<close>: \<open>pallets/external-validators-rewards\<close> over an interface of
    fixed-point fractions: points, scaled inflation, the outcome of an era's end, retries and expiry.
  \<^item> \<open>Merkle_Tree\<close>, \<open>Merkle_Utils\<close>: the Merkle trees of \<open>primitives/snowbridge/merkle-tree\<close> and of
    \<open>contracts/src/libraries/MerkleUtils.sol\<close>: reference tree, completeness and soundness of proofs,
    equality of the two where the contract sorts pairs, and the contract's proofs in either mode.
  \<^item> \<open>Bridge_Types\<close>, \<open>Outbound_Queue\<close>: messages and \<open>pallets/outbound-queue-v2\<close> with the commitment store.
  \<^item> \<open>Submission_Adapters\<close>: inflation and the two adapters of \<open>runtime/common\<close>.
  \<^item> \<open>Native_Transfer\<close>: \<open>pallets/datahaven-native-transfer\<close>: what the sovereign account holds.
  \<^item> \<open>Sparse_Bitmap\<close>, \<open>Inbound_Queue\<close>: the nonce bitmap, refined to a set behind the interface
    \<open>nonce_tracker\<close>; \<open>pallets/inbound-queue-v2\<close> and the processors of \<open>primitives/bridge\<close>.
  \<^item> \<open>Beacon_Primitives\<close>, \<open>Beacon_Types\<close>, \<open>Ethereum_Client\<close>: \<open>primitives/snowbridge/beacon\<close>,
    \<open>primitives/snowbridge/ethereum\<close> and \<open>pallets/ethereum-client\<close>: accepted updates are
    those of a beacon chain (\<open>beacon_chain\<close>, with its committees and state trees as specified), authentic states, verified logs.
  \<^item> \<open>Service_Manager\<close>: the contract of \<open>contracts/src\<close>.
  \<^item> \<open>Validator_Message\<close>: the codec of the validator-set message on both sides.
  \<^item> \<open>Submission_Path\<close>: rewards and slashes from the runtime to the operators.
  \<^item> \<open>Set_Submitter\<close>: \<open>test/tools/validator-set-submitter\<close> next to the era machine.
  \<^item> \<open>Bridge_System\<close>: \<open>pallets/system\<close> and \<open>pallets/system-v2\<close> with their common token registry.
  \<^item> \<open>Runtime_Common\<close>: fees, the filter of calls, the native-transfer precompile.
  \<^item> \<open>Evm_Permits\<close>, \<open>Erc20_Balances\<close>, \<open>Call_Permit\<close>: the precompiles \<open>erc20-balances\<close> and \<open>call-permit\<close>, with
    signed permits behind the interface \<open>one_time_permits\<close>: nobody spends without authorization, and no permit is used
    twice.
  \<^item> \<open>Batch_Precompile\<close>, \<open>Proxy_Precompile\<close>: the precompiles \<open>batch\<close> and \<open>proxy\<close>, the latter with the proxy types
    of the mainnet runtime: which calls each batch mode makes and how it ends, and what a proxied call can reach.
  \<^item> \<open>Governance_Tracks\<close>, \<open>Governance_Precompiles\<close>, \<open>Identity_Precompile\<close>: the origins and referendum tracks of the
    mainnet runtime and the precompiles \<open>referenda\<close>, \<open>collective\<close>, \<open>preimage\<close>, \<open>conviction-voting\<close> and \<open>identity\<close>:
    which track a proposal can take, which proposal a log names, and that the views return what the calls set.
  \<^item> This theory: the wiring of the inbound queue in the runtime, and the properties that span the chains: a set
    that reaches the pallet was in a finalized log, and a set that the contract built is installed.

  \<^bold>\<open>Loops and bounds.\<close> Loops are structural recursion, folds or recursion with a measure. The row loop of the
  Merkle tree and the three loops over the ring buffer have no bound of their own: they are partial functions
  whose value \<^term>\<open>None\<close> stands for not returning, and they are proved to return. No definition takes
  fuel. Ring buffers have their 64 slots, bitmaps their 128-bit
  buckets, and the contract its 32 validators, as in the code.

  \<^bold>\<open>Not modelled.\<close> Weights, benchmarks, gas (except in the batch precompile, which forwards it) and logging;
  the node (service, command line, RPC); the construction of the runtimes by macros, their
  API implementations and genesis presets; the stagenet and testnet runtimes, which configure the same pallets
  with other constants; StorageHub's configuration, whose pallets are not in the repository; the
  XCM converters of the bridge, which no runtime uses and which work on XCM's own types; the registry of precompiles; migrations; deployment scripts, the test framework and the release tools.
\<close>

section \<open>The bridge of the runtime\<close>

text \<open>
  The configuration of the inbound queue in the runtime: the verifier is the light client in its
  current state, the processors are the two of the bridge primitives, in this order, and the
  reward ledger registers nothing.
\<close>

definition runtime_inbound ::
  "('k, 'a, 'c) ec_config \<Rightarrow> H160 \<Rightarrow> abi_codec \<Rightarrow> scale_codec \<Rightarrow> ev_config \<Rightarrow> 'x nt_config \<Rightarrow> 'k ec_state \<Rightarrow>
     (inclusion_proof, 'x bridge_world) iq_config" where
  "runtime_inbound ecc gateway abi codec evc ntc client =
     \<lparr>iq_Verifier = (\<lambda>lg ip _. ec_verify ecc lg ip client), iq_GatewayAddress = gateway,
      MessageProcessor = [eigenlayer_processor evc (decode_message codec), native_processor ntc],
      iq_abi = abi, iq_RewardPayment = dummy_reward_payment\<rparr>"

lemma runtime_inbound_fields [simp]:
  "iq_Verifier (runtime_inbound ecc gateway abi codec evc ntc client) lg ip w = ec_verify ecc lg ip client"
  "iq_GatewayAddress (runtime_inbound ecc gateway abi codec evc ntc client) = gateway"
  "MessageProcessor (runtime_inbound ecc gateway abi codec evc ntc client) =
     [eigenlayer_processor evc (decode_message codec), native_processor ntc]"
  "iq_abi (runtime_inbound ecc gateway abi codec evc ntc client) = abi"
  "iq_RewardPayment (runtime_inbound ecc gateway abi codec evc ntc client) = dummy_reward_payment"
  by (simp_all add: runtime_inbound_def)

text \<open>What the processor of validator sets does with a message that the contract built.\<close>

lemma el_process_built:
  assumes "codec_law c" "length vs < 2 ^ 32" "era < 2 ^ 64"
    and "im_xcm m = Raw (scaleEncodeNewValidatorSetMessagePayload c vs era)" "im_origin m = AuthorizedOrigin evc"
    and "validate_target_era era (bw_ev w) = Inr ()"
  obtains w' where "tuple_process (eigenlayer_processor evc (decode_message c) # ps) who m w =
      Inr (id_bytes EL_MESSAGE_ID, w')"
    "ExternalValidators (bw_ev w') = take (MaxExternalValidators evc) vs" "ExternalIndex (bw_ev w') = era"
  using assms decode_encoded [OF assms(1-3)]
  by (auto simp: eigenlayer_processor_def el_can_process_def el_process_def set_external_validators_inner_def
      ev_deposit_def Let_def)

section \<open>A delivery\<close>

text \<open>A set of two validators, built by the contract, in the event that the light client accepts.\<close>

definition delivery_env :: "address list sm_env" where
  "delivery_env = sample_sm_env\<lparr>scaleEncodePayload := scaleEncodeNewValidatorSetMessagePayload fixed_codec\<rparr>"

definition delivery_payload :: "byte list" where
  "delivery_payload = scaleEncodeNewValidatorSetMessagePayload fixed_codec [80, 70] 1"

definition delivery_abi :: abi_codec where
  "delivery_abi =
     \<lparr>decode_outbound_message_accepted =
        (\<lambda>_ _. Some (1, \<lparr>gp_origin = 3, gp_assets = [], gp_xcm = (0, delivery_payload), gp_claimer = [],
                 gp_value = 0, gp_execution_fee = 0, gp_relayer_fee = 0\<rparr>)),
      decode_native_token = (\<lambda>_. None), decode_foreign_token = (\<lambda>_. None), decode_create_asset = (\<lambda>_. None)\<rparr>"

definition delivery_event :: "inclusion_proof event_proof" where
  "delivery_event = \<lparr>ep_event_log = sample_log, ep_proof = sample_inclusion\<rparr>"

abbreviation delivery_inbound :: "(inclusion_proof, sample_bal bridge_world) iq_config" where
  "delivery_inbound \<equiv> runtime_inbound sample_ec 7 delivery_abi fixed_codec sample_evc sample_nt (ec_run sample_ec sample_calls)"

definition delivery_message :: inbound_message where
  "delivery_message = \<lparr>im_gateway = 7, im_nonce = 1, im_origin = 3, im_assets = [], im_xcm = Raw delivery_payload,
     im_claimer = None, im_value = 0, im_execution_fee = 0, im_relayer_fee = 0\<rparr>"

lemma delivery_facts:
  "ec_verify sample_ec (ep_event_log delivery_event) (ep_proof delivery_event) (ec_run sample_ec sample_calls) = None"
  "message_try_from delivery_abi (ep_event_log delivery_event) = Some delivery_message"
  "AuthorizedOrigin sample_evc = 3" "32 \<le> MaxExternalValidators sample_evc"
  "OperatingMode sample_iq_start = BasicNormal" "\<not> bitmap_get (NonceBitmap sample_iq_start) n"
  "validate_target_era 1 (bw_ev (iq_world sample_iq_start)) = Inr ()"
  using sample_log_verified
  by (simp_all add: delivery_event_def sample_run message_try_from_def payload_try_from_def
      delivery_abi_def delivery_message_def sample_log_def sample_evc_def mainnet_ev_config_def sample_iq_start_def
      iq_genesis_def bitmap_get_bit validate_target_era_def sample_eval)

lemma delivery_built:
  "buildNewValidatorSetMessageForEra delivery_env 1 (sample_sm_state, []) = Inr delivery_payload"
  "validator_candidates delivery_env (sample_sm_state, []) =
     Some [\<lparr>c_solochain = 70, c_stake = 50, c_operator = 7\<rparr>, \<lparr>c_solochain = 80, c_stake = 190, c_operator = 8\<rparr>]"
proof -
  show c: "validator_candidates delivery_env (sample_sm_state, []) =
      Some [\<lparr>c_solochain = 70, c_stake = 50, c_operator = 7\<rparr>, \<lparr>c_solochain = 80, c_stake = 190, c_operator = 8\<rparr>]"
    by (simp add: validator_candidates_def delivery_env_def sample_sm_env_def sample_sm_state_def uint256_max_def)
  have "select_validators [\<lparr>c_solochain = 70, c_stake = 50, c_operator = 7\<rparr>,
      \<lparr>c_solochain = 80, c_stake = 190, c_operator = 8\<rparr>] = [80, 70]"
    by code_simp
  then show "buildNewValidatorSetMessageForEra delivery_env 1 (sample_sm_state, []) = Inr delivery_payload"
    using c by (simp add: buildNewValidatorSetMessageForEra_def delivery_payload_def) (simp add: delivery_env_def)
qed

lemma delivery_submitted:
  "\<exists>s'. submit delivery_inbound (SignedOrigin 1) delivery_event sample_iq_start = Inr s' \<and>
     ExternalValidators (bw_ev (iq_world s')) = [80, 70]"
proof -
  have "im_xcm delivery_message = Raw (scaleEncodeNewValidatorSetMessagePayload fixed_codec [80, 70] 1)"
      "im_origin delivery_message = AuthorizedOrigin sample_evc"
    by (simp_all add: delivery_message_def delivery_payload_def delivery_facts)
  from el_process_built [OF fixed_codec_law _ _ this delivery_facts(7), of "[native_processor sample_nt]" 1]
  obtain w' where "tuple_process [eigenlayer_processor sample_evc (decode_message fixed_codec), native_processor sample_nt]
        1 delivery_message (iq_world sample_iq_start) = Inr (id_bytes EL_MESSAGE_ID, w')"
      "ExternalValidators (bw_ev w') = take (MaxExternalValidators sample_evc) [80, 70]"
    by auto
  moreover have "take (MaxExternalValidators sample_evc) [80, 70] = [80, 70 :: AccountId]"
    using delivery_facts(4) by simp
  moreover have "im_gateway delivery_message = 7" by (simp add: delivery_message_def)
  ultimately show ?thesis
    by (simp add: submit_def delivery_facts is_halted_def iq_process_message_def Let_def dummy_reward_payment_def)
qed

section \<open>Properties\<close>

text \<open>
  C2. Only what Ethereum finalized changes the validator set. If a submission to the inbound queue
  changes the external-validators pallet, then its event is in a receipt that a chain of trie nodes
  links to the receipts root of the presented execution header; that header's beacon block is
  stored by the light client after its calls so far, or proven under a state it stores; the
  event comes from the Gateway and the message in it from the authorized contract; its payload
  decodes to a list of validators with the message id of the bridge, and that list and era are
  what the pallet accepted.
\<close>

theorem validator_set_from_finalized_log:
  assumes "submit (runtime_inbound ecc gateway abi codec evc ntc (ec_run ecc calls)) og event s = Inr s'"
    and "bw_ev (iq_world s') \<noteq> bw_ev (iq_world s)"
  shows "log_in_receipt ecc (ep_event_log event) (ep_proof event) \<and>
    (\<exists>hr. header_root (ec_ssz ecc) (xp_header (ip_execution_proof (ep_proof event))) = Some hr \<and>
       rooted ecc (ip_execution_proof (ep_proof event)) hr (ec_run ecc calls)) \<and>
    log_address (ep_event_log event) = gateway \<and>
    (\<exists>m payload vs era. message_try_from abi (ep_event_log event) = Some m \<and>
       im_origin m = AuthorizedOrigin evc \<and> im_xcm m = Raw payload \<and>
       decode_message codec payload = Some \<lparr>elp_message_id = EL_MESSAGE_ID, elp_message = V1 (ReceiveValidators vs era)\<rparr> \<and>
       set_external_validators_inner evc vs era (bw_ev (iq_world s)) = Inr (bw_ev (iq_world s')))"
proof -
  let ?cfg = "runtime_inbound ecc gateway abi codec evc ntc (ec_run ecc calls)"
  have sub: "ec_verify ecc (ep_event_log event) (ep_proof event) (ec_run ecc calls) = None"
      "log_address (ep_event_log event) = gateway"
      "\<exists>m payload p vs idx. message_try_from abi (ep_event_log event) = Some m \<and>
       im_origin m = AuthorizedOrigin evc \<and> im_xcm m = Raw payload \<and> decode_message codec payload = Some p \<and>
       elp_message_id p = EL_MESSAGE_ID \<and> elp_message p = V1 (ReceiveValidators vs idx) \<and>
       set_external_validators_inner evc vs idx (bw_ev (iq_world s)) = Inr (bw_ev (iq_world s'))"
    using submit_changes_set [of ?cfg evc "decode_message codec" ntc og event s s'] assms by simp_all
  from ec_verify_receipt [OF sub(1)] have lg: "log_in_receipt ecc (ep_event_log event) (ep_proof event)"
    and xp: "verify_execution_proof ecc (ip_execution_proof (ep_proof event)) (ec_run ecc calls) = None" by auto
  from verify_execution_proof_rooted [OF xp] lg sub(2,3) show ?thesis
    by (metis el_payload.surjective unit.exhaust)
qed

theorem validator_set_from_finalized_log_witness:
  "\<exists>s'. submit delivery_inbound (SignedOrigin 1) delivery_event sample_iq_start = Inr s' \<and>
     rooted sample_ec (ip_execution_proof sample_inclusion) 8200 (ec_run sample_ec sample_calls) \<and>
     (\<exists>vs era. set_external_validators_inner sample_evc vs era (bw_ev (iq_world sample_iq_start)) = Inr (bw_ev (iq_world s')))"
proof -
  obtain s' where s': "submit delivery_inbound (SignedOrigin 1) delivery_event sample_iq_start = Inr s'"
      "ExternalValidators (bw_ev (iq_world s')) = [80, 70]"
    using delivery_submitted by blast
  have "ExternalValidators (bw_ev (iq_world sample_iq_start)) \<noteq> [80, 70]"
    by (simp add: sample_iq_start_def iq_genesis_def sample_eval)
  with s'(2) have "bw_ev (iq_world s') \<noteq> bw_ev (iq_world sample_iq_start)" by auto
  from validator_set_from_finalized_log [OF s'(1) this] s'(1) show ?thesis
    by (auto simp: delivery_event_def sample_fields sample_roots sample_inclusion_def sample_header_def)
qed

text \<open>
  C1. The set chosen on Ethereum is the set installed here. When the service manager built the
  payload for an era and the event that carries it verifies, comes from the Gateway and the
  authorized origin, and was not received before, then a submission by anyone while the queue is
  open and the era is the one expected succeeds, records the nonce, and leaves as the external
  validators exactly the solochain addresses of the best candidates in their order, for that era:
  none is lost on the way. (With agreeing codecs and room for 32 validators in the pallet; the
  runtimes have room for 100.)
\<close>

theorem built_set_is_installed:
  assumes "buildNewValidatorSetMessageForEra env era (es, ew) = Inr message"
    and "scaleEncodePayload env = scaleEncodeNewValidatorSetMessagePayload codec" "codec_law codec" "era < 2 ^ 64"
    and "32 \<le> MaxExternalValidators evc" "OperatingMode s = BasicNormal"
    and "ec_verify ecc (ep_event_log event) (ep_proof event) client = None"
    and m: "message_try_from abi (ep_event_log event) = Some m" "im_gateway m = gateway"
      "im_xcm m = Raw message" "im_origin m = AuthorizedOrigin evc"
    and "\<not> bitmap_get (NonceBitmap s) (ucast (im_nonce m))"
    and "validate_target_era era (bw_ev (iq_world s)) = Inr ()"
  shows "\<exists>s' cs chosen rest.
    submit (runtime_inbound ecc gateway abi codec evc ntc client) (SignedOrigin who) event s = Inr s' \<and>
    bitmap_get (NonceBitmap s') (ucast (im_nonce m)) \<and>
    validator_candidates env (es, ew) = Some cs \<and> mset (chosen @ rest) = mset cs \<and>
    ExternalValidators (bw_ev (iq_world s')) = map c_solochain chosen \<and> ExternalIndex (bw_ev (iq_world s')) = era \<and>
    length chosen = min (length cs) 32 \<and> sorted_wrt (\<lambda>a b. \<not> isBetterCandidate b a) chosen \<and>
    (\<forall>c \<in> set chosen. \<forall>d \<in> set rest. \<not> isBetterCandidate d c)"
proof -
  from assms(1) obtain cs where cs: "validator_candidates env (es, ew) = Some cs"
      "message = scaleEncodePayload env (select_validators cs) era"
    by (auto simp: buildNewValidatorSetMessageForEra_def split: option.splits if_splits)
  obtain chosen rest where ch: "mset (chosen @ rest) = mset cs" "select_validators cs = map c_solochain chosen"
    "length chosen = min (length cs) 32" "sorted_wrt (\<lambda>a b. \<not> isBetterCandidate b a) chosen"
    "\<And>c d. c \<in> set chosen \<Longrightarrow> d \<in> set rest \<Longrightarrow> \<not> isBetterCandidate d c"
    using select_validators_best [of cs] unfolding MAX_ACTIVE_VALIDATORS_def by blast
  have len: "length (map c_solochain chosen) < 2 ^ 32" using ch(3) by simp
  have xcm: "im_xcm m = Raw (scaleEncodeNewValidatorSetMessagePayload codec (map c_solochain chosen) era)"
    using cs(2) assms(2) m(3) ch(2) by simp
  obtain w' where w': "tuple_process [eigenlayer_processor evc (decode_message codec), native_processor ntc] who m (iq_world s) =
        Inr (id_bytes EL_MESSAGE_ID, w')"
      "ExternalValidators (bw_ev w') = take (MaxExternalValidators evc) (map c_solochain chosen)" "ExternalIndex (bw_ev w') = era"
    using el_process_built [OF assms(3) len assms(4) xcm m(4) assms(13)] by metis
  let ?s' = "s\<lparr>iq_world := w', NonceBitmap := bitmap_set (NonceBitmap s) (ucast (im_nonce m)),
    iq_events := iq_events s @ [MessageReceived (im_nonce m) (id_bytes EL_MESSAGE_ID)]\<rparr>"
  have "submit (runtime_inbound ecc gateway abi codec evc ntc client) (SignedOrigin who) event s = Inr ?s'"
    using assms(6,7,12) m(1,2) w'(1)
    by (simp add: submit_def is_halted_def iq_process_message_def Let_def dummy_reward_payment_def)
  moreover have "take (MaxExternalValidators evc) (map c_solochain chosen) = map c_solochain chosen"
    using assms(5) ch(3) by simp
  ultimately show ?thesis
    using cs(1) ch w' by (intro exI [of _ ?s'] exI [of _ cs] exI [of _ chosen] exI [of _ rest]) (simp add: bitmap_get_set)
qed

theorem built_set_is_installed_witness:
  "\<exists>s'. submit delivery_inbound (SignedOrigin 1) delivery_event sample_iq_start = Inr s' \<and>
     ExternalIndex (bw_ev (iq_world s')) = 1 \<and> bitmap_get (NonceBitmap s') 1"
proof -
  have enc: "scaleEncodePayload delivery_env = scaleEncodeNewValidatorSetMessagePayload fixed_codec"
    by (simp add: delivery_env_def)
  have m: "im_gateway delivery_message = 7" "im_xcm delivery_message = Raw delivery_payload"
      "im_origin delivery_message = AuthorizedOrigin sample_evc" "im_nonce delivery_message = 1"
    by (simp_all add: delivery_message_def delivery_facts(3))
  show ?thesis
    using built_set_is_installed [OF delivery_built(1) enc fixed_codec_law _ delivery_facts(4,5,1,2) m(1-3)
        delivery_facts(6,7), of sample_nt 1] m(4) by auto
qed

end
